(* ===== verification/Galc_Prelude.thy ===== *)
theory Galc_Prelude
  imports Main "HOL-Library.Word"
begin

text \<open>
  The prelude of the development: the C++ integer types as words, byte vectors, the
  conversion between \<open>std::string\<close> characters and bytes, \<open>size_t\<close> addition with its
  wrap-around written out, and the slice predicate with which the codecs are specified.
  The collections \<open>byte_simps\<close> and \<open>slice_simps\<close> carry the component proofs.
\<close>

unbundle bit_operations_syntax

named_theorems byte_simps \<open>conversion between words, bytes and characters\<close>
named_theorems slice_simps \<open>decomposition of slices of a byte vector\<close>

section \<open>C++ types\<close>

type_synonym u8 = "8 word"
type_synonym u16 = "16 word"
type_synonym u32 = "32 word"
type_synonym u64 = "64 word"
type_synonym size_t = "64 word"
type_synonym bytes = "8 word list"

text \<open>Exceptions that the modelled code throws or lets through.\<close>

datatype cpp_exception =
    Runtime_Error string
  | Invalid_Argument string
  | Out_Of_Range string
  | Bad_Function_Call

section \<open>Characters and bytes\<close>

definition byte_of_char :: "char \<Rightarrow> u8" where
  "byte_of_char c = of_nat (of_char c)"

definition char_of_byte :: "u8 \<Rightarrow> char" where
  "char_of_byte b = char_of (unat b)"

lemma char_of_byte_of_char [simp, byte_simps]: "char_of_byte (byte_of_char c) = c"
proof -
  have "(of_char c :: nat) < 2 ^ LENGTH(8)" by simp
  then show ?thesis by (simp add: char_of_byte_def byte_of_char_def unat_of_nat)
qed

lemma byte_of_char_of_byte [simp, byte_simps]: "byte_of_char (char_of_byte b) = b"
proof -
  have "unat b < 256" by (rule order_less_le_trans [OF unsigned_less]) simp
  then show ?thesis by (simp add: char_of_byte_def byte_of_char_def)
qed

definition bytes_of_string :: "string \<Rightarrow> bytes" where
  "bytes_of_string s = map byte_of_char s"

definition string_of_bytes :: "bytes \<Rightarrow> string" where
  "string_of_bytes bs = map char_of_byte bs"

lemma string_of_bytes_of_string [simp, byte_simps]: "string_of_bytes (bytes_of_string s) = s"
  by (simp add: string_of_bytes_def bytes_of_string_def comp_def)

lemma bytes_of_string_of_bytes [simp, byte_simps]: "bytes_of_string (string_of_bytes bs) = bs"
  by (simp add: string_of_bytes_def bytes_of_string_def comp_def)

lemma length_bytes_of_string [simp]: "length (bytes_of_string s) = length s"
  by (simp add: bytes_of_string_def)

lemma length_string_of_bytes [simp]: "length (string_of_bytes bs) = length bs"
  by (simp add: string_of_bytes_def)

lemma string_of_bytes_eq_iff [simp]: "string_of_bytes bs = s \<longleftrightarrow> bs = bytes_of_string s"
  by auto

section \<open>Bits of words\<close>

lemma and_255_take_bit: "x AND 0xFF = take_bit 8 (x :: 'a::len word)"
  by (simp add: take_bit_eq_mask mask_eq_exp_minus_1)

lemma ucast_and_255 [byte_simps]: "(ucast (x AND 0xFF) :: u8) = ucast (x :: 'a::len word)"
  by (rule bit_word_eqI) (simp add: and_255_take_bit bit_simps)

lemma u8_bit_ge [simp]: "8 \<le> n \<Longrightarrow> \<not> bit (b :: u8) n"
  by (auto dest: bit_imp_le_length)

lemma ucast_u8_u32_u8 [byte_simps]: "(ucast (ucast (b :: u8) :: u32) :: u8) = b"
  by (rule bit_word_eqI) (simp add: bit_simps)

lemma ucast_u8_u32_inject [simp]: "(ucast (a :: u8) :: u32) = ucast b \<longleftrightarrow> a = b"
  by (metis ucast_u8_u32_u8)

lemma unat_u32_lt [simp]: "unat (x :: u32) < 4294967296"
  by (rule order_less_le_trans [OF unsigned_less]) simp

lemma unat_u64_lt [simp]: "unat (x :: u64) < 18446744073709551616"
  by (rule order_less_le_trans [OF unsigned_less]) simp

lemma unat_u32_of_nat: "n < 4294967296 \<Longrightarrow> unat (of_nat n :: u32) = n"
  by (simp add: unat_of_nat)

lemma unat_u64_of_nat: "n < 18446744073709551616 \<Longrightarrow> unat (of_nat n :: u64) = n"
  by (simp add: unat_of_nat)

lemma unat_u32_numeral_of_nat: "unat (of_nat n :: u32) = n mod 4294967296"
  by (simp add: unat_of_nat)

section \<open>Sizes\<close>

text \<open>
  Indices into vectors are \<open>nat\<close>; a sum of two \<open>size_t\<close> values wraps at \<open>2 ^ 64\<close>. No
  vector is longer than \<open>2 ^ 63 - 1\<close> (\<open>PTRDIFF_MAX\<close>), which is \<open>vec_ok\<close>.
\<close>

definition size_add :: "nat \<Rightarrow> nat \<Rightarrow> nat" where
  "size_add a b = (a + b) mod 2 ^ 64"

lemma size_add_exact: "a + b < 18446744073709551616 \<Longrightarrow> size_add a b = a + b"
  by (simp add: size_add_def)

definition vec_ok :: "'a list \<Rightarrow> bool" where
  "vec_ok xs \<longleftrightarrow> length xs < 2 ^ 63"

lemma vec_okD: "vec_ok xs \<Longrightarrow> length xs < 9223372036854775808"
  by (simp add: vec_ok_def)

lemma vec_ok_shorter: "vec_ok ys \<Longrightarrow> length xs \<le> length ys \<Longrightarrow> vec_ok xs"
  by (simp add: vec_ok_def)

section \<open>Slices\<close>

text \<open>\<open>slice_at bs i xs j\<close>: the bytes of \<open>bs\<close> from \<open>i\<close> up to \<open>j\<close> are exactly \<open>xs\<close>.\<close>

definition slice_at :: "'a list \<Rightarrow> nat \<Rightarrow> 'a list \<Rightarrow> nat \<Rightarrow> bool" where
  "slice_at bs i xs j \<longleftrightarrow> j = i + length xs \<and> j \<le> length bs \<and> take (length xs) (drop i bs) = xs"

lemma slice_at_end: "slice_at bs i xs j \<Longrightarrow> j = i + length xs \<and> j \<le> length bs"
  by (simp add: slice_at_def)

lemma slice_at_append [slice_simps]:
  "slice_at bs i (xs @ ys) k \<longleftrightarrow>
     slice_at bs i xs (i + length xs) \<and> slice_at bs (i + length xs) ys k"
proof -
  have "take (length xs + length ys) (drop i bs) = xs @ ys \<longleftrightarrow>
      take (length xs) (drop i bs) = xs \<and> take (length ys) (drop (i + length xs) bs) = ys"
    if "i + length xs + length ys \<le> length bs"
    using that by (simp add: take_add append_eq_append_conv add.commute)
  then show ?thesis by (auto simp: slice_at_def add.assoc)
qed

lemma slice_at_zero: "slice_at bs 0 xs j \<longleftrightarrow> (\<exists>rest. bs = xs @ rest \<and> j = length xs)"
proof
  assume "slice_at bs 0 xs j"
  then have "take (length xs) bs = xs" "j = length xs" by (simp_all add: slice_at_def)
  then show "\<exists>rest. bs = xs @ rest \<and> j = length xs"
    by (metis append_take_drop_id)
qed (auto simp: slice_at_def)

lemma slice_at_prefix: "slice_at bs 0 xs (length xs) \<longleftrightarrow> (\<exists>rest. bs = xs @ rest)"
  by (simp add: slice_at_zero)

lemma slice_at_unique:
  "slice_at bs i xs j \<Longrightarrow> slice_at bs i ys k \<Longrightarrow> length xs = length ys \<Longrightarrow> xs = ys \<and> j = k"
  by (simp add: slice_at_def)

lemma slice_at_nth: "slice_at bs i xs j \<Longrightarrow> n < length xs \<Longrightarrow> bs ! (i + n) = xs ! n"
  unfolding slice_at_def by (metis add_leD1 nth_drop nth_take)

lemma slice_atI:
  assumes "j = i + length xs" "j \<le> length bs" "\<And>n. n < length xs \<Longrightarrow> bs ! (i + n) = xs ! n"
  shows "slice_at bs i xs j"
  unfolding slice_at_def using assms by (auto intro: nth_equalityI)

lemma slice_at_take_drop: "i + n \<le> length bs \<Longrightarrow> slice_at bs i (take n (drop i bs)) (i + n)"
  by (simp add: slice_at_def)

end
