(* ===== verification/Core_Types.thy ===== *)
theory Core_Types
  imports Galc_Prelude
begin

text \<open>
  The plain data of \<open>core\<close>: \<open>Result\<close> and \<open>ErrorCode\<close> (\<open>result.hpp\<close>), \<open>Event\<close>
  (\<open>event.hpp\<close>), \<open>Message\<close> and \<open>MessageType\<close> (\<open>message.hpp\<close>), with their factory
  functions. \<open>std::string\<close> is \<open>string\<close>, whose characters are bytes.
\<close>

section \<open>Result\<close>

datatype error_code =
    No_Error
  | Error_InvalidArgument
  | Error_AgentAlreadyExists
  | Error_AgentNotFound
  | Error_RuntimeNotRunning
  | Error_TransportError

record result =
  r_ok :: bool
  r_code :: error_code
  r_message :: string

definition result_success :: result where
  "result_success = \<lparr>r_ok = True, r_code = No_Error, r_message = ''''\<rparr>"

definition result_failure :: "error_code \<Rightarrow> string \<Rightarrow> result" where
  "result_failure code message = \<lparr>r_ok = False, r_code = code, r_message = message\<rparr>"

lemma r_ok_success [simp]: "r_ok result_success"
  by (simp add: result_success_def)

lemma r_ok_failure [simp]: "\<not> r_ok (result_failure c m)"
  by (simp add: result_failure_def)

lemma r_code_failure [simp]: "r_code (result_failure c m) = c"
  by (simp add: result_failure_def)

lemma r_message_failure [simp]: "r_message (result_failure c m) = m"
  by (simp add: result_failure_def)

lemma result_failure_inject [simp]:
  "result_failure c m = result_failure c' m' \<longleftrightarrow> c = c' \<and> m = m'"
  by (auto simp: result_failure_def)

lemma success_neq_failure [simp]:
  "result_success \<noteq> result_failure c m" "result_failure c m \<noteq> result_success"
  by (simp_all add: result_success_def result_failure_def)

section \<open>Event\<close>

record event =
  e_name :: string
  e_payload :: bytes

definition event_text :: "string \<Rightarrow> string \<Rightarrow> event" where
  "event_text name str = \<lparr>e_name = name, e_payload = bytes_of_string str\<rparr>"

definition payload_as_string :: "event \<Rightarrow> string" where
  "payload_as_string e = string_of_bytes (e_payload e)"

lemma payload_as_string_text [simp]: "payload_as_string (event_text name str) = str"
  by (simp add: payload_as_string_def event_text_def)

section \<open>Message\<close>

text \<open>
  \<open>MessageType\<close> is an enumeration with the fixed underlying type \<open>std::uint8_t\<close>: an
  object of it holds any of the 256 byte values, of which four are named. It is
  therefore the type of bytes, with the named values as constants.
\<close>

type_synonym message_type = u8
type_synonym message_id = u64

definition MT_Event :: message_type where "MT_Event = 0"
definition MT_Command :: message_type where "MT_Command = 1"
definition MT_Error :: message_type where "MT_Error = 2"
definition MT_Telemetry :: message_type where "MT_Telemetry = 3"

definition named_message_type :: "message_type \<Rightarrow> bool" where
  "named_message_type t \<longleftrightarrow> t \<in> {MT_Event, MT_Command, MT_Error, MT_Telemetry}"

record message =
  m_id :: message_id
  m_type :: message_type
  m_source :: string
  m_target :: string
  m_event :: event

definition default_event :: event where
  "default_event = \<lparr>e_name = '''', e_payload = []\<rparr>"

definition default_message :: message where
  "default_message = \<lparr>m_id = 0, m_type = MT_Event, m_source = '''', m_target = '''',
     m_event = default_event\<rparr>"

definition event_message :: "message_id \<Rightarrow> string \<Rightarrow> string \<Rightarrow> event \<Rightarrow> message" where
  "event_message i source target ev =
     default_message\<lparr>m_id := i, m_type := MT_Event, m_source := source, m_target := target,
       m_event := ev\<rparr>"

definition text_event ::
    "message_id \<Rightarrow> string \<Rightarrow> string \<Rightarrow> string \<Rightarrow> string \<Rightarrow> message" where
  "text_event i source target name str = event_message i source target (event_text name str)"

lemma event_message_sel [simp]:
  "m_id (event_message i s t e) = i" "m_type (event_message i s t e) = MT_Event"
  "m_source (event_message i s t e) = s" "m_target (event_message i s t e) = t"
  "m_event (event_message i s t e) = e"
  by (simp_all add: event_message_def)

end
