(* ===== verification/Byte_IO.thy ===== *)
theory Byte_IO
  imports Core_Types
begin

text \<open>
  The big-endian field writers and readers of \<open>core/src/protocol.cpp\<close>, and the interface
  \<open>wire_field\<close> that every field format of the repository satisfies: a reader succeeds at
  an offset exactly where the bytes there are the encoding of a value. The codecs are
  verified through this interface only.
\<close>

section \<open>The contract of a field format\<close>

locale wire_field =
  fixes enc :: "'v \<Rightarrow> bytes"
    and rd :: "bytes \<Rightarrow> nat \<Rightarrow> ('v \<times> nat) option"
    and fits :: "'v \<Rightarrow> bool"
  assumes rd_iff: "vec_ok bs \<Longrightarrow> off \<le> length bs \<Longrightarrow>
      rd bs off = Some (v, off') \<longleftrightarrow> fits v \<and> slice_at bs off (enc v) off'"
begin

lemma rd_some: "vec_ok bs \<Longrightarrow> off \<le> length bs \<Longrightarrow> rd bs off = Some (v, off') \<Longrightarrow>
    fits v \<and> slice_at bs off (enc v) off'"
  by (simp add: rd_iff)

lemma rd_slice: "vec_ok bs \<Longrightarrow> fits v \<Longrightarrow> slice_at bs off (enc v) off' \<Longrightarrow>
    rd bs off = Some (v, off')"
  using rd_iff [of bs off v off'] by (auto dest: slice_at_end)

lemma rd_in_bounds: "vec_ok bs \<Longrightarrow> off \<le> length bs \<Longrightarrow> rd bs off = Some (v, off') \<Longrightarrow>
    off \<le> off' \<and> off' \<le> length bs"
  by (auto dest!: rd_some slice_at_end)

lemma rd_case_iff:
  assumes "vec_ok bs" "off \<le> length bs" "e \<noteq> r"
  shows "(case rd bs off of None \<Rightarrow> e | Some (v, j) \<Rightarrow> k v j) = r \<longleftrightarrow>
    (\<exists>v j. fits v \<and> slice_at bs off (enc v) j \<and> k v j = r)"
proof -
  have "(case rd bs off of None \<Rightarrow> e | Some (v, j) \<Rightarrow> k v j) = r \<longleftrightarrow>
      (\<exists>v j. rd bs off = Some (v, j) \<and> k v j = r)"
    using assms(3) by (auto split: option.splits)
  then show ?thesis using rd_iff [OF assms(1,2)] by simp
qed

lemma rd_round_trip: "vec_ok (pre @ enc v @ rest) \<Longrightarrow> fits v \<Longrightarrow>
    rd (pre @ enc v @ rest) (length pre) = Some (v, length pre + length (enc v))"
  by (rule rd_slice) (auto simp: slice_at_def)

lemma enc_prefix_free:
  assumes "vec_ok (enc v @ r)" "fits v" "fits w" "enc v @ r = enc w @ s"
  shows "v = w \<and> r = s"
proof -
  from assms have "rd (enc v @ r) 0 = Some (v, length (enc v))"
    using rd_round_trip [of "[]" v r] by simp
  moreover from assms have "rd (enc v @ r) 0 = Some (w, length (enc w))"
    using rd_round_trip [of "[]" w s] by simp
  ultimately show ?thesis using assms by simp
qed

lemma rd_truncated:
  assumes "vec_ok (enc v)" "fits v" "k < length (enc v)"
  shows "rd (take k (enc v)) 0 = None"
proof (rule ccontr)
  assume "rd (take k (enc v)) 0 \<noteq> None"
  then obtain w j where w: "rd (take k (enc v)) 0 = Some (w, j)" by auto
  have "vec_ok (take k (enc v))" using assms(1) by (rule vec_ok_shorter) simp
  from rd_some [OF this _ w] obtain rest where fw: "fits w" and "take k (enc v) = enc w @ rest"
    by (auto simp: slice_at_zero)
  then have "enc v @ [] = enc w @ (rest @ drop k (enc v))"
    by (metis append.assoc append_Nil2 append_take_drop_id)
  from enc_prefix_free [OF _ assms(2) fw this] assms show False by simp
qed

end

section \<open>Writers\<close>

definition write_u16 :: "bytes \<Rightarrow> u16 \<Rightarrow> bytes" where
  "write_u16 out val = out @
     [ucast (drop_bit 8 val AND 0xFF)] @
     [ucast (val AND 0xFF)]"

definition write_u32 :: "bytes \<Rightarrow> u32 \<Rightarrow> bytes" where
  "write_u32 out val = out @
     [ucast (drop_bit 24 val AND 0xFF)] @
     [ucast (drop_bit 16 val AND 0xFF)] @
     [ucast (drop_bit 8 val AND 0xFF)] @
     [ucast (val AND 0xFF)]"

text \<open>The loop of \<open>write_u64\<close> runs \<open>shift\<close> from 56 down to 0 in steps of 8.\<close>

definition write_u64 :: "bytes \<Rightarrow> u64 \<Rightarrow> bytes" where
  "write_u64 out val =
     fold (\<lambda>shift out. out @ [ucast (drop_bit shift val AND 0xFF)])
       [56, 48, 40, 32, 24, 16, 8, 0] out"

definition write_string :: "bytes \<Rightarrow> string \<Rightarrow> bytes" where
  "write_string out val = write_u32 out (of_nat (length val)) @ bytes_of_string val"

definition write_bytes :: "bytes \<Rightarrow> bytes \<Rightarrow> bytes" where
  "write_bytes out val = write_u32 out (of_nat (length val)) @ val"

section \<open>Readers\<close>

text \<open>
  A reader takes the offset by reference and returns \<open>false\<close> when the vector is too
  short; here it returns the value with the new offset, or \<open>None\<close>.
\<close>

definition read_u16 :: "bytes \<Rightarrow> nat \<Rightarrow> (u16 \<times> nat) option" where
  "read_u16 bs offset =
     (if size_add offset 2 > length bs then None
      else Some (push_bit 8 (ucast (bs ! offset)) OR ucast (bs ! (offset + 1)),
                 size_add offset 2))"

definition read_u32 :: "bytes \<Rightarrow> nat \<Rightarrow> (u32 \<times> nat) option" where
  "read_u32 bs offset =
     (if size_add offset 4 > length bs then None
      else Some (push_bit 24 (ucast (bs ! offset)) OR
                 push_bit 16 (ucast (bs ! (offset + 1))) OR
                 push_bit 8 (ucast (bs ! (offset + 2))) OR
                 ucast (bs ! (offset + 3)),
                 size_add offset 4))"

definition read_u64 :: "bytes \<Rightarrow> nat \<Rightarrow> (u64 \<times> nat) option" where
  "read_u64 bs offset =
     (if size_add offset 8 > length bs then None
      else Some (fold (\<lambda>i val. push_bit 8 val OR ucast (bs ! (offset + i))) [0..<8] 0,
                 size_add offset 8))"

definition read_string :: "bytes \<Rightarrow> nat \<Rightarrow> (string \<times> nat) option" where
  "read_string bs offset =
     (case read_u32 bs offset of
        None \<Rightarrow> None
      | Some (sz, offset) \<Rightarrow>
          if size_add offset (unat sz) > length bs then None
          else Some (string_of_bytes (take (unat sz) (drop offset bs)),
                     size_add offset (unat sz)))"

definition read_bytes :: "bytes \<Rightarrow> nat \<Rightarrow> (bytes \<times> nat) option" where
  "read_bytes bs offset =
     (case read_u32 bs offset of
        None \<Rightarrow> None
      | Some (sz, offset) \<Rightarrow>
          if size_add offset (unat sz) > length bs then None
          else Some (take (unat sz) (drop offset bs), size_add offset (unat sz)))"

section \<open>Encodings as functions of the value\<close>

definition be16 :: "u16 \<Rightarrow> bytes" where "be16 = write_u16 []"
definition be32 :: "u32 \<Rightarrow> bytes" where "be32 = write_u32 []"
definition be64 :: "u64 \<Rightarrow> bytes" where "be64 = write_u64 []"
definition lstring :: "string \<Rightarrow> bytes" where "lstring = write_string []"
definition lbytes :: "bytes \<Rightarrow> bytes" where "lbytes = write_bytes []"

lemmas be_defs = be16_def be32_def be64_def lstring_def lbytes_def
lemmas write_defs = write_u16_def write_u32_def write_u64_def write_string_def write_bytes_def

lemma be16_bytes: "be16 v = [ucast (drop_bit 8 v), ucast v]"
  by (simp add: be16_def write_u16_def byte_simps)

lemma be32_bytes:
  "be32 v = [ucast (drop_bit 24 v), ucast (drop_bit 16 v), ucast (drop_bit 8 v), ucast v]"
  by (simp add: be32_def write_u32_def byte_simps)

lemma be64_bytes:
  "be64 v = map (\<lambda>s. ucast (drop_bit s v)) [56, 48, 40, 32, 24, 16, 8, 0]"
  by (simp add: be64_def write_u64_def byte_simps)

lemma be_length [simp]: "length (be16 v) = 2" "length (be32 w) = 4" "length (be64 x) = 8"
  by (simp_all add: be16_bytes be32_bytes be64_bytes)

lemma write_as_append:
  "write_u16 out v16 = out @ be16 v16" "write_u32 out v32 = out @ be32 v32"
  "write_u64 out v64 = out @ be64 v64" "write_string out s = out @ lstring s"
  "write_bytes out b = out @ lbytes b"
  by (simp_all add: be_defs write_defs)

lemma lstring_eq: "lstring s = be32 (of_nat (length s)) @ bytes_of_string s"
  by (simp add: be_defs write_string_def)

lemma lbytes_eq: "lbytes b = be32 (of_nat (length b)) @ b"
  by (simp add: be_defs write_bytes_def)

lemma length_lstring [simp]: "length (lstring s) = 4 + length s"
  by (simp add: lstring_eq)

lemma length_lbytes [simp]: "length (lbytes b) = 4 + length b"
  by (simp add: lbytes_eq)

section \<open>Decoding the bytes of a number\<close>

lemma be16_decode: "push_bit 8 (ucast a) OR ucast b = v \<longleftrightarrow> be16 v = [a, b]"
proof
  assume "push_bit 8 (ucast a) OR ucast b = v"
  then show "be16 v = [a, b]"
    by (auto simp: be16_bytes bit_simps intro!: bit_word_eqI)
next
  assume "be16 v = [a, b]"
  then have ab: "a = ucast (drop_bit 8 v)" "b = ucast v" by (simp_all add: be16_bytes)
  show "push_bit 8 (ucast a) OR ucast b = v"
  proof (rule bit_word_eqI)
    fix n assume "n < LENGTH(16)"
    then consider "n < 8" | "8 \<le> n" "n < 16" by force
    then show "bit (push_bit 8 (ucast a) OR ucast b :: u16) n = bit v n"
      unfolding ab by cases (auto simp: bit_simps)
  qed
qed

lemma be32_decode:
  "push_bit 24 (ucast a) OR push_bit 16 (ucast b) OR push_bit 8 (ucast c) OR ucast d = v
     \<longleftrightarrow> be32 v = [a, b, c, d]"
proof
  assume "push_bit 24 (ucast a) OR push_bit 16 (ucast b) OR push_bit 8 (ucast c) OR ucast d = v"
  then show "be32 v = [a, b, c, d]"
    by (auto simp: be32_bytes bit_simps intro!: bit_word_eqI)
next
  assume "be32 v = [a, b, c, d]"
  then have abcd: "a = ucast (drop_bit 24 v)" "b = ucast (drop_bit 16 v)"
      "c = ucast (drop_bit 8 v)" "d = ucast v"
    by (simp_all add: be32_bytes)
  show "push_bit 24 (ucast a) OR push_bit 16 (ucast b) OR push_bit 8 (ucast c) OR ucast d = v"
  proof (rule bit_word_eqI)
    fix n assume "n < LENGTH(32)"
    then consider "n < 8" | "8 \<le> n" "n < 16" | "16 \<le> n" "n < 24" | "24 \<le> n" "n < 32" by force
    then show "bit (push_bit 24 (ucast a) OR push_bit 16 (ucast b) OR push_bit 8 (ucast c) OR
        ucast d :: u32) n = bit v n"
      unfolding abcd by cases (auto simp: bit_simps)
  qed
qed

lemma be64_fold:
  "fold (\<lambda>b val. push_bit 8 val OR ucast b) [b0, b1, b2, b3, b4, b5, b6, b7] 0 =
     push_bit 56 (ucast b0) OR push_bit 48 (ucast b1) OR push_bit 40 (ucast b2) OR
     push_bit 32 (ucast b3) OR push_bit 24 (ucast b4) OR push_bit 16 (ucast b5) OR
     push_bit 8 (ucast b6) OR (ucast b7 :: u64)"
  by (simp add: push_bit_or or.assoc push_bit_push_bit)

lemma be64_decode:
  "fold (\<lambda>b val. push_bit 8 val OR ucast b) bs 0 = v \<and> length bs = 8 \<longleftrightarrow> be64 v = bs"
proof
  assume a: "fold (\<lambda>b val. push_bit 8 val OR ucast b) bs 0 = v \<and> length bs = 8"
  then obtain b0 b1 b2 b3 b4 b5 b6 b7 where bs: "bs = [b0, b1, b2, b3, b4, b5, b6, b7]"
    by (auto simp: length_Suc_conv numeral_eq_Suc)
  from a have v: "v = push_bit 56 (ucast b0) OR push_bit 48 (ucast b1) OR
      push_bit 40 (ucast b2) OR push_bit 32 (ucast b3) OR push_bit 24 (ucast b4) OR
      push_bit 16 (ucast b5) OR push_bit 8 (ucast b6) OR ucast b7"
    unfolding bs be64_fold by simp
  show "be64 v = bs"
    unfolding bs be64_bytes v by (auto simp: bit_simps intro!: bit_word_eqI)
next
  assume bs: "be64 v = bs"
  have "fold (\<lambda>b val. push_bit 8 val OR ucast b) (be64 v) 0 = v"
    unfolding be64_bytes list.map be64_fold
  proof (rule bit_word_eqI)
    fix n assume "n < LENGTH(64)"
    then consider "n < 8" | "8 \<le> n" "n < 16" | "16 \<le> n" "n < 24" | "24 \<le> n" "n < 32"
      | "32 \<le> n" "n < 40" | "40 \<le> n" "n < 48" | "48 \<le> n" "n < 56" | "56 \<le> n" "n < 64"
      by force
    then show "bit (push_bit 56 (ucast (ucast (drop_bit 56 v) :: u8)) OR
        push_bit 48 (ucast (ucast (drop_bit 48 v) :: u8)) OR
        push_bit 40 (ucast (ucast (drop_bit 40 v) :: u8)) OR
        push_bit 32 (ucast (ucast (drop_bit 32 v) :: u8)) OR
        push_bit 24 (ucast (ucast (drop_bit 24 v) :: u8)) OR
        push_bit 16 (ucast (ucast (drop_bit 16 v) :: u8)) OR
        push_bit 8 (ucast (ucast (drop_bit 8 v) :: u8)) OR
        ucast (ucast (drop_bit 0 v) :: u8) :: u64) n = bit v n"
      by cases (simp_all add: bit_simps less_diff_conv2)
  qed
  with bs show "fold (\<lambda>b val. push_bit 8 val OR ucast b) bs 0 = v \<and> length bs = 8" by auto
qed

section \<open>Every field format meets the contract\<close>

lemma size_add_in: "vec_ok bs \<Longrightarrow> off \<le> length bs \<Longrightarrow> n < 4294967296 \<Longrightarrow> size_add off n = off + n"
  by (rule size_add_exact) (auto dest!: vec_okD)

interpretation w16: wire_field be16 read_u16 "\<lambda>_. True"
proof
  fix bs :: bytes and off v off'
  assume h: "vec_ok bs" "off \<le> length bs"
  have "slice_at bs off (be16 v) off' \<longleftrightarrow> off' = off + 2 \<and> off' \<le> length bs \<and>
      be16 v = [bs ! off, bs ! (off + 1)]"
    by (auto simp: slice_at_def be16_bytes take_Suc_conv_app_nth numeral_eq_Suc)
  with h show "read_u16 bs off = Some (v, off') \<longleftrightarrow> True \<and> slice_at bs off (be16 v) off'"
    by (auto simp: read_u16_def size_add_in be16_decode)
qed

interpretation w32: wire_field be32 read_u32 "\<lambda>_. True"
proof
  fix bs :: bytes and off v off'
  assume h: "vec_ok bs" "off \<le> length bs"
  have "slice_at bs off (be32 v) off' \<longleftrightarrow> off' = off + 4 \<and> off' \<le> length bs \<and>
      be32 v = [bs ! off, bs ! (off + 1), bs ! (off + 2), bs ! (off + 3)]"
    by (auto simp: slice_at_def be32_bytes take_Suc_conv_app_nth numeral_eq_Suc)
  with h show "read_u32 bs off = Some (v, off') \<longleftrightarrow> True \<and> slice_at bs off (be32 v) off'"
    by (auto simp: read_u32_def size_add_in be32_decode)
qed

lemma fold_index_read:
  "off + n \<le> length bs \<Longrightarrow>
     fold (\<lambda>i val. f (bs ! (off + i)) val) [0..<n] a = fold f (take n (drop off bs)) a"
proof (induction n)
  case (Suc n)
  then have "take (Suc n) (drop off bs) = take n (drop off bs) @ [bs ! (off + n)]"
    by (simp add: take_Suc_conv_app_nth)
  with Suc show ?case by simp
qed simp

interpretation w64: wire_field be64 read_u64 "\<lambda>_. True"
proof
  fix bs :: bytes and off v off'
  assume h: "vec_ok bs" "off \<le> length bs"
  have sl: "slice_at bs off (be64 v) off' \<longleftrightarrow> off' = off + 8 \<and> off' \<le> length bs \<and>
      be64 v = take 8 (drop off bs)"
    by (auto simp: slice_at_def)
  show "read_u64 bs off = Some (v, off') \<longleftrightarrow> True \<and> slice_at bs off (be64 v) off'"
  proof (cases "off + 8 \<le> length bs")
    case True
    with h have "read_u64 bs off =
        Some (fold (\<lambda>b val. push_bit 8 val OR ucast b) (take 8 (drop off bs)) 0, off + 8)"
      by (simp add: read_u64_def size_add_in
          fold_index_read [where f = "\<lambda>b val. push_bit 8 val OR ucast b"])
    then show ?thesis
      using be64_decode [of "take 8 (drop off bs)" v] True by (auto simp: sl)
  next
    case False
    with h show ?thesis by (simp add: read_u64_def size_add_in sl)
  qed
qed

text \<open>A length-prefixed vector fits when its length fits the 32-bit prefix.\<close>

definition fits32 :: "'a list \<Rightarrow> bool" where
  "fits32 xs \<longleftrightarrow> length xs < 2 ^ 32"

lemma fits32D: "fits32 xs \<Longrightarrow> length xs < 4294967296"
  by (simp add: fits32_def)

lemma fits32_unat [simp]: "fits32 xs \<Longrightarrow> unat (of_nat (length xs) :: u32) = length xs"
  by (simp add: fits32_def unat_of_nat)

lemma fits32_bytes_of_string [simp]: "fits32 (bytes_of_string s) = fits32 s"
  by (simp add: fits32_def)

interpretation wbytes: wire_field lbytes read_bytes fits32
proof
  fix bs :: bytes and off b off'
  assume h: "vec_ok bs" "off \<le> length bs"
  show "read_bytes bs off = Some (b, off') \<longleftrightarrow> fits32 b \<and> slice_at bs off (lbytes b) off'"
  proof
    assume r: "read_bytes bs off = Some (b, off')"
    then obtain sz j where j: "read_u32 bs off = Some (sz, j)" "size_add j (unat sz) \<le> length bs"
      "b = take (unat sz) (drop j bs)" "off' = size_add j (unat sz)"
      by (auto simp: read_bytes_def split: option.splits if_splits)
    from w32.rd_some [OF h j(1)] have s1: "slice_at bs off (be32 sz) j" by simp
    then have "j \<le> length bs" by (rule slice_at_end [THEN conjunct2])
    with h j have off': "off' = j + unat sz" "j + unat sz \<le> length bs" by (simp_all add: size_add_in)
    with j have len: "length b = unat sz" by simp
    from slice_at_take_drop [OF off'(2)] off' j(3) have "slice_at bs j b off'" by simp
    moreover from s1 have "j = off + 4" by (simp add: slice_at_def)
    ultimately show "fits32 b \<and> slice_at bs off (lbytes b) off'"
      using s1 len by (auto simp: lbytes_eq slice_at_append fits32_def)
  next
    assume a: "fits32 b \<and> slice_at bs off (lbytes b) off'"
    define j where "j = off + 4"
    from a have j: "slice_at bs off (be32 (of_nat (length b))) j" "slice_at bs j b off'"
      by (simp_all add: lbytes_eq slice_at_append j_def)
    from w32.rd_slice [OF h(1) _ j(1)] have "read_u32 bs off = Some (of_nat (length b), j)" by simp
    moreover from j(2) have "off' = j + length b" "off' \<le> length bs" "take (length b) (drop j bs) = b"
      by (simp_all add: slice_at_def)
    ultimately show "read_bytes bs off = Some (b, off')"
      using h a by (simp add: read_bytes_def size_add_in fits32D)
  qed
qed

lemma read_string_bytes:
  "read_string bs off = map_option (\<lambda>(b, j). (string_of_bytes b, j)) (read_bytes bs off)"
  by (auto simp: read_string_def read_bytes_def split: option.splits)

interpretation wstring: wire_field lstring read_string fits32
proof
  fix bs :: bytes and off s off'
  assume h: "vec_ok bs" "off \<le> length bs"
  have "lstring s = lbytes (bytes_of_string s)" by (simp add: lstring_eq lbytes_eq)
  moreover have "read_string bs off = Some (s, off') \<longleftrightarrow>
      read_bytes bs off = Some (bytes_of_string s, off')"
    by (cases "read_bytes bs off") (auto simp: read_string_bytes)
  ultimately show "read_string bs off = Some (s, off') \<longleftrightarrow> fits32 s \<and> slice_at bs off (lstring s) off'"
    using wbytes.rd_iff [OF h] by simp
qed

end
