(* ===== verification/Frame_Codec.thy ===== *)
theory Frame_Codec
  imports Byte_IO "HOL-Library.Multiset"
begin

text \<open>
  \<open>core/src/frame.cpp\<close>: a frame is a magic number, the payload's length, the payload and
  a 32-bit sum of its bytes. The theory models the encoder and the decoder with every
  error branch, shows that the decoder accepts exactly the encodings of payloads shorter
  than \<open>2 ^ 32\<close> bytes (\<open>wframe\<close>, an instance of \<open>wire_field\<close>) and what the checksum detects.
\<close>

section \<open>Definitions\<close>

definition frame_magic :: u32 where "frame_magic = 0x47464D45"

text \<open>\<open>frame.cpp\<close> has its own copies of the 32-bit writer and reader; this reader takes
  the offset by value.\<close>

definition frame_write_u32 :: "bytes \<Rightarrow> u32 \<Rightarrow> bytes" where
  "frame_write_u32 out val = out @
     [ucast (drop_bit 24 val AND 0xFF)] @
     [ucast (drop_bit 16 val AND 0xFF)] @
     [ucast (drop_bit 8 val AND 0xFF)] @
     [ucast (val AND 0xFF)]"

definition frame_read_u32 :: "bytes \<Rightarrow> nat \<Rightarrow> u32 option" where
  "frame_read_u32 bs offset =
     (if size_add offset 4 > length bs then None
      else Some (push_bit 24 (ucast (bs ! offset)) OR
                 push_bit 16 (ucast (bs ! (offset + 1))) OR
                 push_bit 8 (ucast (bs ! (offset + 2))) OR
                 ucast (bs ! (offset + 3))))"

definition checksum :: "bytes \<Rightarrow> u32" where
  "checksum bs = fold (\<lambda>byte sum. sum + ucast byte) bs 0"

definition frame_encode :: "bytes \<Rightarrow> bytes" where
  "frame_encode payload =
     (let out = frame_write_u32 [] frame_magic;
          out = frame_write_u32 out (of_nat (length payload));
          out = out @ payload
      in frame_write_u32 out (checksum payload))"

record frame_decode_result =
  fd_result :: result
  fd_payload :: bytes

definition frame_error :: "string \<Rightarrow> bytes \<Rightarrow> frame_decode_result" where
  "frame_error message payload =
     \<lparr>fd_result = result_failure Error_InvalidArgument message, fd_payload = payload\<rparr>"

definition frame_decode :: "bytes \<Rightarrow> frame_decode_result" where
  "frame_decode frame =
     (case frame_read_u32 frame 0 of
        None \<Rightarrow> frame_error ''frame decode failed: missing magic'' []
      | Some magic \<Rightarrow>
          if magic \<noteq> frame_magic then frame_error ''frame decode failed: invalid magic'' []
          else (case frame_read_u32 frame 4 of
            None \<Rightarrow> frame_error ''frame decode failed: missing size'' []
          | Some sz \<Rightarrow>
              let payload_start = 8;
                  checksum_start = size_add payload_start (unat sz)
              in if size_add checksum_start 4 > length frame
                 then frame_error ''frame decode failed: incomplete frame'' []
                 else let payload = take (checksum_start - payload_start) (drop payload_start frame)
                   in case frame_read_u32 frame checksum_start of
                        None \<Rightarrow> frame_error ''frame decode failed: missing checksum'' payload
                      | Some expected_checksum \<Rightarrow>
                          if checksum payload \<noteq> expected_checksum
                          then frame_error ''frame decode failed: checksum mismatch'' payload
                          else \<lparr>fd_result = result_success, fd_payload = payload\<rparr>))"

section \<open>The frame's layout\<close>

lemma frame_write_u32_append: "frame_write_u32 out v = out @ be32 v"
  by (simp add: frame_write_u32_def be32_def write_u32_def)

lemma frame_read_u32_eq: "frame_read_u32 bs off = map_option fst (read_u32 bs off)"
  by (simp add: frame_read_u32_def read_u32_def)

lemma frame_encode_layout:
  "frame_encode p = be32 frame_magic @ be32 (of_nat (length p)) @ p @ be32 (checksum p)"
  by (simp add: frame_encode_def frame_write_u32_append)

lemma length_frame_encode [simp]: "length (frame_encode p) = 12 + length p"
  by (simp add: frame_encode_layout)

lemma frame_read_u32_iff:
  assumes "vec_ok bs" "off \<le> length bs"
  shows "frame_read_u32 bs off = Some v \<longleftrightarrow> slice_at bs off (be32 v) (off + 4)"
proof -
  have "frame_read_u32 bs off = Some v \<longleftrightarrow> (\<exists>j. read_u32 bs off = Some (v, j))"
    by (auto simp: frame_read_u32_eq)
  also have "\<dots> \<longleftrightarrow> slice_at bs off (be32 v) (off + 4)"
    unfolding w32.rd_iff [OF assms] by (auto simp: slice_at_def)
  finally show ?thesis .
qed

lemma be32_inject [simp]: "be32 v = be32 w \<longleftrightarrow> v = w"
  by (metis be32_bytes be32_decode)

section \<open>The checksum\<close>

lemma checksum_fold: "fold (\<lambda>byte sum. sum + ucast byte) bs a = a + (\<Sum>b\<leftarrow>bs. ucast b :: u32)"
  by (induction bs arbitrary: a) (simp_all add: algebra_simps)

lemma checksum_sum: "checksum bs = (\<Sum>b\<leftarrow>bs. ucast b)"
  by (simp add: checksum_def checksum_fold)

lemma checksum_append [simp]: "checksum (xs @ ys) = checksum xs + checksum ys"
  by (simp add: checksum_sum)

lemma checksum_Cons [simp]: "checksum (x # xs) = ucast x + checksum xs"
  by (simp add: checksum_sum)

lemma checksum_Nil [simp]: "checksum [] = 0"
  by (simp add: checksum_sum)

lemma checksum_update:
  assumes "i < length p"
  shows "checksum (p[i := b]) = checksum p \<longleftrightarrow> b = p ! i"
proof -
  have p: "p = take i p @ p ! i # drop (Suc i) p" using assms by (rule id_take_nth_drop)
  have "checksum (p[i := b]) = checksum (take i p) + (ucast b + checksum (drop (Suc i) p))"
    using assms by (simp add: upd_conv_take_nth_drop)
  moreover have "checksum p = checksum (take i p) + (ucast (p ! i) + checksum (drop (Suc i) p))"
    by (subst p) simp
  ultimately show ?thesis by simp
qed

section \<open>The decoder accepts exactly the encodings\<close>

definition rd_frame :: "bytes \<Rightarrow> nat \<Rightarrow> (bytes \<times> nat) option" where
  "rd_frame bs off =
     (let d = frame_decode (drop off bs)
      in if r_ok (fd_result d) then Some (fd_payload d, off + length (frame_encode (fd_payload d)))
         else None)"

lemma fd_error [simp]: "fd_result (frame_error m p) = result_failure Error_InvalidArgument m"
  "fd_payload (frame_error m p) = p"
  by (simp_all add: frame_error_def)

lemma frame_sizes:
  assumes "n < 4294967296"
  shows "size_add 8 n = 8 + n" "size_add (8 + n) 4 = 12 + n"
  using assms by (simp_all add: size_add_def)

lemma frame_decode_ok_iff:
  assumes v: "vec_ok f"
  shows "frame_decode f = \<lparr>fd_result = result_success, fd_payload = p\<rparr> \<longleftrightarrow>
           fits32 p \<and> (\<exists>rest. f = frame_encode p @ rest)"
proof -
  have slices: "(\<exists>rest. f = frame_encode p @ rest) \<longleftrightarrow>
      slice_at f 0 (be32 frame_magic) 4 \<and> slice_at f 4 (be32 (of_nat (length p))) 8 \<and>
      slice_at f 8 p (8 + length p) \<and>
      slice_at f (8 + length p) (be32 (checksum p)) (8 + length p + 4)"
    unfolding slice_at_prefix [symmetric] frame_encode_layout
    by (simp add: slice_at_append add.commute)
  show ?thesis
    unfolding slices
  proof
    assume d: "frame_decode f = \<lparr>fd_result = result_success, fd_payload = p\<rparr>"
    then obtain sz where r: "frame_read_u32 f 0 = Some frame_magic" "frame_read_u32 f 4 = Some sz"
      and le: "\<not> size_add (size_add 8 (unat sz)) 4 > length f"
      and e: "frame_read_u32 f (size_add 8 (unat sz)) = Some (checksum p)"
      and p: "p = take (size_add 8 (unat sz) - 8) (drop 8 f)"
      by (auto simp: frame_decode_def frame_error_def Let_def split: option.splits if_splits)
    note a = frame_sizes [of "unat sz", OF unat_u32_lt]
    with a le p have len: "length p = unat sz" "12 + unat sz \<le> length f" by simp_all
    with r e a v show "fits32 p \<and> slice_at f 0 (be32 frame_magic) 4 \<and>
        slice_at f 4 (be32 (of_nat (length p))) 8 \<and> slice_at f 8 p (8 + length p) \<and>
        slice_at f (8 + length p) (be32 (checksum p)) (8 + length p + 4)"
      using slice_at_take_drop [of 8 "unat sz" f] p
      by (simp add: frame_read_u32_iff fits32_def)
  next
    assume h: "fits32 p \<and> slice_at f 0 (be32 frame_magic) 4 \<and>
        slice_at f 4 (be32 (of_nat (length p))) 8 \<and> slice_at f 8 p (8 + length p) \<and>
        slice_at f (8 + length p) (be32 (checksum p)) (8 + length p + 4)"
    then have len: "12 + length p \<le> length f" by (auto dest: slice_at_end)
    from h len v have r: "frame_read_u32 f 0 = Some frame_magic"
      "frame_read_u32 f 4 = Some (of_nat (length p))"
      "frame_read_u32 f (8 + length p) = Some (checksum p)"
      by (simp_all add: frame_read_u32_iff)
    from h have "take (length p) (drop 8 f) = p" by (simp add: slice_at_def)
    with r h len show "frame_decode f = \<lparr>fd_result = result_success, fd_payload = p\<rparr>"
      by (simp add: frame_decode_def frame_sizes [OF fits32D] Let_def)
  qed
qed

lemma frame_decode_ok_shape:
  "r_ok (fd_result (frame_decode f)) \<Longrightarrow>
     frame_decode f = \<lparr>fd_result = result_success, fd_payload = fd_payload (frame_decode f)\<rparr>"
  by (auto simp: frame_decode_def Let_def split: option.splits if_splits)

interpretation wframe: wire_field frame_encode rd_frame fits32
proof
  fix bs :: bytes and off p off'
  assume h: "vec_ok bs" "off \<le> length bs"
  have v: "vec_ok (drop off bs)" by (rule vec_ok_shorter [OF h(1)]) simp
  have "rd_frame bs off = Some (p, off') \<longleftrightarrow>
      frame_decode (drop off bs) = \<lparr>fd_result = result_success, fd_payload = p\<rparr> \<and>
      off' = off + length (frame_encode p)"
    using frame_decode_ok_shape [of "drop off bs"] by (auto simp: rd_frame_def Let_def)
  also have "\<dots> \<longleftrightarrow> fits32 p \<and> slice_at bs off (frame_encode p) off'"
    using h(2) unfolding frame_decode_ok_iff [OF v] slice_at_prefix [symmetric]
    by (auto simp: slice_at_def)
  finally show "rd_frame bs off = Some (p, off') \<longleftrightarrow>
      fits32 p \<and> slice_at bs off (frame_encode p) off'" .
qed

section \<open>What the frame protects against\<close>

lemma frame_encode_update_shape:
  assumes "fits32 p" "fits32 p'" "(frame_encode p)[i := b] = frame_encode p' @ rest"
    "i < 4 \<or> 8 \<le> i"
  shows "length p' = length p \<and> rest = []"
proof -
  have "take 4 (drop 4 ((frame_encode p)[i := b])) = be32 (of_nat (length p))"
    using assms(4) by (auto simp: frame_encode_layout take_update_swap drop_update_swap list_update_beyond)
  moreover have "take 4 (drop 4 (frame_encode p' @ rest)) = be32 (of_nat (length p'))"
    by (simp add: frame_encode_layout)
  ultimately have "(of_nat (length p) :: u32) = of_nat (length p')"
    using assms(3) by simp
  then have "length p' = length p" using assms(1,2) by (metis fits32_unat)
  moreover have "length ((frame_encode p)[i := b]) = length (frame_encode p' @ rest)"
    using assms(3) by simp
  ultimately show ?thesis by simp
qed

lemma vec_ok_frame: "fits32 p \<Longrightarrow> vec_ok (frame_encode p)"
  by (simp add: vec_ok_def fits32_def)

lemma update_append_split:
  assumes "(xs @ ys)[i := b] = xs' @ ys'" "length xs = length xs'"
  shows "if i < length xs then xs[i := b] = xs' \<and> ys = ys'
         else xs = xs' \<and> ys[i - length xs := b] = ys'"
  using assms by (auto simp: list_update_append split: if_splits)

lemma update_same_nth: "xs[i := b] = xs \<Longrightarrow> i < length xs \<Longrightarrow> xs ! i = b"
  by (metis nth_list_update_eq)

lemma frame_update_not_encoding:
  assumes eq: "(frame_encode p)[i := b] = frame_encode p'" and len: "length p' = length p"
    and i: "i < length (frame_encode p)" and b: "b \<noteq> frame_encode p ! i"
  shows False
proof -
  let ?h = "be32 frame_magic @ be32 (of_nat (length p))"
  have e: "frame_encode p = ?h @ (p @ be32 (checksum p))"
    "frame_encode p' = ?h @ (p' @ be32 (checksum p'))"
    by (simp_all add: frame_encode_layout len)
  from update_append_split [OF eq [unfolded e]]
  have hd: "if i < 8 then ?h[i := b] = ?h
      else (p @ be32 (checksum p))[i - 8 := b] = p' @ be32 (checksum p')" by auto
  show False
  proof (cases "i < 8")
    case True
    with hd have "?h ! i = b" by (intro update_same_nth) auto
    moreover have "frame_encode p ! i = ?h ! i"
      unfolding e by (subst nth_append) (use True in simp)
    ultimately show False using b by simp
  next
    case False
    with hd have "(p @ be32 (checksum p))[i - 8 := b] = p' @ be32 (checksum p')" by simp
    from update_append_split [OF this len [symmetric]]
    have tl: "if i - 8 < length p then p[i - 8 := b] = p' \<and> checksum p = checksum p'
      else p = p' \<and> (be32 (checksum p))[i - 8 - length p := b] = be32 (checksum p')"
      by (auto split: if_splits)
    have nth: "frame_encode p ! i = (p @ be32 (checksum p)) ! (i - 8)"
      unfolding e by (subst nth_append) (use False in simp)
    show False
    proof (cases "i - 8 < length p")
      case True
      with tl have "checksum (p[i - 8 := b]) = checksum p" by simp
      with True b nth show False by (simp add: checksum_update nth_append)
    next
      case False
      with tl have "(be32 (checksum p))[i - 8 - length p := b] = be32 (checksum p)" by auto
      with \<open>\<not> i < 8\<close> i have "be32 (checksum p) ! (i - 8 - length p) = b"
        by (intro update_same_nth) auto
      with False b nth show False by (simp add: nth_append)
    qed
  qed
qed

lemma frame_change_rejected:
  assumes "fits32 p" and "i < length (frame_encode p)" and "i < 4 \<or> 8 \<le> i"
    and "b \<noteq> frame_encode p ! i"
  shows "\<not> r_ok (fd_result (frame_decode ((frame_encode p)[i := b])))"
proof
  let ?f = "(frame_encode p)[i := b]"
  assume "r_ok (fd_result (frame_decode ?f))"
  then have "frame_decode ?f = \<lparr>fd_result = result_success, fd_payload = fd_payload (frame_decode ?f)\<rparr>"
    by (rule frame_decode_ok_shape)
  moreover have "vec_ok ?f" using vec_ok_frame [OF assms(1)] by (simp add: vec_ok_def)
  ultimately obtain p' rest where p': "fits32 p'" "?f = frame_encode p' @ rest"
    by (auto simp: frame_decode_ok_iff)
  from frame_encode_update_shape [OF assms(1) p' assms(3)]
  have "length p' = length p" "rest = []" by simp_all
  with p' frame_update_not_encoding [of p i b p'] assms show False by simp
qed

text \<open>Whatever \<open>Frame::decode\<close> rejects, it rejects as an invalid argument.\<close>

lemma frame_decode_error_code:
  "\<not> r_ok (fd_result (frame_decode f)) \<Longrightarrow> r_code (fd_result (frame_decode f)) = Error_InvalidArgument"
  by (auto simp: frame_decode_def frame_error_def Let_def split: option.splits if_splits)

lemma checksum_mset: "mset xs = mset ys \<Longrightarrow> checksum xs = checksum ys"
  unfolding checksum_sum by (metis mset_map sum_mset_sum_list)

section \<open>Properties\<close>

text \<open>C6: \<open>Frame::decode\<close> succeeds with payload \<open>p\<close> on exactly the vectors that begin with
  \<open>Frame::encode(p)\<close> for a payload shorter than \<open>2 ^ 32\<close> bytes; so it never accepts anything
  the encoder does not write, and ignores what follows the frame.\<close>

theorem frame_decode_accepts_encodings:
  assumes "vec_ok f"
  shows "frame_decode f = \<lparr>fd_result = result_success, fd_payload = p\<rparr> \<longleftrightarrow>
           fits32 p \<and> (\<exists>rest. f = frame_encode p @ rest)"
  using assms by (rule frame_decode_ok_iff)

theorem frame_decode_accepts_encodings_witness:
  "frame_decode (frame_encode [7, 9] @ [1]) = \<lparr>fd_result = result_success, fd_payload = [7, 9]\<rparr>"
  using frame_decode_accepts_encodings [of "frame_encode [7, 9] @ [1]" "[7, 9]"]
  by (simp add: vec_ok_def fits32_def)

text \<open>C32: A change of any one byte, outside the length field, of a frame whose payload is shorter than
  \<open>2 ^ 32\<close> bytes is rejected by
  \<open>Frame::decode\<close>.\<close>

theorem frame_corruption_detected:
  assumes "fits32 p" and "i < length (frame_encode p)" and "i < 4 \<or> 8 \<le> i"
    and "b \<noteq> frame_encode p ! i"
  shows "\<not> r_ok (fd_result (frame_decode ((frame_encode p)[i := b])))"
  using assms by (rule frame_change_rejected)

theorem frame_corruption_detected_witness:
  "\<not> r_ok (fd_result (frame_decode ((frame_encode [7, 9])[8 := 6])))"
  by (rule frame_corruption_detected) (simp_all add: fits32_def frame_encode_layout be32_bytes)

text \<open>A frame cut short at any point is rejected by \<open>Frame::decode\<close>.\<close>

theorem frame_truncation_detected:
  assumes "fits32 p" and "k < length (frame_encode p)"
  shows "\<not> r_ok (fd_result (frame_decode (take k (frame_encode p))))"
  using wframe.rd_truncated [OF vec_ok_frame [OF assms(1)] assms]
  by (auto simp: rd_frame_def Let_def split: if_splits)

theorem frame_truncation_detected_witness:
  "\<not> r_ok (fd_result (frame_decode (take 9 (frame_encode [7, 9]))))"
  by (rule frame_truncation_detected) (simp_all add: fits32_def)

text \<open>The checksum is a sum, so it does not protect the order of the payload: a frame
  whose payload bytes were reordered is accepted with the reordered payload.\<close>

theorem frame_checksum_order_blind:
  assumes "fits32 p" and "mset q = mset p"
  shows "frame_decode (take 8 (frame_encode p) @ q @ drop (8 + length p) (frame_encode p)) =
           \<lparr>fd_result = result_success, fd_payload = q\<rparr>"
proof -
  have len: "length q = length p" using assms(2) by (metis size_mset)
  have "take 8 (frame_encode p) @ q @ drop (8 + length p) (frame_encode p) = frame_encode q @ []"
    using checksum_mset [OF assms(2)] by (simp add: frame_encode_layout len)
  moreover have "fits32 q" using assms(1) len by (simp add: fits32_def)
  ultimately show ?thesis
    using vec_ok_frame frame_decode_ok_iff by (metis append_Nil2)
qed

theorem frame_checksum_order_blind_witness:
  "frame_decode (take 8 (frame_encode [1, 2]) @ [2, 1] @ drop (8 + length [1 :: u8, 2]) (frame_encode [1, 2])) =
     \<lparr>fd_result = result_success, fd_payload = [2, 1]\<rparr>"
  by (rule frame_checksum_order_blind) (simp_all add: fits32_def)

end
