(* ===== verification/Protocol_Codec.thy ===== *)
theory Protocol_Codec
  imports Byte_IO
begin

text \<open>
  \<open>Protocol::encode\<close> and \<open>Protocol::decode\<close> of \<open>core/src/protocol.cpp\<close>: the binary form of a
  \<open>Message\<close>. The decoder is modelled with every error branch and with the partly filled
  message that it returns beside an error. \<open>wmessage\<close> shows that the message format meets
  the contract \<open>wire_field\<close>.
\<close>

section \<open>Definitions\<close>

definition protocol_magic :: u32 where "protocol_magic = 0x47434C43"
definition protocol_version :: u16 where "protocol_version = 1"

definition protocol_encode :: "message \<Rightarrow> bytes" where
  "protocol_encode m =
     (let out = write_u32 [] protocol_magic;
          out = write_u16 out protocol_version;
          out = out @ [m_type m];
          out = write_u64 out (m_id m);
          out = write_string out (m_source m);
          out = write_string out (m_target m);
          out = write_string out (e_name (m_event m))
      in write_bytes out (e_payload (m_event m)))"

record decode_result =
  dr_result :: result
  dr_message :: message

definition protocol_error :: "string \<Rightarrow> message \<Rightarrow> decode_result" where
  "protocol_error text m =
     \<lparr>dr_result = result_failure Error_InvalidArgument text, dr_message = m\<rparr>"

text \<open>The fields after the fixed header, each with its own error message.\<close>

definition decode_payload :: "bytes \<Rightarrow> nat \<Rightarrow> message \<Rightarrow> decode_result" where
  "decode_payload bs offset m =
     (case read_bytes bs offset of
        None \<Rightarrow> protocol_error ''protocol decode failed: invalid payload'' m
      | Some (payload, offset) \<Rightarrow>
          \<lparr>dr_result = result_success,
           dr_message = m\<lparr>m_event := (m_event m)\<lparr>e_payload := payload\<rparr>\<rparr>\<rparr>)"

definition decode_event_name :: "bytes \<Rightarrow> nat \<Rightarrow> message \<Rightarrow> decode_result" where
  "decode_event_name bs offset m =
     (case read_string bs offset of
        None \<Rightarrow> protocol_error ''protocol decode failed: invalid event name'' m
      | Some (name, offset) \<Rightarrow>
          decode_payload bs offset (m\<lparr>m_event := (m_event m)\<lparr>e_name := name\<rparr>\<rparr>))"

definition decode_target :: "bytes \<Rightarrow> nat \<Rightarrow> message \<Rightarrow> decode_result" where
  "decode_target bs offset m =
     (case read_string bs offset of
        None \<Rightarrow> protocol_error ''protocol decode failed: invalid target'' m
      | Some (target, offset) \<Rightarrow> decode_event_name bs offset (m\<lparr>m_target := target\<rparr>))"

definition decode_source :: "bytes \<Rightarrow> nat \<Rightarrow> message \<Rightarrow> decode_result" where
  "decode_source bs offset m =
     (case read_string bs offset of
        None \<Rightarrow> protocol_error ''protocol decode failed: invalid source'' m
      | Some (source, offset) \<Rightarrow> decode_target bs offset (m\<lparr>m_source := source\<rparr>))"

definition decode_id :: "bytes \<Rightarrow> nat \<Rightarrow> message \<Rightarrow> decode_result" where
  "decode_id bs offset m =
     (case read_u64 bs offset of
        None \<Rightarrow> protocol_error ''protocol decode failed: missing message id'' m
      | Some (i, offset) \<Rightarrow> decode_source bs offset (m\<lparr>m_id := i\<rparr>))"

definition protocol_decode :: "bytes \<Rightarrow> decode_result" where
  "protocol_decode bs =
     (let m = default_message
      in case read_u32 bs 0 of
           None \<Rightarrow> protocol_error ''protocol decode failed: missing magic'' m
         | Some (magic, offset) \<Rightarrow>
             if magic \<noteq> protocol_magic
             then protocol_error ''protocol decode failed: invalid magic'' m
             else (case read_u16 bs offset of
               None \<Rightarrow> protocol_error ''protocol decode failed: missing version'' m
             | Some (version, offset) \<Rightarrow>
                 if version \<noteq> protocol_version
                 then protocol_error ''protocol decode failed: unsupported version'' m
                 else if size_add offset 1 > length bs
                 then protocol_error ''protocol decode failed: missing message type'' m
                 else decode_id bs (size_add offset 1) (m\<lparr>m_type := bs ! offset\<rparr>)))"

section \<open>Layout\<close>

definition message_fits :: "message \<Rightarrow> bool" where
  "message_fits m \<longleftrightarrow> fits32 (m_source m) \<and> fits32 (m_target m) \<and>
     fits32 (e_name (m_event m)) \<and> fits32 (e_payload (m_event m))"

lemma protocol_encode_layout:
  "protocol_encode m = be32 protocol_magic @ be16 protocol_version @ [m_type m] @ be64 (m_id m) @
     lstring (m_source m) @ lstring (m_target m) @ lstring (e_name (m_event m)) @
     lbytes (e_payload (m_event m))"
  by (simp add: protocol_encode_def write_as_append)

lemma length_protocol_encode:
  "length (protocol_encode m) = 31 + length (m_source m) + length (m_target m) +
     length (e_name (m_event m)) + length (e_payload (m_event m))"
  by (simp add: protocol_encode_layout)

lemma vec_ok_protocol: "message_fits m \<Longrightarrow> vec_ok (protocol_encode m)"
  by (simp add: message_fits_def fits32_def vec_ok_def length_protocol_encode)

lemma slice_at_single: "slice_at bs i [x] j \<longleftrightarrow> j = i + 1 \<and> i < length bs \<and> bs ! i = x"
  by (auto simp: slice_at_def take_Suc_conv_app_nth)

lemma dr_error [simp]: "dr_result (protocol_error t m) = result_failure Error_InvalidArgument t"
  by (simp add: protocol_error_def)

lemma protocol_error_neq [simp]:
  "protocol_error t m \<noteq> \<lparr>dr_result = result_success, dr_message = m'\<rparr>"
  by (simp add: protocol_error_def)

section \<open>Each decoding step\<close>

text \<open>The steps, from the last to the first: what is left to decode succeeds exactly where
  the remaining fields are encoded.\<close>

lemma decode_payload_iff:
  assumes "vec_ok bs" "off \<le> length bs"
  shows "decode_payload bs off m = \<lparr>dr_result = result_success, dr_message = m'\<rparr> \<longleftrightarrow>
    (\<exists>p j. fits32 p \<and> slice_at bs off (lbytes p) j \<and>
       m' = m\<lparr>m_event := (m_event m)\<lparr>e_payload := p\<rparr>\<rparr>)"
  unfolding decode_payload_def by (subst wbytes.rd_case_iff [OF assms]) auto

lemma decode_event_name_iff:
  assumes "vec_ok bs" "off \<le> length bs"
  shows "decode_event_name bs off m = \<lparr>dr_result = result_success, dr_message = m'\<rparr> \<longleftrightarrow>
    (\<exists>n j. fits32 n \<and> slice_at bs off (lstring n) j \<and>
       decode_payload bs j (m\<lparr>m_event := (m_event m)\<lparr>e_name := n\<rparr>\<rparr>) =
         \<lparr>dr_result = result_success, dr_message = m'\<rparr>)"
  unfolding decode_event_name_def by (subst wstring.rd_case_iff [OF assms]) auto

lemma decode_target_iff:
  assumes "vec_ok bs" "off \<le> length bs"
  shows "decode_target bs off m = \<lparr>dr_result = result_success, dr_message = m'\<rparr> \<longleftrightarrow>
    (\<exists>n j. fits32 n \<and> slice_at bs off (lstring n) j \<and>
       decode_event_name bs j (m\<lparr>m_target := n\<rparr>) =
         \<lparr>dr_result = result_success, dr_message = m'\<rparr>)"
  unfolding decode_target_def by (subst wstring.rd_case_iff [OF assms]) auto

lemma decode_source_iff:
  assumes "vec_ok bs" "off \<le> length bs"
  shows "decode_source bs off m = \<lparr>dr_result = result_success, dr_message = m'\<rparr> \<longleftrightarrow>
    (\<exists>n j. fits32 n \<and> slice_at bs off (lstring n) j \<and>
       decode_target bs j (m\<lparr>m_source := n\<rparr>) =
         \<lparr>dr_result = result_success, dr_message = m'\<rparr>)"
  unfolding decode_source_def by (subst wstring.rd_case_iff [OF assms]) auto

lemma decode_id_iff:
  assumes "vec_ok bs" "off \<le> length bs"
  shows "decode_id bs off m = \<lparr>dr_result = result_success, dr_message = m'\<rparr> \<longleftrightarrow>
    (\<exists>n j. slice_at bs off (be64 n) j \<and>
       decode_source bs j (m\<lparr>m_id := n\<rparr>) = \<lparr>dr_result = result_success, dr_message = m'\<rparr>)"
  unfolding decode_id_def by (subst w64.rd_case_iff [OF assms]) auto

lemma protocol_decode_iff_steps:
  assumes "vec_ok bs"
  shows "protocol_decode bs = \<lparr>dr_result = result_success, dr_message = m'\<rparr> \<longleftrightarrow>
    (\<exists>j k. slice_at bs 0 (be32 protocol_magic) j \<and> slice_at bs j (be16 protocol_version) k \<and>
       size_add k 1 \<le> length bs \<and>
       decode_id bs (size_add k 1) (default_message\<lparr>m_type := bs ! k\<rparr>) =
         \<lparr>dr_result = result_success, dr_message = m'\<rparr>)"
proof -
  let ?r = "\<lparr>dr_result = result_success, dr_message = m'\<rparr>"
  have tl: "(if version \<noteq> protocol_version then protocol_error t1 m
       else if size_add k 1 > length bs then protocol_error t2 m else d) = ?r \<longleftrightarrow>
       version = protocol_version \<and> size_add k 1 \<le> length bs \<and> d = ?r"
    for version t1 t2 m k d
    by auto
  have hd: "(if magic \<noteq> protocol_magic then protocol_error t1 m else d) = ?r \<longleftrightarrow>
       magic = protocol_magic \<and> d = ?r" for magic t1 m d
    by auto
  have mid: "(case read_u16 bs j of None \<Rightarrow> protocol_error t m | Some (version, k) \<Rightarrow> f version k) = ?r
      \<longleftrightarrow> (\<exists>version k. slice_at bs j (be16 version) k \<and> f version k = ?r)"
    if "j \<le> length bs" for j t m f
    using w16.rd_case_iff [OF assms that, of "protocol_error t m" ?r f] by simp
  have "protocol_decode bs = ?r \<longleftrightarrow> (\<exists>magic j. slice_at bs 0 (be32 magic) j \<and> magic = protocol_magic \<and>
      (\<exists>version k. slice_at bs j (be16 version) k \<and> version = protocol_version \<and>
         size_add k 1 \<le> length bs \<and>
         decode_id bs (size_add k 1) (default_message\<lparr>m_type := bs ! k\<rparr>) = ?r))"
    unfolding protocol_decode_def Let_def
  proof (subst w32.rd_case_iff [OF assms], simp, simp, simp only: hd simp_thms,
      intro ex_cong1 conj_cong refl)
    fix magic j
    assume "slice_at bs 0 (be32 magic) j"
    then have "j \<le> length bs" by (simp add: slice_at_def)
    from mid [OF this] show "(case read_u16 bs j of
        None \<Rightarrow> protocol_error ''protocol decode failed: missing version'' default_message
      | Some (version, offset) \<Rightarrow>
          if version \<noteq> protocol_version
          then protocol_error ''protocol decode failed: unsupported version'' default_message
          else if size_add offset 1 > length bs
          then protocol_error ''protocol decode failed: missing message type'' default_message
          else decode_id bs (size_add offset 1) (default_message\<lparr>m_type := bs ! offset\<rparr>)) = ?r \<longleftrightarrow>
        (\<exists>version k. slice_at bs j (be16 version) k \<and> version = protocol_version \<and>
           size_add k 1 \<le> length bs \<and>
           decode_id bs (size_add k 1) (default_message\<lparr>m_type := bs ! k\<rparr>) = ?r)"
      by (simp only: tl)
  qed
  then show ?thesis by auto
qed

lemma protocol_decode_sound:
  assumes v: "vec_ok bs" and d: "protocol_decode bs = \<lparr>dr_result = result_success, dr_message = m\<rparr>"
  shows "message_fits m \<and> slice_at bs 0 (protocol_encode m) (length (protocol_encode m))"
proof -
  from d obtain j k where s1: "slice_at bs 0 (be32 protocol_magic) j"
    "slice_at bs j (be16 protocol_version) k" "size_add k 1 \<le> length bs"
    and d1: "decode_id bs (size_add k 1) (default_message\<lparr>m_type := bs ! k\<rparr>) =
      \<lparr>dr_result = result_success, dr_message = m\<rparr>"
    unfolding protocol_decode_iff_steps [OF v] by blast
  from s1 have k: "size_add k 1 = k + 1" "k + 1 \<le> length bs"
    using v size_add_in [of bs k 1] by (auto dest: slice_at_end)
  obtain i a where i: "slice_at bs (k + 1) (be64 i) a"
    and d2: "decode_source bs a (default_message\<lparr>m_type := bs ! k, m_id := i\<rparr>) =
      \<lparr>dr_result = result_success, dr_message = m\<rparr>"
    using d1 unfolding k(1) decode_id_iff [OF v k(2)] by auto
  from slice_at_end [OF i] have a: "a \<le> length bs" by simp
  obtain s b where s: "fits32 s" "slice_at bs a (lstring s) b"
    and d3: "decode_target bs b (default_message\<lparr>m_type := bs ! k, m_id := i, m_source := s\<rparr>) =
      \<lparr>dr_result = result_success, dr_message = m\<rparr>"
    using d2 unfolding decode_source_iff [OF v a] by auto
  from slice_at_end [OF s(2)] have b: "b \<le> length bs" by simp
  obtain t c where t: "fits32 t" "slice_at bs b (lstring t) c"
    and d4: "decode_event_name bs c (default_message\<lparr>m_type := bs ! k, m_id := i, m_source := s,
      m_target := t\<rparr>) = \<lparr>dr_result = result_success, dr_message = m\<rparr>"
    using d3 unfolding decode_target_iff [OF v b] by auto
  from slice_at_end [OF t(2)] have c: "c \<le> length bs" by simp
  obtain n e where n: "fits32 n" "slice_at bs c (lstring n) e"
    and d5: "decode_payload bs e (default_message\<lparr>m_type := bs ! k, m_id := i, m_source := s,
      m_target := t, m_event := default_event\<lparr>e_name := n\<rparr>\<rparr>) =
      \<lparr>dr_result = result_success, dr_message = m\<rparr>"
    using d4 unfolding decode_event_name_iff [OF v c] by (auto simp: default_message_def)
  from slice_at_end [OF n(2)] have e: "e \<le> length bs" by simp
  obtain p f where p: "fits32 p" "slice_at bs e (lbytes p) f"
    and m: "m = \<lparr>m_id = i, m_type = bs ! k, m_source = s, m_target = t,
      m_event = \<lparr>e_name = n, e_payload = p\<rparr>\<rparr>"
    using d5 unfolding decode_payload_iff [OF v e]
    by (auto simp: default_message_def default_event_def)
  have "slice_at bs k [bs ! k] (k + 1)" using k(2) by (simp add: slice_at_single)
  moreover from s1 i s t n p have "j = 4" "k = 6" "a = 15" "b = a + length (lstring s)"
    "c = b + length (lstring t)" "e = c + length (lstring n)" "f = e + length (lbytes p)"
    by (auto dest!: slice_at_end)
  ultimately have "slice_at bs 0 (protocol_encode m) f"
    using s1 i s t n p unfolding protocol_encode_layout m slice_at_append
    by (simp add: add.assoc)
  moreover from slice_at_end [OF this] have "f = length (protocol_encode m)" by simp
  ultimately show ?thesis using s(1) t(1) n(1) p(1) by (simp add: message_fits_def m)
qed

lemma protocol_decode_complete:
  assumes v: "vec_ok bs" and fits: "message_fits m"
    and sl: "slice_at bs 0 (protocol_encode m) (length (protocol_encode m))"
  shows "protocol_decode bs = \<lparr>dr_result = result_success, dr_message = m\<rparr>"
proof -
  obtain i t s g n p where m: "m = \<lparr>m_id = i, m_type = t, m_source = s, m_target = g,
      m_event = \<lparr>e_name = n, e_payload = p\<rparr>\<rparr>"
    by (metis message.cases event.cases)
  define a where "a = 15 + length (lstring s)"
  define b where "b = a + length (lstring g)"
  define c where "c = b + length (lstring n)"
  define d where "d = c + length (lbytes p)"
  from sl have S: "slice_at bs 0 (be32 protocol_magic) 4" "slice_at bs 4 (be16 protocol_version) 6"
    "slice_at bs 6 [t] 7" "slice_at bs 7 (be64 i) 15" "slice_at bs 15 (lstring s) a"
    "slice_at bs a (lstring g) b" "slice_at bs b (lstring n) c" "slice_at bs c (lbytes p) d"
    unfolding protocol_encode_layout m slice_at_append
    by (simp_all add: a_def b_def c_def d_def ac_simps)
  then have le: "7 \<le> length bs" "15 \<le> length bs" "a \<le> length bs" "b \<le> length bs" "c \<le> length bs"
    by (auto dest!: slice_at_end)
  let ?h = "default_message\<lparr>m_type := t, m_id := i\<rparr>"
  from fits have F: "fits32 s" "fits32 g" "fits32 n" "fits32 p" by (simp_all add: message_fits_def m)
  have "decode_payload bs c (?h\<lparr>m_source := s, m_target := g, m_event := default_event\<lparr>e_name := n\<rparr>\<rparr>) =
      \<lparr>dr_result = result_success, dr_message = m\<rparr>"
    unfolding decode_payload_iff [OF v le(5)] using S F
    by (auto simp: m default_message_def default_event_def)
  then have "decode_event_name bs b (?h\<lparr>m_source := s, m_target := g\<rparr>) =
      \<lparr>dr_result = result_success, dr_message = m\<rparr>"
    unfolding decode_event_name_iff [OF v le(4)] using S F by (auto simp: default_message_def)
  then have "decode_target bs a (?h\<lparr>m_source := s\<rparr>) = \<lparr>dr_result = result_success, dr_message = m\<rparr>"
    unfolding decode_target_iff [OF v le(3)] using S F by auto
  then have "decode_source bs 15 ?h = \<lparr>dr_result = result_success, dr_message = m\<rparr>"
    unfolding decode_source_iff [OF v le(2)] using S F by auto
  then have "decode_id bs 7 (default_message\<lparr>m_type := t\<rparr>) =
      \<lparr>dr_result = result_success, dr_message = m\<rparr>"
    unfolding decode_id_iff [OF v le(1)] using S by auto
  moreover have "bs ! 6 = t" using S(3) by (simp add: slice_at_single)
  ultimately show ?thesis
    unfolding protocol_decode_iff_steps [OF v] using S le
    by (intro exI [of _ 4] exI [of _ 6]) (simp add: size_add_def)
qed

lemma protocol_decode_ok_iff:
  assumes v: "vec_ok bs"
  shows "protocol_decode bs = \<lparr>dr_result = result_success, dr_message = m\<rparr> \<longleftrightarrow>
    message_fits m \<and> (\<exists>rest. bs = protocol_encode m @ rest)"
  unfolding slice_at_prefix [symmetric]
  using protocol_decode_sound [OF v] protocol_decode_complete [OF v] by blast

section \<open>The message format meets the contract\<close>

definition rd_message :: "bytes \<Rightarrow> nat \<Rightarrow> (message \<times> nat) option" where
  "rd_message bs off =
     (let d = protocol_decode (drop off bs)
      in if r_ok (dr_result d)
         then Some (dr_message d, off + length (protocol_encode (dr_message d))) else None)"

lemma protocol_decode_ok_shape:
  "r_ok (dr_result (protocol_decode bs)) \<Longrightarrow>
     protocol_decode bs = \<lparr>dr_result = result_success, dr_message = dr_message (protocol_decode bs)\<rparr>"
  by (auto simp: protocol_decode_def decode_id_def decode_source_def decode_target_def
      decode_event_name_def decode_payload_def Let_def split: option.splits if_splits)

interpretation wmessage: wire_field protocol_encode rd_message message_fits
proof
  fix bs :: bytes and off m off'
  assume h: "vec_ok bs" "off \<le> length bs"
  have v: "vec_ok (drop off bs)" by (rule vec_ok_shorter [OF h(1)]) simp
  have "rd_message bs off = Some (m, off') \<longleftrightarrow>
      protocol_decode (drop off bs) = \<lparr>dr_result = result_success, dr_message = m\<rparr> \<and>
      off' = off + length (protocol_encode m)"
    using protocol_decode_ok_shape [of "drop off bs"] by (auto simp: rd_message_def Let_def)
  also have "\<dots> \<longleftrightarrow> message_fits m \<and> slice_at bs off (protocol_encode m) off'"
    using h(2) unfolding protocol_decode_ok_iff [OF v] slice_at_prefix [symmetric]
    by (auto simp: slice_at_def)
  finally show "rd_message bs off = Some (m, off') \<longleftrightarrow>
      message_fits m \<and> slice_at bs off (protocol_encode m) off'" .
qed

lemma protocol_round_trip:
  "message_fits m \<Longrightarrow>
     protocol_decode (protocol_encode m) = \<lparr>dr_result = result_success, dr_message = m\<rparr>"
  using protocol_decode_ok_iff [OF vec_ok_protocol, of m m] by auto

section \<open>Properties\<close>

text \<open>C7: \<open>Protocol::decode\<close> succeeds with message \<open>m\<close> on exactly the vectors that begin with
  \<open>Protocol::encode(m)\<close> for a message all of whose strings and payload are shorter than
  \<open>2 ^ 32\<close> bytes.\<close>

theorem protocol_decode_accepts_encodings:
  assumes "vec_ok bs"
  shows "protocol_decode bs = \<lparr>dr_result = result_success, dr_message = m\<rparr> \<longleftrightarrow>
    message_fits m \<and> (\<exists>rest. bs = protocol_encode m @ rest)"
  using assms by (rule protocol_decode_ok_iff)

definition sample_message :: message where
  "sample_message = text_event 7 ''client'' ''server'' ''hello'' ''hi''"

lemma sample_message_fits: "message_fits sample_message"
  by (simp add: sample_message_def message_fits_def text_event_def event_text_def fits32_def)

theorem protocol_decode_accepts_encodings_witness:
  "protocol_decode (protocol_encode sample_message @ [0, 1]) =
     \<lparr>dr_result = result_success, dr_message = sample_message\<rparr>"
proof -
  have "vec_ok (protocol_encode sample_message @ [0, 1])"
    using vec_ok_protocol [OF sample_message_fits]
    by (simp add: vec_ok_def length_protocol_encode sample_message_def text_event_def event_text_def)
  from protocol_decode_accepts_encodings [OF this] show ?thesis using sample_message_fits by blast
qed

text \<open>A message survives \<open>Protocol::encode\<close> followed by \<open>Protocol::decode\<close> exactly when
  its strings and payload are shorter than \<open>2 ^ 32\<close> bytes; longer ones are lost to the
  truncated length prefix, because \<open>encode\<close> does not report them.\<close>

theorem protocol_round_trip_exactly:
  assumes "vec_ok (protocol_encode m)"
  shows "protocol_decode (protocol_encode m) = \<lparr>dr_result = result_success, dr_message = m\<rparr>
    \<longleftrightarrow> message_fits m"
  using protocol_decode_ok_iff [OF assms, of m] by auto

theorem protocol_round_trip_exactly_witness:
  "protocol_decode (protocol_encode sample_message) =
     \<lparr>dr_result = result_success, dr_message = sample_message\<rparr>"
  using protocol_round_trip_exactly [OF vec_ok_protocol [OF sample_message_fits]]
    sample_message_fits by blast

text \<open>An encoded message cut short at any point is rejected by \<open>Protocol::decode\<close>, with
  \<open>InvalidArgument\<close>.\<close>

theorem protocol_truncation_detected:
  assumes "message_fits m" and "k < length (protocol_encode m)"
  shows "\<not> r_ok (dr_result (protocol_decode (take k (protocol_encode m)))) \<and>
    r_code (dr_result (protocol_decode (take k (protocol_encode m)))) = Error_InvalidArgument"
proof -
  have "\<not> r_ok (dr_result (protocol_decode (take k (protocol_encode m))))"
    using wmessage.rd_truncated [OF vec_ok_protocol [OF assms(1)] assms]
    by (auto simp: rd_message_def Let_def split: if_splits)
  moreover have "r_ok (dr_result (protocol_decode bs)) \<or>
      r_code (dr_result (protocol_decode bs)) = Error_InvalidArgument" for bs
    by (auto simp: protocol_decode_def decode_id_def decode_source_def decode_target_def
        decode_event_name_def decode_payload_def Let_def split: option.splits)
  ultimately show ?thesis by blast
qed

theorem protocol_truncation_detected_witness:
  "\<not> r_ok (dr_result (protocol_decode (take 40 (protocol_encode sample_message))))"
  using protocol_truncation_detected [OF sample_message_fits, of 40]
  by (simp add: length_protocol_encode sample_message_def text_event_def event_text_def)

end
