(* ===== verification/Transport.thy ===== *)
theory Transport
  imports Frame_Codec Protocol_Codec
begin

text \<open>
  The transports of \<open>core\<close>. \<open>Transport\<close> and \<open>ByteTransport\<close> are abstract classes with the
  same three operations; their contract is the locale \<open>fifo_channel\<close>, over the payload type
  and over the state of the object. \<open>InMemoryTransport\<close> and \<open>InMemoryByteTransport\<close> provide
  it. \<open>MessageByteAdapter\<close> and \<open>FramedMessageTransport\<close> take the virtual operations of a
  byte transport as parameters; over every byte channel the framed transport is again a
  channel, of messages (the sublocale of \<open>byte_channel\<close>).

  Each operation of the in-memory transports is one function on the queue here; that the mutex
  makes it so when threads share the object is shown in \<open>Transport_Threads\<close>.
\<close>

section \<open>The contract of a transport\<close>

locale fifo_channel =
  fixes snd_op :: "'p \<Rightarrow> 't \<Rightarrow> bool \<times> 't"
    and rcv_op :: "'t \<Rightarrow> 'p option \<times> 't"
    and empty_op :: "'t \<Rightarrow> bool"
    and contents :: "'t \<Rightarrow> 'p list"
    and invar :: "'t \<Rightarrow> bool"
    and accepts :: "'p \<Rightarrow> bool"
  assumes send_appends: "invar t \<Longrightarrow> accepts x \<Longrightarrow> snd_op x t = (b, t') \<Longrightarrow>
      b \<and> invar t' \<and> contents t' = contents t @ [x]"
    and receive_pops: "invar t \<Longrightarrow> rcv_op t = (r, t') \<Longrightarrow>
      invar t' \<and> contents t' = tl (contents t) \<and>
      r = (case contents t of [] \<Rightarrow> None | x # _ \<Rightarrow> Some x)"
    and empty_iff: "invar t \<Longrightarrow> empty_op t \<longleftrightarrow> contents t = []"

text \<open>Clients of a transport: sending a list of payloads, receiving a number of them.\<close>

fun send_list :: "('p \<Rightarrow> 't \<Rightarrow> bool \<times> 't) \<Rightarrow> 'p list \<Rightarrow> 't \<Rightarrow> bool \<times> 't" where
  "send_list snd_op [] t = (True, t)"
| "send_list snd_op (x # xs) t =
     (case snd_op x t of (b, t') \<Rightarrow> if b then send_list snd_op xs t' else (False, t'))"

fun receive_n :: "('t \<Rightarrow> 'p option \<times> 't) \<Rightarrow> nat \<Rightarrow> 't \<Rightarrow> 'p option list \<times> 't" where
  "receive_n rcv_op 0 t = ([], t)"
| "receive_n rcv_op (Suc n) t =
     (case rcv_op t of (r, t') \<Rightarrow> case receive_n rcv_op n t' of (rs, t'') \<Rightarrow> (r # rs, t''))"

context fifo_channel begin

lemma send_list_appends:
  "invar t \<Longrightarrow> \<forall>x \<in> set xs. accepts x \<Longrightarrow> send_list snd_op xs t = (b, t') \<Longrightarrow>
     b \<and> invar t' \<and> contents t' = contents t @ xs"
proof (induction xs arbitrary: t)
  case (Cons x xs)
  obtain b1 t1 where t1: "snd_op x t = (b1, t1)" by fastforce
  from send_appends [OF Cons.prems(1) _ t1] Cons.prems(2)
  have "b1" "invar t1" "contents t1 = contents t @ [x]" by simp_all
  with Cons.IH [of t1] Cons.prems t1 show ?case by simp
qed simp

lemma receive_n_takes:
  "invar t \<Longrightarrow> n \<le> length (contents t) \<Longrightarrow> receive_n rcv_op n t = (rs, t') \<Longrightarrow>
     invar t' \<and> rs = map Some (take n (contents t)) \<and> contents t' = drop n (contents t)"
proof (induction n arbitrary: t rs t')
  case (Suc n)
  obtain r t1 where t1: "rcv_op t = (r, t1)" by fastforce
  obtain rs2 t2 where t2: "receive_n rcv_op n t1 = (rs2, t2)" by fastforce
  obtain x xs where c: "contents t = x # xs" using Suc.prems(2) by (cases "contents t") auto
  from receive_pops [OF Suc.prems(1) t1] c
  have 1: "invar t1" "contents t1 = xs" "r = Some x" by simp_all
  from Suc.IH [OF 1(1) _ t2] 1 c Suc.prems t1 t2 show ?case by simp
qed simp

lemma send_then_receive:
  assumes "invar t" "contents t = []" "\<forall>x \<in> set xs. accepts x"
    and "send_list snd_op xs t = (b, t1)" and "receive_n rcv_op (length xs) t1 = (rs, t2)"
  shows "b \<and> rs = map Some xs \<and> empty_op t2"
proof -
  from send_list_appends [OF assms(1,3,4)] assms(2)
  have s: "b" "invar t1" "contents t1 = xs" by simp_all
  from receive_n_takes [OF s(2) _ assms(5)] s(3) have r: "invar t2" "rs = map Some xs" "contents t2 = []"
    by simp_all
  with s(1) empty_iff [OF r(1)] show ?thesis by simp
qed

lemma receive_empty: "invar t \<Longrightarrow> contents t = [] \<Longrightarrow> fst (rcv_op t) = None"
  using receive_pops [of t "fst (rcv_op t)" "snd (rcv_op t)"] by simp

end

section \<open>In-memory transports\<close>

record in_memory_transport =
  imt_queue :: "message list"

definition imt_send :: "message \<Rightarrow> in_memory_transport \<Rightarrow> bool \<times> in_memory_transport" where
  "imt_send m t = (True, t\<lparr>imt_queue := imt_queue t @ [m]\<rparr>)"

definition imt_receive :: "in_memory_transport \<Rightarrow> message option \<times> in_memory_transport" where
  "imt_receive t =
     (case imt_queue t of [] \<Rightarrow> (None, t) | m # ms \<Rightarrow> (Some m, t\<lparr>imt_queue := ms\<rparr>))"

definition imt_empty :: "in_memory_transport \<Rightarrow> bool" where
  "imt_empty t \<longleftrightarrow> imt_queue t = []"

record in_memory_byte_transport =
  imbt_queue :: "bytes list"

definition imbt_send_bytes ::
    "bytes \<Rightarrow> in_memory_byte_transport \<Rightarrow> bool \<times> in_memory_byte_transport" where
  "imbt_send_bytes bs t = (True, t\<lparr>imbt_queue := imbt_queue t @ [bs]\<rparr>)"

definition imbt_receive_bytes ::
    "in_memory_byte_transport \<Rightarrow> bytes option \<times> in_memory_byte_transport" where
  "imbt_receive_bytes t =
     (case imbt_queue t of [] \<Rightarrow> (None, t) | bs # q \<Rightarrow> (Some bs, t\<lparr>imbt_queue := q\<rparr>))"

definition imbt_empty :: "in_memory_byte_transport \<Rightarrow> bool" where
  "imbt_empty t \<longleftrightarrow> imbt_queue t = []"

lemmas imt_defs = imt_send_def imt_receive_def imt_empty_def
lemmas imbt_defs = imbt_send_bytes_def imbt_receive_bytes_def imbt_empty_def

interpretation imt: fifo_channel imt_send imt_receive imt_empty imt_queue "\<lambda>_. True" "\<lambda>_. True"
  by unfold_locales (auto simp: imt_defs split: list.splits)

interpretation imbt: fifo_channel imbt_send_bytes imbt_receive_bytes imbt_empty imbt_queue
    "\<lambda>_. True" "\<lambda>_. True"
  by unfold_locales (auto simp: imbt_defs split: list.splits)

section \<open>MessageByteAdapter\<close>

record message_receive_result =
  mr_result :: result
  mr_message :: "message option"

definition send_message ::
    "(bytes \<Rightarrow> 't \<Rightarrow> bool \<times> 't) \<Rightarrow> message \<Rightarrow> 't \<Rightarrow> result \<times> 't" where
  "send_message send_bytes m t =
     (let packet = protocol_encode m;
          frame = frame_encode packet
      in case send_bytes frame t of (sent, t') \<Rightarrow>
           if \<not> sent
           then (result_failure Error_TransportError ''failed to send message frame'', t')
           else (result_success, t'))"

definition receive_message ::
    "('t \<Rightarrow> bytes option \<times> 't) \<Rightarrow> 't \<Rightarrow> message_receive_result \<times> 't" where
  "receive_message receive_bytes t =
     (case receive_bytes t of
        (None, t') \<Rightarrow> (\<lparr>mr_result = result_success, mr_message = None\<rparr>, t')
      | (Some frame_bytes, t') \<Rightarrow>
          let decoded_frame = frame_decode frame_bytes
          in if \<not> r_ok (fd_result decoded_frame)
             then (\<lparr>mr_result = fd_result decoded_frame, mr_message = None\<rparr>, t')
             else let decoded_message = protocol_decode (fd_payload decoded_frame)
               in if \<not> r_ok (dr_result decoded_message)
                  then (\<lparr>mr_result = dr_result decoded_message, mr_message = None\<rparr>, t')
                  else (\<lparr>mr_result = result_success,
                         mr_message = Some (dr_message decoded_message)\<rparr>, t'))"

definition adapter_empty :: "('t \<Rightarrow> bool) \<Rightarrow> 't \<Rightarrow> bool" where
  "adapter_empty byte_empty t = byte_empty t"

section \<open>FramedMessageTransport\<close>

definition framed_send ::
    "(bytes \<Rightarrow> 't \<Rightarrow> bool \<times> 't) \<Rightarrow> message \<Rightarrow> 't \<Rightarrow> bool \<times> 't" where
  "framed_send send_bytes m t =
     (case send_message send_bytes m t of (r, t') \<Rightarrow> (r_ok r, t'))"

definition framed_receive ::
    "('t \<Rightarrow> bytes option \<times> 't) \<Rightarrow> 't \<Rightarrow> message option \<times> 't" where
  "framed_receive receive_bytes t =
     (case receive_message receive_bytes t of (res, t') \<Rightarrow>
        if \<not> r_ok (mr_result res) then (None, t') else (mr_message res, t'))"

definition framed_empty :: "('t \<Rightarrow> bool) \<Rightarrow> 't \<Rightarrow> bool" where
  "framed_empty byte_empty t = adapter_empty byte_empty t"

section \<open>What travels over the wire\<close>

definition wire_encode :: "message \<Rightarrow> bytes" where
  "wire_encode m = frame_encode (protocol_encode m)"

definition wire_decode :: "bytes \<Rightarrow> message option" where
  "wire_decode bs =
     (let f = frame_decode bs; d = protocol_decode (fd_payload f)
      in if r_ok (fd_result f) \<and> r_ok (dr_result d) then Some (dr_message d) else None)"

text \<open>A message fits a frame when its packet is shorter than \<open>2 ^ 32\<close> bytes.\<close>

definition wire_fits :: "message \<Rightarrow> bool" where
  "wire_fits m \<longleftrightarrow> fits32 (protocol_encode m)"

lemma wire_fits_message: "wire_fits m \<Longrightarrow> message_fits m"
  by (simp add: wire_fits_def message_fits_def fits32_def length_protocol_encode)

lemma frame_round_trip:
  "fits32 p \<Longrightarrow> frame_decode (frame_encode p) = \<lparr>fd_result = result_success, fd_payload = p\<rparr>"
  using frame_decode_ok_iff [OF vec_ok_frame, of p p] by auto

lemma wire_round_trip: "wire_fits m \<Longrightarrow> wire_decode (wire_encode m) = Some m"
  using frame_round_trip [of "protocol_encode m"] protocol_round_trip [OF wire_fits_message, of m]
  by (simp add: wire_encode_def wire_decode_def wire_fits_def)

lemma framed_send_eq: "framed_send snd_op m t = snd_op (wire_encode m) t"
  by (auto simp: framed_send_def send_message_def wire_encode_def Let_def split: prod.splits)

lemma framed_receive_eq:
  "framed_receive rcv_op t =
     (case rcv_op t of (r, t') \<Rightarrow> (case r of None \<Rightarrow> None | Some bs \<Rightarrow> wire_decode bs, t'))"
  by (auto simp: framed_receive_def receive_message_def wire_decode_def Let_def
      split: prod.splits option.splits)

text \<open>
  A byte channel that carries every vector. Over it the framed transport is a channel of
  messages, as long as nothing but frames is in it.
\<close>

locale byte_channel = fifo_channel snd_op rcv_op empty_op contents invar accepts
  for snd_op :: "bytes \<Rightarrow> 't \<Rightarrow> bool \<times> 't" and rcv_op empty_op contents invar accepts +
  assumes accepts_frames: "wire_fits m \<Longrightarrow> accepts (wire_encode m)"
begin

lemma framed_channel:
  "fifo_channel (framed_send snd_op) (framed_receive rcv_op) (framed_empty empty_op)
     (\<lambda>t. map (the \<circ> wire_decode) (contents t))
     (\<lambda>t. invar t \<and> (\<forall>bs \<in> set (contents t). wire_decode bs \<noteq> None)) wire_fits"
proof
  fix t t' x b
  assume "invar t \<and> (\<forall>bs \<in> set (contents t). wire_decode bs \<noteq> None)" "wire_fits x"
    "framed_send snd_op x t = (b, t')"
  then show "b \<and> (invar t' \<and> (\<forall>bs \<in> set (contents t'). wire_decode bs \<noteq> None)) \<and>
      map (the \<circ> wire_decode) (contents t') = map (the \<circ> wire_decode) (contents t) @ [x]"
    using send_appends [of t "wire_encode x" b t'] accepts_frames [of x] wire_round_trip [of x]
    by (auto simp: framed_send_eq)
next
  fix t t' r
  assume h: "invar t \<and> (\<forall>bs \<in> set (contents t). wire_decode bs \<noteq> None)"
    "framed_receive rcv_op t = (r, t')"
  obtain r0 where r0: "rcv_op t = (r0, t')" "r = (case r0 of None \<Rightarrow> None | Some bs \<Rightarrow> wire_decode bs)"
    using h(2) by (auto simp: framed_receive_eq split: prod.splits)
  from receive_pops [OF _ r0(1)] h r0(2)
  show "(invar t' \<and> (\<forall>bs \<in> set (contents t'). wire_decode bs \<noteq> None)) \<and>
      map (the \<circ> wire_decode) (contents t') = tl (map (the \<circ> wire_decode) (contents t)) \<and>
      r = (case map (the \<circ> wire_decode) (contents t) of [] \<Rightarrow> None | x # _ \<Rightarrow> Some x)"
    by (cases "contents t") auto
next
  fix t
  assume "invar t \<and> (\<forall>bs \<in> set (contents t). wire_decode bs \<noteq> None)"
  then show "framed_empty empty_op t \<longleftrightarrow> map (the \<circ> wire_decode) (contents t) = []"
    using empty_iff [of t] by (simp add: framed_empty_def adapter_empty_def)
qed

end

sublocale byte_channel \<subseteq> framed: fifo_channel "framed_send snd_op" "framed_receive rcv_op"
    "framed_empty empty_op" "\<lambda>t. map (the \<circ> wire_decode) (contents t)"
    "\<lambda>t. invar t \<and> (\<forall>bs \<in> set (contents t). wire_decode bs \<noteq> None)" wire_fits
  by (rule framed_channel)

interpretation imbc: byte_channel imbt_send_bytes imbt_receive_bytes imbt_empty imbt_queue
    "\<lambda>_. True" "\<lambda>_. True"
  by unfold_locales simp

section \<open>Properties\<close>

lemma wire_decode_iff:
  assumes "vec_ok bs"
  shows "wire_decode bs = Some m \<longleftrightarrow>
    (\<exists>junk rest. message_fits m \<and> fits32 (protocol_encode m @ junk) \<and>
       bs = frame_encode (protocol_encode m @ junk) @ rest)"
proof
  assume w: "wire_decode bs = Some m"
  define p where "p = fd_payload (frame_decode bs)"
  from w have "r_ok (fd_result (frame_decode bs))" "r_ok (dr_result (protocol_decode p))"
    and m: "m = dr_message (protocol_decode p)"
    by (auto simp: wire_decode_def Let_def p_def split: if_splits)
  with frame_decode_ok_shape [of bs] protocol_decode_ok_shape [of p]
  have f: "frame_decode bs = \<lparr>fd_result = result_success, fd_payload = p\<rparr>"
    and d: "protocol_decode p = \<lparr>dr_result = result_success, dr_message = m\<rparr>"
    by (simp_all add: p_def)
  from f obtain rest where r: "fits32 p" "bs = frame_encode p @ rest"
    unfolding frame_decode_ok_iff [OF assms] by blast
  then have vp: "vec_ok p" by (simp add: fits32_def vec_ok_def)
  from d obtain junk where "message_fits m" "p = protocol_encode m @ junk"
    unfolding protocol_decode_ok_iff [OF vp] by blast
  with r show "\<exists>junk rest. message_fits m \<and> fits32 (protocol_encode m @ junk) \<and>
       bs = frame_encode (protocol_encode m @ junk) @ rest" by blast
next
  assume "\<exists>junk rest. message_fits m \<and> fits32 (protocol_encode m @ junk) \<and>
       bs = frame_encode (protocol_encode m @ junk) @ rest"
  then obtain junk rest where h: "message_fits m" "fits32 (protocol_encode m @ junk)"
    "bs = frame_encode (protocol_encode m @ junk) @ rest" by blast
  then have "frame_decode bs = \<lparr>fd_result = result_success, fd_payload = protocol_encode m @ junk\<rparr>"
    unfolding frame_decode_ok_iff [OF assms] by blast
  moreover have vp: "vec_ok (protocol_encode m @ junk)"
    using h(2) by (simp add: fits32_def vec_ok_def)
  have "protocol_decode (protocol_encode m @ junk) =
      \<lparr>dr_result = result_success, dr_message = m\<rparr>"
    using h(1) unfolding protocol_decode_ok_iff [OF vp] by blast
  ultimately show "wire_decode bs = Some m" by (simp add: wire_decode_def)
qed

text \<open>C17: Messages whose packets are shorter than \<open>2 ^ 32\<close> bytes, sent through a \<open>FramedMessageTransport\<close> over an empty
  \<open>InMemoryByteTransport\<close> are all received, unchanged and in order, and leave it empty.\<close>

theorem framed_transport_fifo:
  assumes "\<forall>m \<in> set ms. wire_fits m"
    and "send_list (framed_send imbt_send_bytes) ms \<lparr>imbt_queue = []\<rparr> = (sent, t1)"
    and "receive_n (framed_receive imbt_receive_bytes) (length ms) t1 = (received, t2)"
  shows "sent \<and> received = map Some ms \<and> framed_empty imbt_empty t2"
  by (rule imbc.framed.send_then_receive [OF _ _ assms]) simp_all

lemma sample_message_wire_fits: "wire_fits sample_message"
  by (simp add: wire_fits_def fits32_def length_protocol_encode sample_message_def
      text_event_def event_text_def)

theorem framed_transport_fifo_witness:
  "\<exists>sent t1 received t2.
     send_list (framed_send imbt_send_bytes) [sample_message, sample_message] \<lparr>imbt_queue = []\<rparr> =
       (sent, t1) \<and>
     receive_n (framed_receive imbt_receive_bytes) 2 t1 = (received, t2) \<and>
     sent \<and> received = [Some sample_message, Some sample_message] \<and> framed_empty imbt_empty t2"
proof -
  let ?ms = "[sample_message, sample_message]"
  obtain sent t1 where 1: "send_list (framed_send imbt_send_bytes) ?ms \<lparr>imbt_queue = []\<rparr> = (sent, t1)"
    by (metis surj_pair)
  obtain received t2 where 2: "receive_n (framed_receive imbt_receive_bytes) (length ?ms) t1 = (received, t2)"
    by (metis surj_pair)
  have "\<forall>m \<in> set ?ms. wire_fits m" using sample_message_wire_fits by simp
  from framed_transport_fifo [OF this 1 2]
  have r: "sent \<and> received = [Some sample_message, Some sample_message] \<and> framed_empty imbt_empty t2"
    by (simp only: list.map)
  have "length ?ms = 2" by simp
  with 1 2 r show ?thesis by metis
qed

text \<open>Whatever bytes arrive, \<open>FramedMessageTransport::receive\<close> over an in-memory byte
  transport returns a message only for a vector that begins with a frame whose payload begins
  with that message's encoding; any other vector is consumed and gives no message.\<close>

theorem framed_receive_only_encodings:
  assumes "vec_ok bs"
  shows "(fst (framed_receive imbt_receive_bytes \<lparr>imbt_queue = bs # q\<rparr>) = Some m \<longleftrightarrow>
      (\<exists>junk rest. message_fits m \<and> fits32 (protocol_encode m @ junk) \<and>
         bs = frame_encode (protocol_encode m @ junk) @ rest)) \<and>
    snd (framed_receive imbt_receive_bytes \<lparr>imbt_queue = bs # q\<rparr>) = \<lparr>imbt_queue = q\<rparr>"
  using wire_decode_iff [OF assms, of m]
  by (simp_all add: framed_receive_eq imbt_receive_bytes_def)

theorem framed_receive_only_encodings_witness:
  "fst (framed_receive imbt_receive_bytes \<lparr>imbt_queue = [wire_encode sample_message @ [0]]\<rparr>) =
     Some sample_message"
proof -
  have "vec_ok (wire_encode sample_message @ [0])"
    by (simp add: vec_ok_def wire_encode_def length_protocol_encode sample_message_def
        text_event_def event_text_def)
  moreover have "\<exists>junk rest. message_fits sample_message \<and> fits32 (protocol_encode sample_message @ junk) \<and>
      wire_encode sample_message @ [0] = frame_encode (protocol_encode sample_message @ junk) @ rest"
    using sample_message_fits sample_message_wire_fits
    by (intro exI [of _ "[]"] exI [of _ "[0]"]) (simp add: wire_encode_def wire_fits_def)
  ultimately show ?thesis
    using framed_receive_only_encodings [of "wire_encode sample_message @ [0]" "[]" sample_message]
    by blast
qed

end
