(* ===== verification/Runtime.thy ===== *)
theory Runtime
  imports Transport "HOL-Library.AList" "HOL-Library.Multiset"
begin

text \<open>
  \<open>AgentRuntime\<close> of \<open>core/src/runtime.cpp\<close>. The agent objects are handles of type \<open>'a\<close>; the
  virtual functions of class \<open>Agent\<close> are an \<open>agent_class\<close>, whose callbacks transform the
  whole runtime, so that an agent that publishes or registers from a callback is in the
  model. The transport is one state component with its three virtual operations as
  parameters. \<open>rt_world\<close> is everything else the callbacks change, \<open>rt_cerr\<close> what was
  written to standard error.

  \<open>agents_\<close> is a hash map: \<open>rt_agents\<close> lists its entries in iteration order, which the
  standard leaves open; an insertion may rearrange it (parameter \<open>rehash\<close>, a permutation).
  Iterating while a callback changes the map is undefined in C++; the loops here run over
  the entries present at their start.
\<close>

section \<open>State\<close>

record ('a, 'r) agent_class =
  ag_name :: "'a \<Rightarrow> string"
  ag_on_start :: "'a \<Rightarrow> 'r \<Rightarrow> 'r"
  ag_on_message :: "'a \<Rightarrow> message \<Rightarrow> 'r \<Rightarrow> 'r"
  ag_on_stop :: "'a \<Rightarrow> 'r \<Rightarrow> 'r"

record ('a, 't, 'w) agent_runtime =
  rt_agents :: "(string \<times> 'a) list"
  rt_transport :: 't
  rt_running :: bool
  rt_next_message_id :: message_id
  rt_world :: 'w
  rt_cerr :: "string list"

type_synonym ('a, 't, 'w) agent_ops = "('a, ('a, 't, 'w) agent_runtime) agent_class"

definition new_runtime :: "'t \<Rightarrow> 'w \<Rightarrow> ('a, 't, 'w) agent_runtime" where
  "new_runtime t w = \<lparr>rt_agents = [], rt_transport = t, rt_running = False,
     rt_next_message_id = 1, rt_world = w, rt_cerr = []\<rparr>"

section \<open>Operations\<close>

definition has_agent :: "string \<Rightarrow> ('a, 't, 'w) agent_runtime \<Rightarrow> bool" where
  "has_agent name r \<longleftrightarrow> map_of (rt_agents r) name \<noteq> None"

definition agent_count :: "('a, 't, 'w) agent_runtime \<Rightarrow> nat" where
  "agent_count r = length (rt_agents r)"

definition is_running :: "('a, 't, 'w) agent_runtime \<Rightarrow> bool" where
  "is_running r = rt_running r"

text \<open>A null \<open>unique_ptr\<close> is \<open>None\<close>.\<close>

definition register_agent ::
    "('a, 't, 'w) agent_ops \<Rightarrow> ((string \<times> 'a) list \<Rightarrow> (string \<times> 'a) list) \<Rightarrow> 'a option \<Rightarrow>
     ('a, 't, 'w) agent_runtime \<Rightarrow> result \<times> ('a, 't, 'w) agent_runtime" where
  "register_agent ac rehash agent r =
     (case agent of
        None \<Rightarrow> (result_failure Error_InvalidArgument ''cannot register null agent'', r)
      | Some a \<Rightarrow>
          let agent_name = ag_name ac a
          in if agent_name = []
             then (result_failure Error_InvalidArgument ''agent name cannot be empty'', r)
             else if has_agent agent_name r
             then (result_failure Error_AgentAlreadyExists
                     (''agent already exists: '' @ agent_name), r)
             else (result_success, r\<lparr>rt_agents := rehash ((agent_name, a) # rt_agents r)\<rparr>))"

definition unregister_agent ::
    "('a, 't, 'w) agent_ops \<Rightarrow> string \<Rightarrow>
     ('a, 't, 'w) agent_runtime \<Rightarrow> result \<times> ('a, 't, 'w) agent_runtime" where
  "unregister_agent ac name r =
     (case map_of (rt_agents r) name of
        None \<Rightarrow> (result_failure Error_AgentNotFound (''agent not found: '' @ name), r)
      | Some a \<Rightarrow>
          let r = (if rt_running r then ag_on_stop ac a r else r)
          in (result_success, r\<lparr>rt_agents := AList.delete name (rt_agents r)\<rparr>))"

definition rt_send ::
    "(message \<Rightarrow> 't \<Rightarrow> bool \<times> 't) \<Rightarrow> message \<Rightarrow>
     ('a, 't, 'w) agent_runtime \<Rightarrow> result \<times> ('a, 't, 'w) agent_runtime" where
  "rt_send snd_op m r =
     (case snd_op m (rt_transport r) of (sent, t) \<Rightarrow>
        let r = r\<lparr>rt_transport := t\<rparr>
        in if \<not> sent then (result_failure Error_TransportError ''failed to send message'', r)
           else (result_success, r))"

definition next_message_id ::
    "('a, 't, 'w) agent_runtime \<Rightarrow> message_id \<times> ('a, 't, 'w) agent_runtime" where
  "next_message_id r = (rt_next_message_id r, r\<lparr>rt_next_message_id := rt_next_message_id r + 1\<rparr>)"

definition publish_event ::
    "(message \<Rightarrow> 't \<Rightarrow> bool \<times> 't) \<Rightarrow> string \<Rightarrow> string \<Rightarrow> event \<Rightarrow>
     ('a, 't, 'w) agent_runtime \<Rightarrow> result \<times> ('a, 't, 'w) agent_runtime" where
  "publish_event snd_op source target ev r =
     (case next_message_id r of (i, r) \<Rightarrow>
        rt_send snd_op (event_message i source target ev) r)"

fun broadcast_loop ::
    "(message \<Rightarrow> 't \<Rightarrow> bool \<times> 't) \<Rightarrow> string \<Rightarrow> event \<Rightarrow> (string \<times> 'a) list \<Rightarrow>
     ('a, 't, 'w) agent_runtime \<Rightarrow> result \<times> ('a, 't, 'w) agent_runtime" where
  "broadcast_loop snd_op source ev [] r = (result_success, r)"
| "broadcast_loop snd_op source ev (pair # pairs) r =
     (case next_message_id r of (i, r) \<Rightarrow>
        case rt_send snd_op (event_message i source (fst pair) ev) r of (res, r) \<Rightarrow>
          if \<not> r_ok res then (res, r) else broadcast_loop snd_op source ev pairs r)"

definition broadcast_event ::
    "(message \<Rightarrow> 't \<Rightarrow> bool \<times> 't) \<Rightarrow> string \<Rightarrow> event \<Rightarrow>
     ('a, 't, 'w) agent_runtime \<Rightarrow> result \<times> ('a, 't, 'w) agent_runtime" where
  "broadcast_event snd_op source ev r = broadcast_loop snd_op source ev (rt_agents r) r"

definition start ::
    "('a, 't, 'w) agent_ops \<Rightarrow> ('a, 't, 'w) agent_runtime \<Rightarrow> ('a, 't, 'w) agent_runtime" where
  "start ac r =
     (if rt_running r then r
      else fold (\<lambda>pair r. ag_on_start ac (snd pair) r) (rt_agents r) (r\<lparr>rt_running := True\<rparr>))"

definition stop ::
    "('a, 't, 'w) agent_ops \<Rightarrow> ('a, 't, 'w) agent_runtime \<Rightarrow> ('a, 't, 'w) agent_runtime" where
  "stop ac r =
     (if \<not> rt_running r then r
      else (fold (\<lambda>pair r. ag_on_stop ac (snd pair) r) (rt_agents r) r)\<lparr>rt_running := False\<rparr>)"

definition dispatch ::
    "('a, 't, 'w) agent_ops \<Rightarrow> message \<Rightarrow>
     ('a, 't, 'w) agent_runtime \<Rightarrow> result \<times> ('a, 't, 'w) agent_runtime" where
  "dispatch ac m r =
     (case map_of (rt_agents r) (m_target m) of
        None \<Rightarrow> (result_failure Error_AgentNotFound (''unknown target agent: '' @ m_target m), r)
      | Some a \<Rightarrow> (result_success, ag_on_message ac a m r))"

definition run_once ::
    "('a, 't, 'w) agent_ops \<Rightarrow> ('t \<Rightarrow> message option \<times> 't) \<Rightarrow>
     ('a, 't, 'w) agent_runtime \<Rightarrow> result \<times> ('a, 't, 'w) agent_runtime" where
  "run_once ac rcv_op r =
     (if \<not> rt_running r
      then (result_failure Error_RuntimeNotRunning ''runtime is not running'', r)
      else case rcv_op (rt_transport r) of (message, t) \<Rightarrow>
        let r = r\<lparr>rt_transport := t\<rparr>
        in case message of None \<Rightarrow> (result_success, r) | Some m \<Rightarrow> dispatch ac m r)"

text \<open>The loop of \<open>drain\<close> need not end: \<open>None\<close> is a drain that does not return.\<close>

partial_function (option) drain ::
    "('a, 't, 'w) agent_ops \<Rightarrow> ('t \<Rightarrow> message option \<times> 't) \<Rightarrow> ('t \<Rightarrow> bool) \<Rightarrow>
     ('a, 't, 'w) agent_runtime \<Rightarrow> ('a, 't, 'w) agent_runtime option" where
  "drain ac rcv_op empty_op r =
     (if empty_op (rt_transport r) then Some r
      else case run_once ac rcv_op r of (res, r) \<Rightarrow>
        if \<not> r_ok res
        then Some (r\<lparr>rt_cerr := rt_cerr r @ [''[Galculus] runtime error: '' @ r_message res]\<rparr>)
        else drain ac rcv_op empty_op r)"

section \<open>Agents that act on the world only\<close>

text \<open>
  Agents whose callbacks change their own state or the outside world, and not the runtime
  they run in; all agents of the tests and the examples are of this kind.
\<close>

definition world_agents ::
    "('a, 't, 'w) agent_ops \<Rightarrow> ('a \<Rightarrow> 'w \<Rightarrow> 'w) \<Rightarrow> ('a \<Rightarrow> message \<Rightarrow> 'w \<Rightarrow> 'w) \<Rightarrow>
     ('a \<Rightarrow> 'w \<Rightarrow> 'w) \<Rightarrow> bool" where
  "world_agents ac hstart hmsg hstop \<longleftrightarrow>
     (\<forall>a r. ag_on_start ac a r = r\<lparr>rt_world := hstart a (rt_world r)\<rparr>) \<and>
     (\<forall>a m r. ag_on_message ac a m r = r\<lparr>rt_world := hmsg a m (rt_world r)\<rparr>) \<and>
     (\<forall>a r. ag_on_stop ac a r = r\<lparr>rt_world := hstop a (rt_world r)\<rparr>)"

lemma world_agentsD:
  assumes "world_agents ac hstart hmsg hstop"
  shows "ag_on_start ac a r = r\<lparr>rt_world := hstart a (rt_world r)\<rparr>"
    "ag_on_message ac a m r = r\<lparr>rt_world := hmsg a m (rt_world r)\<rparr>"
    "ag_on_stop ac a r = r\<lparr>rt_world := hstop a (rt_world r)\<rparr>"
  using assms by (simp_all add: world_agents_def)

lemma fold_world:
  assumes "\<And>a r. f a r = r\<lparr>rt_world := h a (rt_world r)\<rparr>"
  shows "fold (\<lambda>pair. f (snd pair)) ps r =
    r\<lparr>rt_world := fold (\<lambda>pair. h (snd pair)) ps (rt_world r)\<rparr>"
  by (induction ps arbitrary: r) (simp_all add: assms)

lemma start_world:
  "world_agents ac hstart hmsg hstop \<Longrightarrow> start ac r =
     (if rt_running r then r
      else r\<lparr>rt_running := True,
             rt_world := fold (\<lambda>pair. hstart (snd pair)) (rt_agents r) (rt_world r)\<rparr>)"
  by (simp add: start_def fold_world [of "ag_on_start ac" hstart] world_agentsD)

lemma stop_world:
  "world_agents ac hstart hmsg hstop \<Longrightarrow> stop ac r =
     (if rt_running r
      then r\<lparr>rt_running := False,
             rt_world := fold (\<lambda>pair. hstop (snd pair)) (rt_agents r) (rt_world r)\<rparr>
      else r)"
  by (simp add: stop_def fold_world [of "ag_on_stop ac" hstop] world_agentsD)

section \<open>The runtime over a message channel\<close>

definition deliver ::
    "('a \<Rightarrow> message \<Rightarrow> 'w \<Rightarrow> 'w) \<Rightarrow> (string \<times> 'a) list \<Rightarrow> message \<Rightarrow> 'w \<Rightarrow> 'w" where
  "deliver hmsg agents m w = hmsg (the (map_of agents (m_target m))) m w"

definition addressable :: "(string \<times> 'a) list \<Rightarrow> message \<Rightarrow> bool" where
  "addressable agents m \<longleftrightarrow> map_of agents (m_target m) \<noteq> None"

text \<open>The messages that \<open>broadcast_event\<close> is to send, one per agent, with consecutive ids.\<close>

fun broadcast_messages ::
    "message_id \<Rightarrow> string \<Rightarrow> event \<Rightarrow> string list \<Rightarrow> message list" where
  "broadcast_messages i source ev [] = []"
| "broadcast_messages i source ev (n # ns) =
     event_message i source n ev # broadcast_messages (i + 1) source ev ns"

locale message_channel = fifo_channel snd_op rcv_op empty_op contents invar accepts
  for snd_op :: "message \<Rightarrow> 't \<Rightarrow> bool \<times> 't" and rcv_op empty_op contents invar accepts
begin

lemma run_once_empty:
  assumes "invar (rt_transport r)" "rt_running r" "contents (rt_transport r) = []"
    "run_once ac rcv_op r = (res, r')"
  shows "res = result_success \<and> (\<exists>t. r' = r\<lparr>rt_transport := t\<rparr> \<and> invar t \<and> contents t = [])"
proof -
  obtain x t where t: "rcv_op (rt_transport r) = (x, t)" by fastforce
  from receive_pops [OF assms(1) t] assms(3) have "invar t" "contents t = []" "x = None" by simp_all
  with assms t show ?thesis by (auto simp: run_once_def)
qed

lemma run_once_next:
  assumes "invar (rt_transport r)" "rt_running r" "contents (rt_transport r) = m # ms"
  shows "\<exists>t. invar t \<and> contents t = ms \<and> run_once ac rcv_op r = dispatch ac m (r\<lparr>rt_transport := t\<rparr>)"
proof -
  obtain x t where t: "rcv_op (rt_transport r) = (x, t)" by fastforce
  from receive_pops [OF assms(1) t] assms(3) have "invar t" "contents t = ms" "x = Some m" by simp_all
  with assms t show ?thesis by (auto simp: run_once_def)
qed

lemma drain_delivers:
  assumes w: "world_agents ac hstart hmsg hstop"
    and "invar (rt_transport r)" "rt_running r" "contents (rt_transport r) = ms"
  shows "\<exists>t. invar t \<and> contents t = tl (dropWhile (addressable (rt_agents r)) ms) \<and>
    drain ac rcv_op empty_op r = Some (r\<lparr>rt_transport := t,
      rt_world := fold (deliver hmsg (rt_agents r))
                    (takeWhile (addressable (rt_agents r)) ms) (rt_world r),
      rt_cerr := rt_cerr r @
        (case dropWhile (addressable (rt_agents r)) ms of
           [] \<Rightarrow> []
         | m # _ \<Rightarrow> [''[Galculus] runtime error: unknown target agent: '' @ m_target m])\<rparr>)"
  using assms(2-)
proof (induction ms arbitrary: r)
  case Nil
  then have "empty_op (rt_transport r)" by (simp add: empty_iff)
  with Nil show ?case by (intro exI [of _ "rt_transport r"]) (simp add: drain.simps)
next
  case (Cons m ms)
  then have ne: "\<not> empty_op (rt_transport r)" by (simp add: empty_iff)
  obtain t where t: "invar t" "contents t = ms"
    "run_once ac rcv_op r = dispatch ac m (r\<lparr>rt_transport := t\<rparr>)"
    using run_once_next [OF Cons.prems] by blast
  show ?case
  proof (cases "map_of (rt_agents r) (m_target m)")
    case None
    with ne t show ?thesis
      by (intro exI [of _ t]) (simp add: drain.simps [of ac rcv_op empty_op r] dispatch_def addressable_def)
  next
    case (Some a)
    let ?r = "r\<lparr>rt_transport := t, rt_world := hmsg a m (rt_world r)\<rparr>"
    from Some ne t w have "drain ac rcv_op empty_op r = drain ac rcv_op empty_op ?r"
      by (simp add: drain.simps [of ac rcv_op empty_op r] dispatch_def world_agentsD)
    with Cons.IH [of ?r] Cons.prems t Some show ?thesis
      by (simp add: addressable_def [of _ m] deliver_def [of _ _ m])
  qed
qed

lemma rt_send_appends:
  assumes "invar (rt_transport r)" "accepts m"
  shows "\<exists>t. invar t \<and> contents t = contents (rt_transport r) @ [m] \<and>
    rt_send snd_op m r = (result_success, r\<lparr>rt_transport := t\<rparr>)"
proof -
  obtain b t where t: "snd_op m (rt_transport r) = (b, t)" by fastforce
  from send_appends [OF assms t] t show ?thesis by (auto simp: rt_send_def)
qed

lemma broadcast_sends:
  assumes "invar (rt_transport r)"
    and "\<forall>m \<in> set (broadcast_messages (rt_next_message_id r) source ev (map fst ps)). accepts m"
  shows "\<exists>t. invar t \<and>
    contents t = contents (rt_transport r) @
      broadcast_messages (rt_next_message_id r) source ev (map fst ps) \<and>
    broadcast_loop snd_op source ev ps r = (result_success,
      r\<lparr>rt_transport := t, rt_next_message_id := rt_next_message_id r + of_nat (length ps)\<rparr>)"
  using assms
proof (induction ps arbitrary: r)
  case Nil
  then show ?case by (intro exI [of _ "rt_transport r"]) simp
next
  case (Cons p ps)
  let ?r = "r\<lparr>rt_next_message_id := rt_next_message_id r + 1\<rparr>"
  obtain t where t: "invar t"
    "contents t = contents (rt_transport r) @ [event_message (rt_next_message_id r) source (fst p) ev]"
    "rt_send snd_op (event_message (rt_next_message_id r) source (fst p) ev) ?r =
       (result_success, ?r\<lparr>rt_transport := t\<rparr>)"
    using rt_send_appends [of ?r "event_message (rt_next_message_id r) source (fst p) ev"] Cons.prems
    by auto
  with Cons.IH [of "?r\<lparr>rt_transport := t\<rparr>"] Cons.prems show ?case
    by (simp add: next_message_id_def ac_simps)
qed

end

interpretation rt_imt: message_channel imt_send imt_receive imt_empty imt_queue "\<lambda>_. True" "\<lambda>_. True"
  by unfold_locales

interpretation rt_framed: message_channel "framed_send imbt_send_bytes"
    "framed_receive imbt_receive_bytes" "framed_empty imbt_empty"
    "\<lambda>t. map (the \<circ> wire_decode) (imbt_queue t)"
    "\<lambda>t. True \<and> (\<forall>bs \<in> set (imbt_queue t). wire_decode bs \<noteq> None)" wire_fits
  by unfold_locales

section \<open>Agents that use the runtime they run in\<close>

text \<open>
  What a callback of an agent may do besides changing the outside world: publish and broadcast,
  from \<open>on_message\<close> also register an agent and unregister another one. (From \<open>on_start\<close> and
  \<open>on_stop\<close> the last two would change the map during an iteration over it, and an agent that
  unregisters itself destroys the object whose method is running.)
\<close>

inductive sending_step ::
    "('a, in_memory_transport, 'w) agent_runtime \<Rightarrow> ('a, in_memory_transport, 'w) agent_runtime \<Rightarrow> bool" where
  World: "sending_step r (r\<lparr>rt_world := w\<rparr>)"
| Send_Event: "publish_event imt_send source target ev r = (res, r') \<Longrightarrow> sending_step r r'"
| Send_To_All: "broadcast_event imt_send source ev r = (res, r') \<Longrightarrow> sending_step r r'"

inductive callback_step ::
    "('a, in_memory_transport, 'w) agent_ops \<Rightarrow> 'a \<Rightarrow>
     ('a, in_memory_transport, 'w) agent_runtime \<Rightarrow> ('a, in_memory_transport, 'w) agent_runtime \<Rightarrow> bool"
  for ac self where
  Sends: "sending_step r r' \<Longrightarrow> callback_step ac self r r'"
| Recruit: "\<forall>xs. mset (rehash xs) = mset xs \<Longrightarrow> register_agent ac rehash agent r = (res, r') \<Longrightarrow>
    callback_step ac self r r'"
| Dismiss: "name \<noteq> ag_name ac self \<Longrightarrow> unregister_agent ac name r = (res, r') \<Longrightarrow> callback_step ac self r r'"

definition reentrant_agents :: "('a, in_memory_transport, 'w) agent_ops \<Rightarrow> bool" where
  "reentrant_agents ac \<longleftrightarrow>
     (\<forall>a r. sending_step\<^sup>*\<^sup>* r (ag_on_start ac a r)) \<and>
     (\<forall>a m r. (callback_step ac a)\<^sup>*\<^sup>* r (ag_on_message ac a m r)) \<and>
     (\<forall>a r. sending_step\<^sup>*\<^sup>* r (ag_on_stop ac a r))"

lemma world_agents_reentrant: "world_agents ac hstart hmsg hstop \<Longrightarrow> reentrant_agents ac"
  by (auto simp: reentrant_agents_def world_agentsD intro: World Sends)

section \<open>Reachable states over the in-memory transport\<close>

text \<open>
  The calls a program can make on a runtime with an \<open>InMemoryTransport\<close>. \<open>send\<close> with a
  message of the caller's own is left out: only \<open>publish_event\<close> and \<open>broadcast_event\<close> number
  their messages.
\<close>

inductive runtime_step ::
    "('a, in_memory_transport, 'w) agent_ops \<Rightarrow> ('a, in_memory_transport, 'w) agent_runtime \<Rightarrow>
     ('a, in_memory_transport, 'w) agent_runtime \<Rightarrow> bool" for ac where
  Register: "\<forall>xs. mset (rehash xs) = mset xs \<Longrightarrow> register_agent ac rehash agent r = (res, r') \<Longrightarrow>
    runtime_step ac r r'"
| Unregister: "unregister_agent ac name r = (res, r') \<Longrightarrow> runtime_step ac r r'"
| Publish: "publish_event imt_send source target ev r = (res, r') \<Longrightarrow> runtime_step ac r r'"
| Broadcast: "broadcast_event imt_send source ev r = (res, r') \<Longrightarrow> runtime_step ac r r'"
| Start: "runtime_step ac r (start ac r)"
| Stop: "runtime_step ac r (stop ac r)"
| RunOnce: "run_once ac imt_receive r = (res, r') \<Longrightarrow> runtime_step ac r r'"
| Drain: "drain ac imt_receive imt_empty r = Some r' \<Longrightarrow> runtime_step ac r r'"

inductive_cases runtime_stepE: "runtime_step ac r r'"

definition registry_ok :: "('a, 'r) agent_class \<Rightarrow> (string \<times> 'a) list \<Rightarrow> bool" where
  "registry_ok ac agents \<longleftrightarrow> distinct (map fst agents) \<and>
     (\<forall>p \<in> set agents. fst p \<noteq> [] \<and> ag_name ac (snd p) = fst p)"

text \<open>The \<open>n\<close> ids handed out last, in order, when the next one is \<open>i\<close>.\<close>

fun ids_before :: "message_id \<Rightarrow> nat \<Rightarrow> message_id list" where
  "ids_before i 0 = []"
| "ids_before i (Suc n) = (i - of_nat (Suc n)) # ids_before i n"

definition queue_numbered :: "('a, in_memory_transport, 'w) agent_runtime \<Rightarrow> bool" where
  "queue_numbered r \<longleftrightarrow> map m_id (imt_queue (rt_transport r)) =
     ids_before (rt_next_message_id r) (length (imt_queue (rt_transport r)))"

lemma length_ids_before [simp]: "length (ids_before i n) = n"
  by (induction n) simp_all

lemma ids_before_snoc: "ids_before (i + 1) (Suc n) = ids_before i n @ [i]"
  by (induction n) simp_all

lemma ids_before_nth: "k < n \<Longrightarrow> ids_before i n ! k = i - of_nat (n - k)"
proof (induction n arbitrary: k)
  case (Suc n)
  then show ?case by (cases k) simp_all
qed simp

lemma ids_before_distinct:
  assumes "n \<le> 18446744073709551616"
  shows "distinct (ids_before i n)"
proof -
  have "ids_before i n ! j \<noteq> ids_before i n ! k" if "j < k" "k < n" for j k
  proof
    assume "ids_before i n ! j = ids_before i n ! k"
    then have "(of_nat (n - j) :: u64) = of_nat (n - k)" using that by (simp add: ids_before_nth)
    then have "(n - j) mod 18446744073709551616 = (n - k) mod 18446744073709551616"
      by (simp add: word_unat_eq_iff unat_of_nat)
    moreover have "(n - k) mod 18446744073709551616 = n - k" using that assms by (intro mod_less) simp
    moreover have "(n - j) mod 18446744073709551616 = (if n - j = 18446744073709551616 then 0 else n - j)"
      using that assms by auto
    ultimately show False using that by (auto split: if_splits)
  qed
  then show ?thesis
    by (simp add: distinct_conv_nth) (metis linorder_neqE_nat)
qed

lemma broadcast_messages_ids:
  "map m_id q = ids_before i (length q) \<Longrightarrow>
     map m_id (q @ broadcast_messages i source ev ns) =
       ids_before (i + of_nat (length ns)) (length q + length ns)"
proof (induction ns arbitrary: q i)
  case (Cons n ns)
  have "map m_id (q @ [event_message i source n ev]) = ids_before (i + 1) (length (q @ [event_message i source n ev]))"
    using Cons.prems by (simp add: ids_before_snoc [simplified] event_message_def)
  from Cons.IH [OF this] show ?case by (simp add: ac_simps)
qed simp

lemma length_broadcast_messages [simp]: "length (broadcast_messages i source ev ns) = length ns"
  by (induction ns arbitrary: i) simp_all

lemma registry_ok_Nil [simp]: "registry_ok ac []"
  by (simp add: registry_ok_def)

lemma registry_ok_delete:
  assumes "registry_ok ac ps"
  shows "registry_ok ac (AList.delete n ps)"
proof -
  have "set (AList.delete n ps) \<subseteq> set ps" by (auto simp: AList.delete_eq)
  with assms show ?thesis
    unfolding registry_ok_def by (auto simp: AList.distinct_delete)
qed

lemma registry_ok_insert:
  assumes "registry_ok ac ps" "map_of ps (ag_name ac a) = None" "ag_name ac a \<noteq> []"
    and "mset qs = mset ((ag_name ac a, a) # ps)"
  shows "registry_ok ac qs"
proof -
  have "set qs = insert (ag_name ac a, a) (set ps)"
    using mset_eq_setD [OF assms(4)] by simp
  moreover have "distinct (map fst qs) \<longleftrightarrow> distinct (map fst ((ag_name ac a, a) # ps))"
    using assms(4) by (metis mset_map mset_eq_imp_distinct_iff)
  ultimately show ?thesis using assms(1-3) by (auto simp: registry_ok_def map_of_eq_None_iff)
qed

lemma registry_ok_register:
  assumes "\<forall>xs. mset (rehash xs) = mset xs" "registry_ok ac (rt_agents r)"
    and "register_agent ac rehash agent r = (res, r')"
  shows "registry_ok ac (rt_agents r') \<and> rt_transport r' = rt_transport r \<and>
    rt_next_message_id r' = rt_next_message_id r"
proof (cases "r_ok res")
  case True
  with assms(3) obtain a where a: "agent = Some a" "ag_name ac a \<noteq> []"
    "map_of (rt_agents r) (ag_name ac a) = None"
    "r' = r\<lparr>rt_agents := rehash ((ag_name ac a, a) # rt_agents r)\<rparr>"
    by (auto simp: register_agent_def has_agent_def Let_def split: option.split_asm if_split_asm)
  have "mset (rehash ((ag_name ac a, a) # rt_agents r)) = mset ((ag_name ac a, a) # rt_agents r)"
    using assms(1) by blast
  from registry_ok_insert [OF assms(2) a(3) a(2) this] a(4) show ?thesis by simp
next
  case False
  with assms(3) have "r' = r"
    by (auto simp: register_agent_def Let_def split: option.split_asm if_split_asm)
  with assms(2) show ?thesis by simp
qed

lemma queue_numbered_send:
  assumes "queue_numbered r"
  shows "queue_numbered (snd (broadcast_loop imt_send source ev ps r))"
proof -
  obtain t where t: "imt_queue t = imt_queue (rt_transport r) @
      broadcast_messages (rt_next_message_id r) source ev (map fst ps)"
    "broadcast_loop imt_send source ev ps r = (result_success,
      r\<lparr>rt_transport := t, rt_next_message_id := rt_next_message_id r + of_nat (length ps)\<rparr>)"
    using rt_imt.broadcast_sends [of r source ev ps] by auto
  from broadcast_messages_ids [of "imt_queue (rt_transport r)" "rt_next_message_id r" source ev "map fst ps"]
  show ?thesis using assms t by (simp add: queue_numbered_def)
qed

lemma publish_as_broadcast:
  "publish_event imt_send source target ev r = broadcast_loop imt_send source ev [(target, a)] r"
  by (simp add: publish_event_def next_message_id_def rt_send_def imt_send_def)

lemma broadcast_loop_agents:
  "rt_agents (snd (broadcast_loop imt_send source ev ps r)) = rt_agents r"
  using rt_imt.broadcast_sends [of r source ev ps] by auto

lemma ids_before_drop: "map m_id q = ids_before i (length q) \<Longrightarrow>
    map m_id (drop k q) = ids_before i (length (drop k q))"
proof (induction q arbitrary: k)
  case (Cons m q)
  then show ?case by (cases k) simp_all
qed simp

lemma queue_numbered_dropped:
  assumes "queue_numbered r" "rt_next_message_id r' = rt_next_message_id r"
    "imt_queue (rt_transport r') = drop k (imt_queue (rt_transport r))"
  shows "queue_numbered r'"
  using ids_before_drop [of "imt_queue (rt_transport r)" _ k] assms by (simp add: queue_numbered_def)

lemma run_once_imt:
  "run_once ac imt_receive r =
     (if \<not> rt_running r
      then (result_failure Error_RuntimeNotRunning ''runtime is not running'', r)
      else case imt_queue (rt_transport r) of
        [] \<Rightarrow> (result_success, r)
      | m # ms \<Rightarrow> dispatch ac m (r\<lparr>rt_transport := rt_transport r\<lparr>imt_queue := ms\<rparr>\<rparr>))"
  by (simp add: run_once_def imt_receive_def split: list.split)

definition runtime_ok :: "('a, in_memory_transport, 'w) agent_ops \<Rightarrow> ('a, in_memory_transport, 'w) agent_runtime \<Rightarrow> bool" where
  "runtime_ok ac r \<longleftrightarrow> registry_ok ac (rt_agents r) \<and> queue_numbered r"

lemma runtime_ok_cong [simp]:
  "runtime_ok ac (r\<lparr>rt_world := w\<rparr>) = runtime_ok ac r" "runtime_ok ac (r\<lparr>rt_running := b\<rparr>) = runtime_ok ac r"
  "runtime_ok ac (r\<lparr>rt_cerr := e\<rparr>) = runtime_ok ac r"
  by (simp_all add: runtime_ok_def queue_numbered_def)

lemma runtime_ok_broadcast:
  "runtime_ok ac r \<Longrightarrow> broadcast_loop imt_send source ev ps r = (res, r') \<Longrightarrow> runtime_ok ac r'"
  using queue_numbered_send [of r source ev ps] broadcast_loop_agents [of source ev ps r]
  by (simp add: runtime_ok_def)

lemma runtime_ok_publish:
  "runtime_ok ac r \<Longrightarrow> publish_event imt_send source target ev r = (res, r') \<Longrightarrow> runtime_ok ac r'"
  unfolding publish_as_broadcast [of _ _ _ _ undefined] by (rule runtime_ok_broadcast)

lemma runtime_ok_register:
  "runtime_ok ac r \<Longrightarrow> \<forall>xs. mset (rehash xs) = mset xs \<Longrightarrow> register_agent ac rehash agent r = (res, r') \<Longrightarrow>
     runtime_ok ac r'"
  using registry_ok_register [of rehash ac r agent res r'] by (simp add: runtime_ok_def queue_numbered_def)

lemma runtime_ok_popped:
  "runtime_ok ac r \<Longrightarrow> imt_queue (rt_transport r) = m # ms \<Longrightarrow>
     runtime_ok ac (r\<lparr>rt_transport := rt_transport r\<lparr>imt_queue := ms\<rparr>\<rparr>)"
  using queue_numbered_dropped [of r "r\<lparr>rt_transport := rt_transport r\<lparr>imt_queue := ms\<rparr>\<rparr>" 1]
  by (simp add: runtime_ok_def)

lemma sending_keeps: "sending_step\<^sup>*\<^sup>* r r' \<Longrightarrow> runtime_ok ac r \<Longrightarrow> runtime_ok ac r'"
proof (induction rule: rtranclp_induct)
  case (step y z)
  from step.hyps(2) step.IH [OF step.prems] show ?case
    by (cases rule: sending_step.cases)
      (auto simp: broadcast_event_def intro: runtime_ok_publish runtime_ok_broadcast)
qed

lemma reentrantD:
  assumes "reentrant_agents ac"
  shows "sending_step\<^sup>*\<^sup>* r (ag_on_start ac a r)" "(callback_step ac a)\<^sup>*\<^sup>* r (ag_on_message ac a m r)"
    "sending_step\<^sup>*\<^sup>* r (ag_on_stop ac a r)"
  using assms by (simp_all add: reentrant_agents_def)

lemma runtime_ok_unregister:
  assumes "reentrant_agents ac" "runtime_ok ac r" "unregister_agent ac name r = (res, r')"
  shows "runtime_ok ac r'"
proof -
  have "runtime_ok ac (ag_on_stop ac a r)" for a
    by (rule sending_keeps [OF reentrantD(3) [OF assms(1)] assms(2)])
  with assms(2,3) show ?thesis
    by (auto simp: unregister_agent_def Let_def runtime_ok_def queue_numbered_def intro!: registry_ok_delete
        split: option.splits if_splits)
qed

lemma callback_keeps:
  assumes "reentrant_agents ac"
  shows "(callback_step ac self)\<^sup>*\<^sup>* r r' \<Longrightarrow> runtime_ok ac r \<Longrightarrow> runtime_ok ac r'"
proof (induction rule: rtranclp_induct)
  case (step y z)
  from step.hyps(2) step.IH [OF step.prems] show ?case
    by (cases rule: callback_step.cases)
      (auto intro: sending_keeps runtime_ok_register runtime_ok_unregister [OF assms])
qed

lemma runtime_ok_run_once:
  assumes "reentrant_agents ac" "runtime_ok ac r" "run_once ac imt_receive r = (res, r')"
  shows "runtime_ok ac r'"
proof (cases "rt_running r \<and> imt_queue (rt_transport r) \<noteq> []")
  case True
  then obtain m ms where q: "imt_queue (rt_transport r) = m # ms" by (auto simp: neq_Nil_conv)
  note ok = runtime_ok_popped [OF assms(2) q]
  from True q assms(3) ok callback_keeps [OF assms(1) reentrantD(2) [OF assms(1)] ok] show ?thesis
    by (auto simp: run_once_imt dispatch_def split: option.splits)
next
  case False
  with assms(2,3) show ?thesis by (auto simp: run_once_imt split: if_splits)
qed

lemma runtime_ok_drain:
  assumes "reentrant_agents ac" "runtime_ok ac r" "drain ac imt_receive imt_empty r = Some r'"
  shows "runtime_ok ac r'"
proof -
  have "reentrant_agents ac \<longrightarrow> rcv = imt_receive \<longrightarrow> runtime_ok ac r \<longrightarrow> runtime_ok ac r'"
    if "drain ac rcv emp r = Some r'" for ac :: "('a, in_memory_transport, 'b) agent_ops" and rcv emp r r'
    using that
  proof (rule drain.raw_induct [where P = "\<lambda>ac rcv emp r r'. reentrant_agents ac \<longrightarrow> rcv = imt_receive \<longrightarrow>
        runtime_ok ac r \<longrightarrow> runtime_ok ac r'", rotated 1], intro impI)
    fix self ac rcv emp r r'
    assume ih: "\<And>ac rcv emp r r'. self ac rcv emp r = Some r' \<Longrightarrow>
        reentrant_agents ac \<longrightarrow> rcv = imt_receive \<longrightarrow> runtime_ok ac r \<longrightarrow> runtime_ok ac r'"
      and body: "(if emp (rt_transport r) then Some r
        else case run_once ac rcv r of (res, r) \<Rightarrow>
          if \<not> r_ok res
          then Some (r\<lparr>rt_cerr := rt_cerr r @ [''[Galculus] runtime error: '' @ r_message res]\<rparr>)
          else self ac rcv emp r) = Some r'"
      and e: "reentrant_agents ac" "rcv = imt_receive" "runtime_ok ac r"
    obtain res r1 where r1: "run_once ac imt_receive r = (res, r1)" by fastforce
    from runtime_ok_run_once [OF e(1,3) r1] body e ih [of ac imt_receive emp r1 r'] r1 show "runtime_ok ac r'"
      by (auto split: if_splits)
  qed
  with assms show ?thesis by blast
qed

lemma runtime_ok_fold:
  "(\<And>a r. runtime_ok ac r \<Longrightarrow> runtime_ok ac (f a r)) \<Longrightarrow> runtime_ok ac r \<Longrightarrow>
     runtime_ok ac (fold (\<lambda>pair. f (snd pair)) ps r)"
  by (induction ps arbitrary: r) simp_all

lemma runtime_step_preserves:
  assumes ra: "reentrant_agents ac" and "runtime_step ac r r'" and ok: "runtime_ok ac r"
  shows "runtime_ok ac r'"
  using assms(2)
proof (cases rule: runtime_step.cases)
  case Register
  with ok show ?thesis by (blast intro: runtime_ok_register)
next
  case Unregister
  with runtime_ok_unregister [OF ra ok] show ?thesis by blast
next
  case Publish
  with ok show ?thesis by (blast intro: runtime_ok_publish)
next
  case Broadcast
  with ok show ?thesis unfolding broadcast_event_def by (blast intro: runtime_ok_broadcast)
next
  case Start
  with ok show ?thesis
    by (auto simp: start_def intro!: runtime_ok_fold intro: sending_keeps [OF reentrantD(1) [OF ra]])
next
  case Stop
  with ok show ?thesis
    by (auto simp: stop_def intro!: runtime_ok_fold intro: sending_keeps [OF reentrantD(3) [OF ra]])
next
  case RunOnce
  with runtime_ok_run_once [OF ra ok] show ?thesis by blast
next
  case Drain
  with runtime_ok_drain [OF ra ok] show ?thesis by blast
qed

lemma runtime_reachable:
  assumes "reentrant_agents ac"
    and "(runtime_step ac)\<^sup>*\<^sup>* (new_runtime \<lparr>imt_queue = []\<rparr> w) r"
  shows "runtime_ok ac r"
  using assms(2)
proof (induction rule: rtranclp_induct)
  case base
  then show ?case by (simp add: runtime_ok_def new_runtime_def queue_numbered_def)
next
  case (step y z)
  with runtime_step_preserves [OF assms(1) step.hyps(2)] show ?case by blast
qed

lemma fold_deliver_broadcast:
  "\<forall>p \<in> set ps. map_of agents (fst p) = Some (snd p) \<Longrightarrow>
     fold (deliver hmsg agents) (broadcast_messages i source ev (map fst ps)) w =
     fold (\<lambda>(p, m). hmsg (snd p) m) (zip ps (broadcast_messages i source ev (map fst ps))) w"
  by (induction ps arbitrary: i w) (simp_all add: deliver_def)

lemma broadcast_targets: "m \<in> set (broadcast_messages i source ev ns) \<Longrightarrow> m_target m \<in> set ns"
  by (induction ns arbitrary: i) auto

lemma registry_ok_map_of: "registry_ok ac ps \<Longrightarrow> p \<in> set ps \<Longrightarrow> map_of ps (fst p) = Some (snd p)"
  by (simp add: registry_ok_def)

section \<open>A program to run\<close>

text \<open>Agents that log their callbacks, as the agents of the tests and of \<open>hello_agent\<close> do.\<close>

definition logging_agents :: "(string, in_memory_transport, string list) agent_ops" where
  "logging_agents = \<lparr>ag_name = (\<lambda>a. a),
     ag_on_start = (\<lambda>a r. r\<lparr>rt_world := rt_world r @ [''start '' @ a]\<rparr>),
     ag_on_message = (\<lambda>a m r. r\<lparr>rt_world := rt_world r @ [a @ '' got '' @ payload_as_string (m_event m)]\<rparr>),
     ag_on_stop = (\<lambda>a r. r\<lparr>rt_world := rt_world r @ [''stop '' @ a]\<rparr>)\<rparr>"

definition logging_runtime ::
    "bool \<Rightarrow> message list \<Rightarrow> (string, in_memory_transport, string list) agent_runtime" where
  "logging_runtime running q = \<lparr>rt_agents = [(''A'', ''A''), (''B'', ''B'')],
     rt_transport = \<lparr>imt_queue = q\<rparr>, rt_running = running, rt_next_message_id = 7,
     rt_world = [], rt_cerr = []\<rparr>"

lemma logging_world: "world_agents logging_agents
    (\<lambda>a w. w @ [''start '' @ a]) (\<lambda>a m w. w @ [a @ '' got '' @ payload_as_string (m_event m)])
    (\<lambda>a w. w @ [''stop '' @ a])"
  by (simp add: world_agents_def logging_agents_def)

text \<open>An agent that answers a message to its sender and passes it on to itself.\<close>

definition relay_agents :: "(string, in_memory_transport, string list) agent_ops" where
  "relay_agents = \<lparr>ag_name = (\<lambda>a. a), ag_on_start = (\<lambda>a r. r),
     ag_on_message = (\<lambda>a m r. snd (publish_event imt_send a a (m_event m)
        (snd (publish_event imt_send a (m_source m) (m_event m) r)))),
     ag_on_stop = (\<lambda>a r. r)\<rparr>"

lemma relay_reentrant: "reentrant_agents relay_agents"
proof -
  have p: "callback_step relay_agents a r (snd (publish_event imt_send source target ev r))" for a source target ev r
    by (rule Sends, rule Send_Event) (rule surjective_pairing)
  have "(callback_step relay_agents a)\<^sup>*\<^sup>* r (ag_on_message relay_agents a m r)" for a m r
    unfolding relay_agents_def by simp (rule rtranclp_trans; rule r_into_rtranclp; rule p [unfolded relay_agents_def])
  then show ?thesis by (simp add: reentrant_agents_def) (simp add: relay_agents_def)
qed

section \<open>Properties\<close>

text \<open>C13: With agents whose callbacks act on the outside world only (they neither publish nor change
  the runtime), \<open>drain\<close> of a running runtime over the in-memory transport returns. Every message ahead of the first one with
  an unknown target is handed to \<open>on_message\<close> of the agent it names, once and in queue order;
  the message with the unknown target is lost and reported on standard error, and what is
  behind it stays queued, undelivered. With no such message the queue ends empty.\<close>

theorem drain_delivers_in_order:
  assumes "world_agents ac hstart hmsg hstop" and "rt_running r"
  shows "drain ac imt_receive imt_empty r = Some (
    let known = addressable (rt_agents r); q = imt_queue (rt_transport r)
    in r\<lparr>rt_transport := \<lparr>imt_queue = tl (dropWhile known q)\<rparr>,
         rt_world := fold (deliver hmsg (rt_agents r)) (takeWhile known q) (rt_world r),
         rt_cerr := rt_cerr r @ (case dropWhile known q of
             [] \<Rightarrow> []
           | m # _ \<Rightarrow> [''[Galculus] runtime error: unknown target agent: '' @ m_target m])\<rparr>)"
proof -
  obtain t where "imt_queue t = tl (dropWhile (addressable (rt_agents r)) (imt_queue (rt_transport r)))"
    "drain ac imt_receive imt_empty r = Some (r\<lparr>rt_transport := t,
      rt_world := fold (deliver hmsg (rt_agents r))
        (takeWhile (addressable (rt_agents r)) (imt_queue (rt_transport r))) (rt_world r),
      rt_cerr := rt_cerr r @
        (case dropWhile (addressable (rt_agents r)) (imt_queue (rt_transport r)) of
           [] \<Rightarrow> []
         | m # _ \<Rightarrow> [''[Galculus] runtime error: unknown target agent: '' @ m_target m])\<rparr>)"
    using rt_imt.drain_delivers [OF assms(1) TrueI assms(2) refl] by blast
  moreover from this(1) have
    "t = \<lparr>imt_queue = tl (dropWhile (addressable (rt_agents r)) (imt_queue (rt_transport r)))\<rparr>"
    by (cases t) simp
  ultimately show ?thesis by (simp add: Let_def)
qed

theorem drain_delivers_in_order_witness:
  "drain logging_agents imt_receive imt_empty (logging_runtime True
     [text_event 1 ''A'' ''B'' ''e'' ''hi'', text_event 2 ''A'' ''Z'' ''e'' ''lost'',
      text_event 3 ''B'' ''A'' ''e'' ''stuck'']) =
   Some ((logging_runtime True [text_event 3 ''B'' ''A'' ''e'' ''stuck''])
     \<lparr>rt_world := [''B got hi''], rt_cerr := [''[Galculus] runtime error: unknown target agent: Z'']\<rparr>)"
  by (subst drain_delivers_in_order [OF logging_world])
     (simp_all add: logging_runtime_def addressable_def deliver_def text_event_def event_message_def
        default_message_def event_text_def payload_as_string_def)

text \<open>C31: With agents whose callbacks act on the outside world only, registered under their distinct
  names, broadcasting to a running runtime with an empty in-memory transport and then draining
  calls \<open>on_message\<close> of every registered agent exactly once, in iteration order, with
  the given event addressed to it and with consecutive ids, and leaves the queue empty.\<close>

theorem broadcast_then_drain:
  assumes "world_agents ac hstart hmsg hstop" and "registry_ok ac (rt_agents r)"
    and "rt_running r" and "imt_queue (rt_transport r) = []"
    and "broadcast_event imt_send source ev r = (res, r1)"
  shows "res = result_success \<and> drain ac imt_receive imt_empty r1 = Some (r
    \<lparr>rt_next_message_id := rt_next_message_id r + of_nat (length (rt_agents r)),
     rt_world := fold (\<lambda>(p, m). hmsg (snd p) m)
       (zip (rt_agents r)
         (broadcast_messages (rt_next_message_id r) source ev (map fst (rt_agents r))))
       (rt_world r)\<rparr>)"
proof -
  let ?ms = "broadcast_messages (rt_next_message_id r) source ev (map fst (rt_agents r))"
  let ?r = "r\<lparr>rt_transport := \<lparr>imt_queue = ?ms\<rparr>,
    rt_next_message_id := rt_next_message_id r + of_nat (length (rt_agents r))\<rparr>"
  have "m_target m \<in> fst ` set (rt_agents r)" if "m \<in> set ?ms" for m
    using broadcast_targets [OF that] by simp
  then have known: "\<forall>m \<in> set ?ms. addressable (rt_agents r) m"
    by (simp add: addressable_def map_of_eq_None_iff)
  obtain t where "imt_queue t = ?ms" "broadcast_event imt_send source ev r = (result_success,
      r\<lparr>rt_transport := t, rt_next_message_id := rt_next_message_id r + of_nat (length (rt_agents r))\<rparr>)"
    using rt_imt.broadcast_sends [of r source ev "rt_agents r"] assms(4)
    by (auto simp: broadcast_event_def)
  moreover from this(1) have "t = \<lparr>imt_queue = ?ms\<rparr>" by (cases t) simp
  ultimately have r1: "res = result_success" "r1 = ?r" using assms(5) by simp_all
  obtain t where t: "imt_queue t = tl (dropWhile (addressable (rt_agents r)) ?ms)"
    "drain ac imt_receive imt_empty ?r = Some (?r\<lparr>rt_transport := t,
      rt_world := fold (deliver hmsg (rt_agents r)) (takeWhile (addressable (rt_agents r)) ?ms) (rt_world r),
      rt_cerr := rt_cerr r @ (case dropWhile (addressable (rt_agents r)) ?ms of [] \<Rightarrow> []
        | m # _ \<Rightarrow> [''[Galculus] runtime error: unknown target agent: '' @ m_target m])\<rparr>)"
    using rt_imt.drain_delivers [OF assms(1), of ?r ?ms] assms(3) by auto
  have dw: "dropWhile (addressable (rt_agents r)) ?ms = []" "takeWhile (addressable (rt_agents r)) ?ms = ?ms"
    using known by simp_all
  have "t = rt_transport r" using t(1) dw(1) assms(4) by (cases t, cases "rt_transport r") simp
  with t(2) dw r1 fold_deliver_broadcast [of "rt_agents r" "rt_agents r" hmsg "rt_next_message_id r" source ev "rt_world r"] registry_ok_map_of [OF assms(2)]
  show ?thesis by simp
qed

theorem broadcast_then_drain_witness:
  "\<exists>res r1. broadcast_event imt_send ''S'' (event_text ''e'' ''hi'') (logging_runtime True []) = (res, r1) \<and>
     res = result_success \<and>
     drain logging_agents imt_receive imt_empty r1 = Some ((logging_runtime True [])
       \<lparr>rt_next_message_id := 9, rt_world := [''A got hi'', ''B got hi'']\<rparr>)"
proof -
  obtain res r1 where b: "broadcast_event imt_send ''S'' (event_text ''e'' ''hi'') (logging_runtime True []) = (res, r1)"
    by (metis surj_pair)
  have "registry_ok logging_agents (rt_agents (logging_runtime True []))"
    by (simp add: registry_ok_def logging_agents_def logging_runtime_def)
  from broadcast_then_drain [OF logging_world this _ _ b] b show ?thesis
    by (simp add: logging_runtime_def event_text_def payload_as_string_def)
qed

text \<open>C22: In every state a program reaches from a new runtime with an in-memory transport, by
  any sequence of registering, unregistering, publishing, broadcasting, starting, stopping and
  running, with agents whose callbacks publish, broadcast, register and unregister agents
  themselves, the registered names are distinct, not empty and the agents' own names, and the ids
  of the queued messages are the consecutive ids handed out last, hence distinct.\<close>

theorem runtime_invariant:
  assumes "reentrant_agents ac"
    and "(runtime_step ac)\<^sup>*\<^sup>* (new_runtime \<lparr>imt_queue = []\<rparr> w) r"
    and "length (imt_queue (rt_transport r)) \<le> 18446744073709551616"
  shows "registry_ok ac (rt_agents r) \<and>
    map m_id (imt_queue (rt_transport r)) =
      ids_before (rt_next_message_id r) (length (imt_queue (rt_transport r))) \<and>
    distinct (map m_id (imt_queue (rt_transport r)))"
  using runtime_reachable [OF assms(1,2)] ids_before_distinct [OF assms(3)]
  by (simp add: runtime_ok_def queue_numbered_def)

theorem runtime_invariant_witness:
  "\<exists>r. run_once relay_agents imt_receive (start relay_agents (new_runtime \<lparr>imt_queue =
        [event_message 1 ''S'' ''A'' (event_text ''e'' ''x'')]\<rparr> []
      \<lparr>rt_agents := [(''A'', ''A'')], rt_next_message_id := 2\<rparr>)) = (result_success, r) \<and>
    map m_target (imt_queue (rt_transport r)) = [''S'', ''A''] \<and> distinct (map m_id (imt_queue (rt_transport r)))"
proof -
  let ?ev = "event_text ''e'' ''x''"
  let ?q = "[event_message 1 ''S'' ''A'' ?ev]" and ?q2 = "[event_message 2 ''A'' ''S'' ?ev, event_message 3 ''A'' ''A'' ?ev]"
  let ?r0 = "new_runtime \<lparr>imt_queue = []\<rparr> []"
  let ?r1 = "?r0\<lparr>rt_agents := [(''A'', ''A'')]\<rparr>"
  let ?r2 = "?r1\<lparr>rt_transport := \<lparr>imt_queue = ?q\<rparr>, rt_next_message_id := 2\<rparr>"
  let ?r3 = "?r2\<lparr>rt_running := True\<rparr>"
  let ?r4 = "?r3\<lparr>rt_transport := \<lparr>imt_queue = ?q2\<rparr>, rt_next_message_id := 4\<rparr>"
  have "register_agent relay_agents (\<lambda>xs. xs) (Some ''A'') ?r0 = (result_success, ?r1)"
    by (simp add: register_agent_def relay_agents_def has_agent_def new_runtime_def Let_def)
  then have "runtime_step relay_agents ?r0 ?r1" by (intro runtime_step.Register) simp_all
  moreover have "publish_event imt_send ''S'' ''A'' ?ev ?r1 = (result_success, ?r2)"
    by (simp add: publish_event_def next_message_id_def rt_send_def imt_send_def new_runtime_def)
  then have "runtime_step relay_agents ?r1 ?r2" by (rule runtime_step.Publish)
  moreover have s: "start relay_agents ?r2 = ?r3" by (simp add: start_def relay_agents_def new_runtime_def)
  have "runtime_step relay_agents ?r2 ?r3" unfolding s [symmetric] by (rule runtime_step.Start)
  moreover have o: "run_once relay_agents imt_receive ?r3 = (result_success, ?r4)"
    by (simp add: run_once_def dispatch_def imt_defs new_runtime_def relay_agents_def publish_event_def
        next_message_id_def rt_send_def)
  then have "runtime_step relay_agents ?r3 ?r4" by (rule runtime_step.RunOnce)
  ultimately have "(runtime_step relay_agents)\<^sup>*\<^sup>* ?r0 ?r4" by auto
  from runtime_invariant [OF relay_reentrant this] have "distinct (map m_id (imt_queue (rt_transport ?r4)))" by simp
  moreover have "map m_target (imt_queue (rt_transport ?r4)) = [''S'', ''A'']" by simp
  ultimately show ?thesis using o s by (intro exI [of _ ?r4]) (simp add: new_runtime_def)
qed

text \<open>An agent registered while the runtime is running gets its messages and, when it is
  unregistered or the runtime stops, its \<open>on_stop\<close>, but never an \<open>on_start\<close>: registering does
  not call it and \<open>start\<close> on the running runtime does nothing. Unregistering it again removes
  exactly this agent.\<close>

theorem late_agent_is_never_started:
  assumes "world_agents ac hstart hmsg hstop" and "rt_running r"
    and "register_agent ac (\<lambda>xs. xs) (Some a) r = (res, r1)" and "r_ok res"
  shows "rt_world (start ac r1) = rt_world r \<and>
    dispatch ac (event_message i source (ag_name ac a) ev) r1 =
      (result_success, r1\<lparr>rt_world := hmsg a (event_message i source (ag_name ac a) ev) (rt_world r)\<rparr>) \<and>
    unregister_agent ac (ag_name ac a) r1 = (result_success, r\<lparr>rt_world := hstop a (rt_world r)\<rparr>) \<and>
    rt_world (stop ac r1) = fold (\<lambda>p. hstop (snd p)) (rt_agents r) (hstop a (rt_world r))"
proof -
  from assms(3,4) have r1: "r1 = r\<lparr>rt_agents := (ag_name ac a, a) # rt_agents r\<rparr>"
    "map_of (rt_agents r) (ag_name ac a) = None"
    by (auto simp: register_agent_def has_agent_def Let_def split: if_split_asm)
  then have "AList.delete (ag_name ac a) (rt_agents r) = rt_agents r"
    by (simp add: AList.delete_eq filter_id_conv map_of_eq_None_iff image_iff case_prod_unfold)
  with r1 assms(1,2) show ?thesis
    by (simp add: start_def dispatch_def unregister_agent_def world_agentsD stop_world)
qed

theorem late_agent_is_never_started_witness:
  "\<exists>res r1. register_agent logging_agents (\<lambda>xs. xs) (Some ''C'') (logging_runtime True []) = (res, r1) \<and>
     r_ok res \<and> rt_world (start logging_agents r1) = [] \<and>
     rt_world (stop logging_agents r1) = [''stop C'', ''stop A'', ''stop B'']"
proof -
  obtain res r1 where b: "register_agent logging_agents (\<lambda>xs. xs) (Some ''C'') (logging_runtime True []) = (res, r1)"
    by (metis surj_pair)
  then have "r_ok res"
    by (auto simp: register_agent_def logging_agents_def logging_runtime_def has_agent_def Let_def)
  moreover have "rt_running (logging_runtime True [])" by (simp add: logging_runtime_def)
  ultimately show ?thesis
    using late_agent_is_never_started [OF logging_world _ b, of 0 "''S''" "event_text ''e'' ''x''"] b
    by (simp add: logging_runtime_def)
qed

end
