(* ===== verification/Runtime_Drain.thy ===== *)
theory Runtime_Drain
  imports Runtime
begin

text \<open>
  When \<open>drain\<close> returns. Its loop ends if every callback answers a message with messages of a
  smaller rank only, whatever else the callback does to the runtime; it does not end if agents
  keep answering to themselves. Over a framed transport it also has to get past byte vectors
  that are not frames.
\<close>

section \<open>One turn of the loop\<close>

lemma drain_empty: "imt_queue (rt_transport r) = [] \<Longrightarrow> drain ac imt_receive imt_empty r = Some r"
  by (simp add: drain.simps imt_empty_def)

lemma drain_turn:
  assumes "imt_queue (rt_transport r) = m # ms" "rt_running r" "map_of (rt_agents r) (m_target m) = Some a"
  shows "drain ac imt_receive imt_empty r =
    drain ac imt_receive imt_empty (ag_on_message ac a m (r\<lparr>rt_transport := \<lparr>imt_queue = ms\<rparr>\<rparr>))"
proof -
  have "rt_transport r = \<lparr>imt_queue = m # ms\<rparr>" using assms(1) by (cases "rt_transport r") simp
  with assms(2,3) show ?thesis
    by (simp add: drain.simps [of ac imt_receive imt_empty r] run_once_def dispatch_def imt_receive_def imt_empty_def)
qed

lemma drain_stops:
  assumes "imt_queue (rt_transport r) = m # ms" "\<not> rt_running r \<or> map_of (rt_agents r) (m_target m) = None"
  shows "\<exists>r' e. drain ac imt_receive imt_empty r = Some r' \<and> rt_cerr r' = rt_cerr r @ [e]"
  using assms by (auto simp: drain.simps [of ac imt_receive imt_empty r] run_once_def dispatch_def imt_receive_def
      imt_empty_def)

section \<open>Ranks\<close>

text \<open>
  A callback may change the agents, the running flag, the world and the ids; what it adds to
  the queue has a smaller rank than the message it answers.
\<close>

definition answers_below ::
    "('a, in_memory_transport, 'w) agent_ops \<Rightarrow> (message \<Rightarrow> nat) \<Rightarrow> bool" where
  "answers_below ac rank \<longleftrightarrow> (\<forall>a m r. \<exists>ms.
     imt_queue (rt_transport (ag_on_message ac a m r)) = imt_queue (rt_transport r) @ ms \<and>
     (\<forall>k \<in> set ms. rank k < rank m) \<and> rt_cerr (ag_on_message ac a m r) = rt_cerr r)"

lemma rank_decreases:
  "\<forall>k \<in> set ks. rank k < rank m \<Longrightarrow>
     (image_mset rank (mset (ms @ ks)), image_mset rank (mset (m # ms))) \<in> mult less_than"
  using one_step_implies_mult [of "{#rank m#}" "image_mset rank (mset ks)" less_than "image_mset rank (mset ms)"]
  by (auto simp: ac_simps)

lemma drain_returns:
  assumes "answers_below ac rank"
  shows "\<exists>r'. drain ac imt_receive imt_empty r = Some r' \<and>
    (imt_queue (rt_transport r') = [] \<and> rt_cerr r' = rt_cerr r \<or> (\<exists>e. rt_cerr r' = rt_cerr r @ [e]))"
proof -
  have "wf (inv_image (mult less_than) (\<lambda>r :: ('a, in_memory_transport, 'w) agent_runtime.
      image_mset rank (mset (imt_queue (rt_transport r)))))"
    by (intro wf_inv_image wf_mult) simp
  then show ?thesis
  proof (induction r rule: wf_induct_rule)
    case (less r)
    show ?case
    proof (cases "imt_queue (rt_transport r)")
      case Nil
      then show ?thesis by (simp add: drain_empty)
    next
      case (Cons m ms)
      show ?thesis
      proof (cases "rt_running r \<and> map_of (rt_agents r) (m_target m) \<noteq> None")
        case False
        with drain_stops [OF Cons, of ac] show ?thesis by blast
      next
        case True
        then obtain a where a: "rt_running r" "map_of (rt_agents r) (m_target m) = Some a" by auto
        let ?r = "ag_on_message ac a m (r\<lparr>rt_transport := \<lparr>imt_queue = ms\<rparr>\<rparr>)"
        obtain ks where ks: "imt_queue (rt_transport ?r) = ms @ ks" "\<forall>k \<in> set ks. rank k < rank m"
          "rt_cerr ?r = rt_cerr r"
          using assms [unfolded answers_below_def, rule_format, of a m "r\<lparr>rt_transport := \<lparr>imt_queue = ms\<rparr>\<rparr>"] by auto
        from rank_decreases [OF ks(2), of ms]
        have "(?r, r) \<in> inv_image (mult less_than) (\<lambda>r. image_mset rank (mset (imt_queue (rt_transport r))))"
          by (simp add: ks(1) Cons)
        from less [OF this] show ?thesis unfolding drain_turn [OF Cons a] ks(3) .
      qed
    qed
  qed
qed

section \<open>Agents that answer to themselves\<close>

definition answers_itself ::
    "('a, in_memory_transport, 'w) agent_ops \<Rightarrow> ('a \<Rightarrow> message \<Rightarrow> event) \<Rightarrow> ('a \<Rightarrow> message \<Rightarrow> 'w \<Rightarrow> 'w) \<Rightarrow> bool" where
  "answers_itself ac ev h \<longleftrightarrow> (\<forall>a m r. ag_on_message ac a m r =
     snd (publish_event imt_send (m_target m) (m_target m) (ev a m) (r\<lparr>rt_world := h a m (rt_world r)\<rparr>)))"

lemma answers_itself_queue:
  assumes "answers_itself ac ev h"
  shows "\<exists>k. m_target k = m_target m \<and> imt_queue (rt_transport (ag_on_message ac a m r)) = imt_queue (rt_transport r) @ [k] \<and>
    rt_running (ag_on_message ac a m r) = rt_running r \<and> rt_agents (ag_on_message ac a m r) = rt_agents r"
  using assms by (simp add: answers_itself_def publish_event_def next_message_id_def rt_send_def imt_send_def
      event_message_def Let_def)

definition busy :: "('a, in_memory_transport, 'w) agent_runtime \<Rightarrow> bool" where
  "busy r \<longleftrightarrow> rt_running r \<and> imt_queue (rt_transport r) \<noteq> [] \<and>
     (\<forall>m \<in> set (imt_queue (rt_transport r)). addressable (rt_agents r) m)"

lemma busy_turn:
  assumes "answers_itself ac ev h" "busy r"
  shows "\<exists>r1. run_once ac imt_receive r = (result_success, r1) \<and> busy r1"
proof -
  obtain m ms where q: "imt_queue (rt_transport r) = m # ms" using assms(2) by (auto simp: busy_def neq_Nil_conv)
  then have t: "rt_transport r = \<lparr>imt_queue = m # ms\<rparr>" by (cases "rt_transport r") simp
  obtain a where a: "map_of (rt_agents r) (m_target m) = Some a" using assms(2) q by (auto simp: busy_def addressable_def)
  let ?r = "ag_on_message ac a m (r\<lparr>rt_transport := \<lparr>imt_queue = ms\<rparr>\<rparr>)"
  have "run_once ac imt_receive r = (result_success, ?r)"
    using assms(2) a by (simp add: run_once_def dispatch_def imt_receive_def t busy_def)
  moreover obtain k where "m_target k = m_target m" "imt_queue (rt_transport ?r) = ms @ [k]"
    "rt_running ?r = rt_running r" "rt_agents ?r = rt_agents r"
    using answers_itself_queue [OF assms(1), of m a "r\<lparr>rt_transport := \<lparr>imt_queue = ms\<rparr>\<rparr>"] by auto
  with assms(2) q a have "busy ?r" by (auto simp: busy_def addressable_def)
  ultimately show ?thesis by blast
qed

lemma busy_never_drained:
  assumes "answers_itself ac ev h" "drain ac imt_receive imt_empty r = Some r'"
  shows "\<not> busy r"
proof -
  have "answers_itself ac ev h \<longrightarrow> rcv = imt_receive \<longrightarrow> emp = imt_empty \<longrightarrow> \<not> busy r"
    if "drain ac rcv emp r = Some r'" for ac :: "('a, in_memory_transport, 'b) agent_ops" and rcv emp r r'
    using that
  proof (rule drain.raw_induct [where P = "\<lambda>ac rcv emp r r'. answers_itself ac ev h \<longrightarrow> rcv = imt_receive \<longrightarrow>
        emp = imt_empty \<longrightarrow> \<not> busy r", rotated 1], intro impI notI)
    fix self ac rcv emp r r'
    assume ih: "\<And>ac rcv emp r r'. self ac rcv emp r = Some r' \<Longrightarrow>
        answers_itself ac ev h \<longrightarrow> rcv = imt_receive \<longrightarrow> emp = imt_empty \<longrightarrow> \<not> busy r"
      and body: "(if emp (rt_transport r) then Some r
        else case run_once ac rcv r of (res, r) \<Rightarrow>
          if \<not> r_ok res
          then Some (r\<lparr>rt_cerr := rt_cerr r @ [''[Galculus] runtime error: '' @ r_message res]\<rparr>)
          else self ac rcv emp r) = Some r'"
      and e: "answers_itself ac ev h" "rcv = imt_receive" "emp = imt_empty" "busy r"
    from busy_turn [OF e(1,4)] obtain r1 where r1: "run_once ac imt_receive r = (result_success, r1)" "busy r1" by blast
    then have "self ac imt_receive imt_empty r1 = Some r'" using body e by (simp add: busy_def imt_empty_def)
    with ih e(1) r1(2) show False by blast
  qed
  with assms show ?thesis by blast
qed

section \<open>Draining a transport of frames\<close>

abbreviation drain_framed ::
    "('a, in_memory_byte_transport, 'w) agent_ops \<Rightarrow> ('a, in_memory_byte_transport, 'w) agent_runtime \<Rightarrow>
     ('a, in_memory_byte_transport, 'w) agent_runtime option" where
  "drain_framed ac \<equiv> drain ac (framed_receive imbt_receive_bytes) (framed_empty imbt_empty)"

lemma framed_receive_next:
  "framed_receive imbt_receive_bytes \<lparr>imbt_queue = bs # q\<rparr> = (wire_decode bs, \<lparr>imbt_queue = q\<rparr>)"
  by (simp add: framed_receive_eq imbt_receive_bytes_def)

lemma drain_framed_empty: "imbt_queue (rt_transport r) = [] \<Longrightarrow> drain_framed ac r = Some r"
  by (simp add: drain.simps framed_empty_def adapter_empty_def imbt_empty_def)

lemma drain_framed_turn:
  assumes "imbt_queue (rt_transport r) = bs # q" "rt_running r"
  shows "drain_framed ac r = (case wire_decode bs of
      None \<Rightarrow> drain_framed ac (r\<lparr>rt_transport := \<lparr>imbt_queue = q\<rparr>\<rparr>)
    | Some m \<Rightarrow> case map_of (rt_agents r) (m_target m) of
        None \<Rightarrow> Some (r\<lparr>rt_transport := \<lparr>imbt_queue = q\<rparr>,
          rt_cerr := rt_cerr r @ [''[Galculus] runtime error: unknown target agent: '' @ m_target m]\<rparr>)
      | Some a \<Rightarrow> drain_framed ac (ag_on_message ac a m (r\<lparr>rt_transport := \<lparr>imbt_queue = q\<rparr>\<rparr>)))"
proof -
  have "rt_transport r = \<lparr>imbt_queue = bs # q\<rparr>" using assms(1) by (cases "rt_transport r") simp
  with assms(2) show ?thesis
    by (simp add: drain.simps [of ac _ _ r] run_once_def dispatch_def framed_receive_next framed_empty_def
        adapter_empty_def imbt_empty_def split: option.split)
qed

lemma drain_framed_delivers:
  assumes w: "world_agents ac hstart hmsg hstop"
  shows "rt_running r \<Longrightarrow> imbt_queue (rt_transport r) = bss \<Longrightarrow> \<exists>rest.
    List.map_filter wire_decode rest = tl (dropWhile (addressable (rt_agents r)) (List.map_filter wire_decode bss)) \<and>
    drain_framed ac r = Some (r\<lparr>rt_transport := \<lparr>imbt_queue = rest\<rparr>,
      rt_world := fold (deliver hmsg (rt_agents r))
        (takeWhile (addressable (rt_agents r)) (List.map_filter wire_decode bss)) (rt_world r),
      rt_cerr := rt_cerr r @ (case dropWhile (addressable (rt_agents r)) (List.map_filter wire_decode bss) of
           [] \<Rightarrow> []
         | m # _ \<Rightarrow> [''[Galculus] runtime error: unknown target agent: '' @ m_target m])\<rparr>)"
proof (induction bss arbitrary: r)
  case Nil
  moreover from this have "rt_transport r = \<lparr>imbt_queue = []\<rparr>" by (cases "rt_transport r") simp
  ultimately show ?case by (intro exI [of _ "[]"]) (simp add: drain_framed_empty List.map_filter_simps)
next
  case (Cons bs bss)
  note turn = drain_framed_turn [OF Cons.prems(2,1), of ac]
  show ?case
  proof (cases "wire_decode bs")
    case None
    with Cons.IH [of "r\<lparr>rt_transport := \<lparr>imbt_queue = bss\<rparr>\<rparr>"] Cons.prems turn
    show ?thesis by (simp add: List.map_filter_simps)
  next
    case m: (Some m)
    show ?thesis
    proof (cases "map_of (rt_agents r) (m_target m)")
      case None
      with m turn show ?thesis
        by (intro exI [of _ bss]) (simp add: List.map_filter_simps addressable_def)
    next
      case (Some a)
      let ?r = "r\<lparr>rt_transport := \<lparr>imbt_queue = bss\<rparr>, rt_world := hmsg a m (rt_world r)\<rparr>"
      have "ag_on_message ac a m (r\<lparr>rt_transport := \<lparr>imbt_queue = bss\<rparr>\<rparr>) = ?r" by (simp add: world_agentsD [OF w])
      with Cons.IH [of ?r] Cons.prems turn m Some show ?thesis
        by (simp add: List.map_filter_simps addressable_def [of _ m] deliver_def [of _ _ m])
    qed
  qed
qed

lemma map_filter_wire: "\<forall>m \<in> set ms. wire_fits m \<Longrightarrow> List.map_filter wire_decode (map wire_encode ms) = ms"
  by (induction ms) (simp_all add: List.map_filter_simps wire_round_trip)

section \<open>Properties\<close>

text \<open>C15: \<open>drain\<close> returns whenever messages can be ranked such that every callback answers a message
  with messages of smaller rank only, however many, and whatever else it does to the runtime
  (register, unregister, stop): the multiset of the ranks in the queue decreases. It then ends
  with an empty queue and nothing reported, or with exactly one line on standard error.\<close>

theorem drain_terminates:
  fixes rank :: "message \<Rightarrow> nat"
  assumes "\<And>a m r. \<exists>ms. imt_queue (rt_transport (ag_on_message ac a m r)) = imt_queue (rt_transport r) @ ms \<and>
      (\<forall>k \<in> set ms. rank k < rank m) \<and> rt_cerr (ag_on_message ac a m r) = rt_cerr r"
  shows "\<exists>r'. drain ac imt_receive imt_empty r = Some r' \<and>
    (imt_queue (rt_transport r') = [] \<and> rt_cerr r' = rt_cerr r \<or> (\<exists>e. rt_cerr r' = rt_cerr r @ [e]))"
proof -
  have "answers_below ac rank" unfolding answers_below_def using assms by blast
  then show ?thesis by (rule drain_returns)
qed

text \<open>Agents that answer a payload with two copies of its tail.\<close>

definition splitting_agents :: "(string, in_memory_transport, nat) agent_ops" where
  "splitting_agents = \<lparr>ag_name = (\<lambda>a. a), ag_on_start = (\<lambda>a r. r),
     ag_on_message = (\<lambda>a m r. let r = r\<lparr>rt_world := Suc (rt_world r)\<rparr>; p = e_payload (m_event m) in
       if p = [] then r else snd (broadcast_loop imt_send a \<lparr>e_name = ''split'', e_payload = tl p\<rparr> [(a, a), (a, a)] r)),
     ag_on_stop = (\<lambda>a r. r)\<rparr>"

definition split_runtime :: "(string, in_memory_transport, nat) agent_runtime" where
  "split_runtime = \<lparr>rt_agents = [(''A'', ''A'')], rt_transport = \<lparr>imt_queue = [text_event 1 ''S'' ''A'' ''split'' ''abc'']\<rparr>,
     rt_running = True, rt_next_message_id = 2, rt_world = 0, rt_cerr = []\<rparr>"

lemma splitting_answers:
  "\<exists>ms. imt_queue (rt_transport (ag_on_message splitting_agents a m r)) = imt_queue (rt_transport r) @ ms \<and>
    (\<forall>k \<in> set ms. length (e_payload (m_event k)) < length (e_payload (m_event m))) \<and>
    rt_cerr (ag_on_message splitting_agents a m r) = rt_cerr r"
  by (auto simp: splitting_agents_def Let_def next_message_id_def rt_send_def imt_send_def event_message_def)

theorem drain_terminates_witness:
  "\<exists>r'. drain splitting_agents imt_receive imt_empty split_runtime = Some r' \<and>
    (imt_queue (rt_transport r') = [] \<and> rt_cerr r' = [] \<or> (\<exists>e. rt_cerr r' = [e]))"
  using drain_terminates [of splitting_agents "\<lambda>m. length (e_payload (m_event m))" split_runtime, OF splitting_answers]
  by (simp add: split_runtime_def)

text \<open>C27: \<open>drain\<close> of a running runtime never returns if agents answer every message with a message to
  themselves and the queue holds a message, all of them for registered agents.\<close>

theorem drain_never_returns:
  assumes "\<And>a m r. ag_on_message ac a m r =
      snd (publish_event imt_send (m_target m) (m_target m) (ev a m) (r\<lparr>rt_world := h a m (rt_world r)\<rparr>))"
    and "rt_running r" "imt_queue (rt_transport r) \<noteq> []"
    and "\<forall>m \<in> set (imt_queue (rt_transport r)). has_agent (m_target m) r"
  shows "drain ac imt_receive imt_empty r = None"
proof -
  have "answers_itself ac ev h" unfolding answers_itself_def using assms(1) by blast
  moreover have "busy r" using assms(2-) by (simp add: busy_def addressable_def has_agent_def)
  ultimately show ?thesis using busy_never_drained by (cases "drain ac imt_receive imt_empty r") blast+
qed

definition echoing_agents :: "(string, in_memory_transport, nat) agent_ops" where
  "echoing_agents = \<lparr>ag_name = (\<lambda>a. a), ag_on_start = (\<lambda>a r. r),
     ag_on_message = (\<lambda>a m r. snd (publish_event imt_send (m_target m) (m_target m) (m_event m)
       (r\<lparr>rt_world := Suc (rt_world r)\<rparr>))),
     ag_on_stop = (\<lambda>a r. r)\<rparr>"

theorem drain_never_returns_witness:
  "drain echoing_agents imt_receive imt_empty split_runtime = None"
  by (rule drain_never_returns [of _ "\<lambda>a m. m_event m" "\<lambda>a m. Suc"])
    (simp_all add: echoing_agents_def split_runtime_def has_agent_def text_event_def event_message_def)

text \<open>C24: With agents whose callbacks act on the outside world only, and over a framed transport with
  any byte vectors in its queue, \<open>drain\<close> of a running runtime returns and delivers, in order, exactly the messages that the vectors decode to, up to the
  first with an unknown target: a vector that is not a frame of a message is dropped without a
  report and does not stop it.\<close>

theorem drain_skips_bad_frames:
  assumes "world_agents ac hstart hmsg hstop" "rt_running r"
  shows "let ms = List.map_filter wire_decode (imbt_queue (rt_transport r)); known = addressable (rt_agents r)
    in \<exists>rest. List.map_filter wire_decode rest = tl (dropWhile known ms) \<and>
      drain ac (framed_receive imbt_receive_bytes) (framed_empty imbt_empty) r =
        Some (r\<lparr>rt_transport := \<lparr>imbt_queue = rest\<rparr>,
          rt_world := fold (deliver hmsg (rt_agents r)) (takeWhile known ms) (rt_world r),
          rt_cerr := rt_cerr r @ (case dropWhile known ms of [] \<Rightarrow> []
            | m # _ \<Rightarrow> [''[Galculus] runtime error: unknown target agent: '' @ m_target m])\<rparr>)"
  unfolding Let_def by (rule drain_framed_delivers [OF assms refl])

definition log_agents :: "(string, 't, string list) agent_ops" where
  "log_agents = \<lparr>ag_name = (\<lambda>a. a), ag_on_start = (\<lambda>a r. r\<lparr>rt_world := rt_world r @ [''start '' @ a]\<rparr>),
     ag_on_message = (\<lambda>a m r. r\<lparr>rt_world := rt_world r @ [a @ '' got '' @ payload_as_string (m_event m)]\<rparr>),
     ag_on_stop = (\<lambda>a r. r\<lparr>rt_world := rt_world r @ [''stop '' @ a]\<rparr>)\<rparr>"

lemma log_world: "world_agents log_agents
    (\<lambda>a w. w @ [''start '' @ a]) (\<lambda>a m w. w @ [a @ '' got '' @ payload_as_string (m_event m)])
    (\<lambda>a w. w @ [''stop '' @ a])"
  by (simp add: world_agents_def log_agents_def)

definition log_runtime :: "'t \<Rightarrow> (string, 't, string list) agent_runtime" where
  "log_runtime t = \<lparr>rt_agents = [(''client'', ''client''), (''server'', ''server'')], rt_transport = t, rt_running = True,
     rt_next_message_id = 9, rt_world = [], rt_cerr = []\<rparr>"

lemma sample_known: "addressable [(''client'', ''client''), (''server'', ''server'')] sample_message"
  by (simp add: addressable_def sample_message_def text_event_def event_message_def)

lemma sample_delivered:
  "deliver (\<lambda>a m w. w @ [a @ '' got '' @ payload_as_string (m_event m)])
     [(''client'', ''client''), (''server'', ''server'')] sample_message [] = [''server got hi'']"
  by (simp add: deliver_def sample_message_def text_event_def event_message_def event_text_def payload_as_string_def)

lemma not_a_frame: "wire_decode [1, 2, 3] = None"
  by (simp add: wire_decode_def frame_decode_def frame_read_u32_def frame_error_def size_add_def result_failure_def)

theorem drain_skips_bad_frames_witness:
  "\<exists>r'. drain log_agents (framed_receive imbt_receive_bytes) (framed_empty imbt_empty)
      (log_runtime \<lparr>imbt_queue = [[1, 2, 3], wire_encode sample_message, [1, 2, 3]]\<rparr>) = Some r' \<and>
    rt_world r' = [''server got hi''] \<and> rt_cerr r' = []"
proof -
  let ?r = "log_runtime \<lparr>imbt_queue = [[1, 2, 3], wire_encode sample_message, [1, 2, 3]]\<rparr>"
  have ms: "List.map_filter wire_decode (imbt_queue (rt_transport ?r)) = [sample_message]"
    by (simp add: log_runtime_def List.map_filter_simps not_a_frame wire_round_trip [OF sample_message_wire_fits])
  have "rt_running ?r" by (simp add: log_runtime_def)
  from drain_skips_bad_frames [OF log_world this] show ?thesis
    unfolding ms Let_def
    using sample_delivered by (auto simp: log_runtime_def sample_known)
qed

text \<open>A runtime over a framed transport refines one over an in-memory transport: with the same
  agents and the frames of the same messages in its queue, draining leaves the same world, the
  same reports, and the frames of the same messages.\<close>

theorem framed_runtime_refines:
  assumes "world_agents ac hstart hmsg hstop" "world_agents acf hstart hmsg hstop"
    and "rt_running r" "imt_queue (rt_transport r) = ms" "\<forall>m \<in> set ms. wire_fits m"
    and "rt_running rf" "imbt_queue (rt_transport rf) = map wire_encode ms"
    and "rt_agents rf = rt_agents r" "rt_world rf = rt_world r" "rt_cerr rf = rt_cerr r"
  shows "\<exists>r' rf'. drain ac imt_receive imt_empty r = Some r' \<and>
    drain acf (framed_receive imbt_receive_bytes) (framed_empty imbt_empty) rf = Some rf' \<and>
    rt_world rf' = rt_world r' \<and> rt_cerr rf' = rt_cerr r' \<and> rt_agents rf' = rt_agents r' \<and>
    List.map_filter wire_decode (imbt_queue (rt_transport rf')) = imt_queue (rt_transport r')"
proof -
  note f = map_filter_wire [OF assms(5)]
  from rt_imt.drain_delivers [OF assms(1) TrueI assms(3,4)] obtain t where
    1: "imt_queue t = tl (dropWhile (addressable (rt_agents r)) ms)"
    "drain ac imt_receive imt_empty r = Some (r\<lparr>rt_transport := t,
      rt_world := fold (deliver hmsg (rt_agents r)) (takeWhile (addressable (rt_agents r)) ms) (rt_world r),
      rt_cerr := rt_cerr r @ (case dropWhile (addressable (rt_agents r)) ms of [] \<Rightarrow> []
         | m # _ \<Rightarrow> [''[Galculus] runtime error: unknown target agent: '' @ m_target m])\<rparr>)" by blast
  from drain_framed_delivers [OF assms(2,6,7)] obtain rest where
    2: "List.map_filter wire_decode rest = tl (dropWhile (addressable (rt_agents r)) ms)"
    "drain_framed acf rf = Some (rf\<lparr>rt_transport := \<lparr>imbt_queue = rest\<rparr>,
      rt_world := fold (deliver hmsg (rt_agents r)) (takeWhile (addressable (rt_agents r)) ms) (rt_world r),
      rt_cerr := rt_cerr r @ (case dropWhile (addressable (rt_agents r)) ms of [] \<Rightarrow> []
         | m # _ \<Rightarrow> [''[Galculus] runtime error: unknown target agent: '' @ m_target m])\<rparr>)"
    unfolding f assms(8-10) by blast
  show ?thesis unfolding 1(2) 2(2) using 1(1) 2(1) by (simp add: assms(8))
qed

theorem framed_runtime_refines_witness:
  "\<exists>r' rf'. drain log_agents imt_receive imt_empty (log_runtime \<lparr>imt_queue = [sample_message]\<rparr>) = Some r' \<and>
    drain log_agents (framed_receive imbt_receive_bytes) (framed_empty imbt_empty)
      (log_runtime \<lparr>imbt_queue = [wire_encode sample_message]\<rparr>) = Some rf' \<and> rt_world rf' = rt_world r'"
  using framed_runtime_refines [OF log_world log_world, of "log_runtime \<lparr>imt_queue = [sample_message]\<rparr>" "[sample_message]"
      "log_runtime \<lparr>imbt_queue = [wire_encode sample_message]\<rparr>"] sample_message_wire_fits
  by (auto simp: log_runtime_def)

end
