(* ===== verification/Runtime_Delivery.thy ===== *)
theory Runtime_Delivery
  imports Runtime_Drain
begin

text \<open>
  What \<open>drain\<close> delivers when agents answer messages with messages. The specification \<open>mail_run\<close>
  knows a queue, the next id and the world; it hands out one message after the other and appends
  the answers. Over every channel of messages \<open>drain\<close> returns exactly where there is such a run,
  and with its result; so what is delivered does not depend on the transport, and it is
  delivered in the order of publication.
\<close>

section \<open>Agents that publish\<close>

text \<open>An event on its way: its source, its target and the event.\<close>

type_synonym outgoing = "string \<times> string \<times> event"

fun publish_all ::
    "(message \<Rightarrow> 't \<Rightarrow> bool \<times> 't) \<Rightarrow> outgoing list \<Rightarrow> ('a, 't, 'w) agent_runtime \<Rightarrow> ('a, 't, 'w) agent_runtime" where
  "publish_all snd_op [] r = r"
| "publish_all snd_op ((source, target, ev) # outs) r =
     publish_all snd_op outs (snd (publish_event snd_op source target ev r))"

text \<open>The messages they become, numbered from the next id on, field by field.\<close>

fun numbered :: "message_id \<Rightarrow> outgoing list \<Rightarrow> message list" where
  "numbered i [] = []"
| "numbered i ((source, target, ev) # outs) =
     \<lparr>m_id = i, m_type = MT_Event, m_source = source, m_target = target, m_event = ev\<rparr> # numbered (i + 1) outs"

lemma numbered_event: "numbered i ((source, target, ev) # outs) = event_message i source target ev # numbered (i + 1) outs"
  by (simp add: event_message_def default_message_def)

declare numbered.simps(2) [simp del] numbered_event [simp]

lemma length_numbered [simp]: "length (numbered i outs) = length outs"
  by (induction i outs rule: numbered.induct) simp_all

lemma numbered_append: "numbered i (outs @ later) = numbered i outs @ numbered (i + of_nat (length outs)) later"
  by (induction i outs rule: numbered.induct) (simp_all add: algebra_simps)

text \<open>
  The answer of an agent to a message: the world it leaves and what it publishes, which may
  depend on the agents that are registered, so that a broadcast is an answer as well.
\<close>

type_synonym ('a, 'w) reply = "(string \<times> 'a) list \<Rightarrow> 'a \<Rightarrow> message \<Rightarrow> 'w \<Rightarrow> 'w \<times> outgoing list"

definition publishing_agents ::
    "(message \<Rightarrow> 't \<Rightarrow> bool \<times> 't) \<Rightarrow> ('a, 't, 'w) agent_ops \<Rightarrow> ('a, 'w) reply \<Rightarrow> bool" where
  "publishing_agents snd_op ac reply \<longleftrightarrow> (\<forall>a m r. ag_on_message ac a m r =
     publish_all snd_op (snd (reply (rt_agents r) a m (rt_world r)))
       (r\<lparr>rt_world := fst (reply (rt_agents r) a m (rt_world r))\<rparr>))"

lemma world_agents_publish:
  "world_agents ac hstart hmsg hstop \<Longrightarrow> publishing_agents snd_op ac (\<lambda>_ a m w. (hmsg a m w, []))"
  by (simp add: publishing_agents_def world_agentsD)

section \<open>The specification\<close>

text \<open>Queue, next id and world; the messages delivered; the message that no agent wanted.\<close>

type_synonym 'w mail = "message list \<times> message_id \<times> 'w"

inductive mail_run ::
    "(string \<times> 'a) list \<Rightarrow> ('a, 'w) reply \<Rightarrow> 'w mail \<Rightarrow> message list \<Rightarrow> message option \<Rightarrow> 'w mail \<Rightarrow> bool"
  for agents reply where
  Delivered: "mail_run agents reply ([], i, w) [] None ([], i, w)"
| Unwanted: "map_of agents (m_target m) = None \<Longrightarrow> mail_run agents reply (m # q, i, w) [] (Some m) (q, i, w)"
| Turn: "map_of agents (m_target m) = Some a \<Longrightarrow> reply agents a m w = (w1, outs) \<Longrightarrow>
    mail_run agents reply (q @ numbered i outs, i + of_nat (length outs), w1) ds e s \<Longrightarrow>
    mail_run agents reply (m # q, i, w) (m # ds) e s"

lemmas mail_run_induct = mail_run.induct [split_format (complete)]

definition unwanted_report :: "message option \<Rightarrow> string list" where
  "unwanted_report e =
     (case e of None \<Rightarrow> [] | Some m \<Rightarrow> [''[Galculus] runtime error: unknown target agent: '' @ m_target m])"

text \<open>What the agents do with messages that are delivered to them one after the other: the world
  they leave, and what they publish.\<close>

fun answers :: "(string \<times> 'a) list \<Rightarrow> ('a, 'w) reply \<Rightarrow> message list \<Rightarrow> 'w \<Rightarrow> 'w \<times> outgoing list" where
  "answers agents reply [] w = (w, [])"
| "answers agents reply (m # ds) w =
     (case reply agents (the (map_of agents (m_target m))) m w of (w, outs) \<Rightarrow>
        case answers agents reply ds w of (w, later) \<Rightarrow> (w, outs @ later))"

text \<open>A run delivers in the order of publication: what was in the queue, then the answers to what
  has been delivered, numbered.\<close>

lemma mail_run_fifo:
  "mail_run agents reply (q, i, w) ds e (q', i', w') \<Longrightarrow>
     \<exists>outs. answers agents reply ds w = (w', outs) \<and>
       q @ numbered i outs = ds @ (case e of None \<Rightarrow> [] | Some m \<Rightarrow> [m]) @ q' \<and>
       i' = i + of_nat (length outs) \<and> (\<forall>m \<in> set ds. addressable agents m) \<and>
       (case e of None \<Rightarrow> q' = [] | Some m \<Rightarrow> \<not> addressable agents m)"
proof (induction q i w ds e q' i' w' rule: mail_run_induct)
  case (Turn m a w w1 outs q i ds e q' i' w')
  then obtain later where s: "answers agents reply ds w1 = (w', later)"
    "(q @ numbered i outs) @ numbered (i + of_nat (length outs)) later = ds @ (case e of None \<Rightarrow> [] | Some m \<Rightarrow> [m]) @ q'"
    "i' = i + of_nat (length outs) + of_nat (length later)"
    "\<forall>m \<in> set ds. addressable agents m" "case e of None \<Rightarrow> q' = [] | Some m \<Rightarrow> \<not> addressable agents m"
    by blast
  have "addressable agents m" using Turn.hyps(1) by (simp add: addressable_def)
  with s Turn.hyps(1,2) show ?case
    by (intro exI [of _ "outs @ later"]) (simp add: numbered_append add.assoc)
qed (simp_all add: addressable_def)

section \<open>\<open>drain\<close> implements it over every channel\<close>

context message_channel begin

text \<open>A bound on messages that the channel accepts and that answers keep.\<close>

definition answers_fit :: "(message \<Rightarrow> bool) \<Rightarrow> ('a, 'w) reply \<Rightarrow> bool" where
  "answers_fit small reply \<longleftrightarrow> (\<forall>m. small m \<longrightarrow> accepts m) \<and>
     (\<forall>agents a m w i k. small m \<longrightarrow> map_of agents (m_target m) = Some a \<longrightarrow>
        k \<in> set (numbered i (snd (reply agents a m w))) \<longrightarrow> small k)"

lemma answers_small:
  assumes "answers_fit small reply" "map_of agents (m_target m) = Some a" "reply agents a m w = (w1, outs)"
    and "\<forall>k \<in> set (m # q). small k"
  shows "\<forall>k \<in> set (q @ numbered i outs). small k"
proof -
  have "\<forall>k \<in> set (numbered i (snd (reply agents a m w))). small k"
    using assms(1,2,4) unfolding answers_fit_def by fastforce
  with assms(3,4) show ?thesis by auto
qed

lemma publish_all_sends:
  assumes "invar (rt_transport r)" "\<forall>k \<in> set (numbered (rt_next_message_id r) outs). accepts k"
  shows "\<exists>t. invar t \<and> contents t = contents (rt_transport r) @ numbered (rt_next_message_id r) outs \<and>
    publish_all snd_op outs r = r\<lparr>rt_transport := t,
      rt_next_message_id := rt_next_message_id r + of_nat (length outs)\<rparr>"
  using assms
proof (induction outs arbitrary: r)
  case Nil
  then show ?case by (intro exI [of _ "rt_transport r"]) simp
next
  case (Cons out outs)
  obtain source target ev where out: "out = (source, target, ev)" by (cases out)
  let ?m = "event_message (rt_next_message_id r) source target ev"
  let ?r = "r\<lparr>rt_next_message_id := rt_next_message_id r + 1\<rparr>"
  obtain t where t: "invar t" "contents t = contents (rt_transport r) @ [?m]"
    "rt_send snd_op ?m ?r = (result_success, ?r\<lparr>rt_transport := t\<rparr>)"
    using rt_send_appends [of ?r ?m] Cons.prems out by auto
  with Cons.IH [of "?r\<lparr>rt_transport := t\<rparr>"] Cons.prems out show ?case
    by (simp add: publish_event_def next_message_id_def ac_simps)
qed

lemma publishing_turn:
  assumes "publishing_agents snd_op ac reply" "answers_fit small reply" "invar (rt_transport r)" "rt_running r"
    and "contents (rt_transport r) = m # q" "\<forall>k \<in> set (m # q). small k" "map_of (rt_agents r) (m_target m) = Some a"
    and "reply (rt_agents r) a m (rt_world r) = (w1, outs)"
  shows "\<exists>t. invar t \<and> contents t = q @ numbered (rt_next_message_id r) outs \<and>
    run_once ac rcv_op r = (result_success, r\<lparr>rt_transport := t,
      rt_next_message_id := rt_next_message_id r + of_nat (length outs), rt_world := w1\<rparr>)"
proof -
  obtain t where t: "invar t" "contents t = q" "run_once ac rcv_op r = dispatch ac m (r\<lparr>rt_transport := t\<rparr>)"
    using run_once_next [OF assms(3-5)] by blast
  have "\<forall>k \<in> set (numbered i outs). accepts k" for i
    using answers_small [OF assms(2,7,8,6), of i] assms(2) by (auto simp: answers_fit_def)
  with publish_all_sends [of "r\<lparr>rt_transport := t, rt_world := w1\<rparr>" outs] t(1,2)
  obtain t' where "invar t'" "contents t' = q @ numbered (rt_next_message_id r) outs"
    "publish_all snd_op outs (r\<lparr>rt_transport := t, rt_world := w1\<rparr>) = r\<lparr>rt_transport := t',
      rt_next_message_id := rt_next_message_id r + of_nat (length outs), rt_world := w1\<rparr>"
    by auto
  with assms(1,7,8) t(3) show ?thesis by (auto simp: dispatch_def publishing_agents_def)
qed

lemma drain_turn_over:
  assumes "contents (rt_transport r) \<noteq> []" "invar (rt_transport r)" "run_once ac rcv_op r = (result_success, r1)"
  shows "drain ac rcv_op empty_op r = drain ac rcv_op empty_op r1"
  using assms by (simp add: drain.simps [of ac rcv_op empty_op r] empty_iff)

lemma mail_run_drains:
  assumes p: "publishing_agents snd_op ac reply" and fit: "answers_fit small reply"
    and "mail_run agents reply (q, i, w) ds e (q', i', w')"
  shows "invar (rt_transport r) \<Longrightarrow> rt_running r \<Longrightarrow> rt_agents r = agents \<Longrightarrow> contents (rt_transport r) = q \<Longrightarrow>
    \<forall>k \<in> set q. small k \<Longrightarrow> rt_next_message_id r = i \<Longrightarrow> rt_world r = w \<Longrightarrow> \<exists>t. invar t \<and> contents t = q' \<and>
      drain ac rcv_op empty_op r = Some (r\<lparr>rt_transport := t, rt_next_message_id := i', rt_world := w',
        rt_cerr := rt_cerr r @ unwanted_report e\<rparr>)"
  using assms(3)
proof (induction q i w ds e q' i' w' arbitrary: r rule: mail_run_induct)
  case Delivered
  then show ?case
    by (intro exI [of _ "rt_transport r"]) (auto simp: drain.simps [of ac _ _ r] empty_iff unwanted_report_def)
next
  case (Unwanted m q i w)
  obtain t where "invar t" "contents t = q" "run_once ac rcv_op r = dispatch ac m (r\<lparr>rt_transport := t\<rparr>)"
    using run_once_next [OF Unwanted.prems(1,2,4)] by blast
  with Unwanted show ?case
    by (intro exI [of _ t]) (auto simp: drain.simps [of ac _ _ r] empty_iff unwanted_report_def dispatch_def)
next
  case (Turn m a w w1 outs q i ds e q' i' w')
  obtain t where t: "invar t" "contents t = q @ numbered (rt_next_message_id r) outs"
    "run_once ac rcv_op r = (result_success, r\<lparr>rt_transport := t,
      rt_next_message_id := rt_next_message_id r + of_nat (length outs), rt_world := w1\<rparr>)"
    using publishing_turn [OF p fit Turn.prems(1,2,4,5), of a w1 outs] Turn.hyps(1,2) Turn.prems(3,7) by auto
  note small = answers_small [OF fit Turn.hyps(1,2) Turn.prems(5), of i]
  have "contents (rt_transport r) \<noteq> []" using Turn.prems(4) by simp
  from drain_turn_over [OF this Turn.prems(1) t(3)] show ?case
    using Turn.IH [of "r\<lparr>rt_transport := t,
      rt_next_message_id := rt_next_message_id r + of_nat (length outs), rt_world := w1\<rparr>"] Turn.prems t small
    by simp
qed

lemma drain_is_mail_run:
  fixes ac :: "('b, 't, 'c) agent_ops"
  assumes p: "publishing_agents snd_op ac reply" and fit: "answers_fit small reply"
    and "drain ac rcv_op empty_op r = Some r'" "invar (rt_transport r)" "rt_running r"
    and "\<forall>k \<in> set (contents (rt_transport r)). small k"
  shows "\<exists>ds e s. mail_run (rt_agents r) reply (contents (rt_transport r), rt_next_message_id r, rt_world r) ds e s"
proof -
  have "publishing_agents snd_op ac reply \<longrightarrow> rcv = rcv_op \<longrightarrow> emp = empty_op \<longrightarrow> invar (rt_transport r) \<longrightarrow> rt_running r \<longrightarrow>
      (\<forall>k \<in> set (contents (rt_transport r)). small k) \<longrightarrow> (\<exists>ds e s. mail_run (rt_agents r) reply (contents (rt_transport r), rt_next_message_id r, rt_world r) ds e s)"
    if "drain ac rcv emp r = Some r'" for ac :: "('b, 't, 'c) agent_ops" and rcv emp r r'
    using that
  proof (rule drain.raw_induct [where P = "\<lambda>ac rcv emp r r'. publishing_agents snd_op ac reply \<longrightarrow> rcv = rcv_op \<longrightarrow>
        emp = empty_op \<longrightarrow> invar (rt_transport r) \<longrightarrow> rt_running r \<longrightarrow>
        (\<forall>k \<in> set (contents (rt_transport r)). small k) \<longrightarrow> (\<exists>ds e s. mail_run (rt_agents r) reply (contents (rt_transport r), rt_next_message_id r, rt_world r) ds e s)",
        rotated 1], intro impI)
    fix self ac rcv emp r r'
    assume ih: "\<And>ac rcv emp r r'. self ac rcv emp r = Some r' \<Longrightarrow> publishing_agents snd_op ac reply \<longrightarrow> rcv = rcv_op \<longrightarrow>
        emp = empty_op \<longrightarrow> invar (rt_transport r) \<longrightarrow> rt_running r \<longrightarrow>
        (\<forall>k \<in> set (contents (rt_transport r)). small k) \<longrightarrow> (\<exists>ds e s. mail_run (rt_agents r) reply (contents (rt_transport r), rt_next_message_id r, rt_world r) ds e s)"
      and body: "(if emp (rt_transport r) then Some r
        else case run_once ac rcv r of (res, r) \<Rightarrow>
          if \<not> r_ok res
          then Some (r\<lparr>rt_cerr := rt_cerr r @ [''[Galculus] runtime error: '' @ r_message res]\<rparr>)
          else self ac rcv emp r) = Some r'"
      and e: "publishing_agents snd_op ac reply" "rcv = rcv_op" "emp = empty_op" "invar (rt_transport r)" "rt_running r"
        "\<forall>k \<in> set (contents (rt_transport r)). small k"
    show "\<exists>ds e s. mail_run (rt_agents r) reply (contents (rt_transport r), rt_next_message_id r, rt_world r) ds e s"
    proof (cases "contents (rt_transport r)")
      case Nil
      show ?thesis unfolding Nil by (blast intro: Delivered)
    next
      case (Cons m q)
      show ?thesis
      proof (cases "map_of (rt_agents r) (m_target m)")
        case None
        then show ?thesis unfolding Cons by (blast intro: Unwanted)
      next
        case (Some a)
        obtain w1 outs where o: "reply (rt_agents r) a m (rt_world r) = (w1, outs)" by fastforce
        from publishing_turn [OF e(1) fit e(4,5) Cons e(6) [unfolded Cons] Some o] obtain t where
          t: "invar t" "contents t = q @ numbered (rt_next_message_id r) outs"
          "run_once ac rcv_op r = (result_success, r\<lparr>rt_transport := t,
            rt_next_message_id := rt_next_message_id r + of_nat (length outs), rt_world := w1\<rparr>)" by blast
        with body e Cons have "self ac rcv_op empty_op (r\<lparr>rt_transport := t,
            rt_next_message_id := rt_next_message_id r + of_nat (length outs), rt_world := w1\<rparr>) = Some r'"
          by (simp add: empty_iff)
        from ih [OF this] e t(1,2) answers_small [OF fit Some o e(6) [unfolded Cons]] obtain ds b s where
          "mail_run (rt_agents r) reply (q @ numbered (rt_next_message_id r) outs,
             rt_next_message_id r + of_nat (length outs), w1) ds b s" by auto
        from Turn [OF Some o this] show ?thesis unfolding Cons by blast
      qed
    qed
  qed
  with assms show ?thesis by blast
qed

lemma drain_refines_mail:
  assumes "publishing_agents snd_op ac reply" "answers_fit small reply" "invar (rt_transport r)" "rt_running r"
    and "\<forall>k \<in> set (contents (rt_transport r)). small k" "drain ac rcv_op empty_op r = Some r'"
  shows "\<exists>ds e q i w t. mail_run (rt_agents r) reply (contents (rt_transport r), rt_next_message_id r, rt_world r) ds e (q, i, w) \<and>
    invar t \<and> contents t = q \<and>
    r' = r\<lparr>rt_transport := t, rt_next_message_id := i, rt_world := w, rt_cerr := rt_cerr r @ unwanted_report e\<rparr>"
proof -
  obtain ds e q i w where m: "mail_run (rt_agents r) reply
      (contents (rt_transport r), rt_next_message_id r, rt_world r) ds e (q, i, w)"
    using drain_is_mail_run [OF assms(1,2,6,3,4,5)] by (metis prod_cases3)
  from mail_run_drains [OF assms(1,2) m assms(3,4) refl refl assms(5) refl refl] assms(6) obtain t where
    "invar t" "contents t = q"
    "r' = r\<lparr>rt_transport := t, rt_next_message_id := i, rt_world := w, rt_cerr := rt_cerr r @ unwanted_report e\<rparr>"
    by auto
  with m show ?thesis by blast
qed

end

lemma imt_answers_fit: "rt_imt.answers_fit (\<lambda>_. True) reply"
  by (simp add: rt_imt.answers_fit_def)

lemma imt_eta: "t = \<lparr>imt_queue = imt_queue t\<rparr>"
  by (cases t) simp

lemma drain_refines_imt:
  assumes "publishing_agents imt_send ac reply" "rt_running r" "drain ac imt_receive imt_empty r = Some r'"
  shows "\<exists>ds e q i w.
    mail_run (rt_agents r) reply (imt_queue (rt_transport r), rt_next_message_id r, rt_world r) ds e (q, i, w) \<and>
    r' = r\<lparr>rt_transport := \<lparr>imt_queue = q\<rparr>, rt_next_message_id := i, rt_world := w,
      rt_cerr := rt_cerr r @ unwanted_report e\<rparr>"
  using rt_imt.drain_refines_mail [OF assms(1) imt_answers_fit TrueI assms(2) _ assms(3)] imt_eta by metis

section \<open>Properties\<close>

text \<open>C11: \<open>drain\<close> of a running runtime with agents that publish, over the in-memory transport, implements
  \<open>mail_run\<close>: it returns exactly if there is a run from the runtime's queue, next id and world, and
  then with what the run leaves and a report of the message that no agent wanted, if there is one.\<close>

theorem drain_implements_mail_run:
  assumes "publishing_agents imt_send ac reply" and "rt_running r"
  shows "drain ac imt_receive imt_empty r = Some r' \<longleftrightarrow> (\<exists>ds e q i w.
    mail_run (rt_agents r) reply (imt_queue (rt_transport r), rt_next_message_id r, rt_world r) ds e (q, i, w) \<and>
    r' = r\<lparr>rt_transport := \<lparr>imt_queue = q\<rparr>, rt_next_message_id := i, rt_world := w,
      rt_cerr := rt_cerr r @ unwanted_report e\<rparr>)" (is "_ \<longleftrightarrow> ?run")
proof
  assume "drain ac imt_receive imt_empty r = Some r'"
  then show ?run by (rule drain_refines_imt [OF assms])
next
  assume ?run
  then obtain ds e q i w where m: "mail_run (rt_agents r) reply
      (imt_queue (rt_transport r), rt_next_message_id r, rt_world r) ds e (q, i, w)"
    and r': "r' = r\<lparr>rt_transport := \<lparr>imt_queue = q\<rparr>, rt_next_message_id := i, rt_world := w,
      rt_cerr := rt_cerr r @ unwanted_report e\<rparr>" by blast
  from rt_imt.mail_run_drains [OF assms(1) imt_answers_fit m TrueI assms(2) refl refl _ refl refl] r' imt_eta
  show "drain ac imt_receive imt_empty r = Some r'" by metis
qed

text \<open>Agents that answer a message with its payload less the first byte until nothing is left, and
  count in the world what they have got.\<close>

definition countdown :: "(string, nat) reply" where
  "countdown agents a m w = (Suc w, case e_payload (m_event m) of [] \<Rightarrow> []
     | b # p \<Rightarrow> [(m_target m, m_source m, \<lparr>e_name = ''next'', e_payload = p\<rparr>)])"

definition countdown_agents :: "(message \<Rightarrow> 't \<Rightarrow> bool \<times> 't) \<Rightarrow> (string, 't, nat) agent_ops" where
  "countdown_agents snd_op = \<lparr>ag_name = (\<lambda>a. a), ag_on_start = (\<lambda>a r. r),
     ag_on_message = (\<lambda>a m r. publish_all snd_op (snd (countdown (rt_agents r) a m (rt_world r)))
       (r\<lparr>rt_world := fst (countdown (rt_agents r) a m (rt_world r))\<rparr>)),
     ag_on_stop = (\<lambda>a r. r)\<rparr>"

lemma countdown_publishes: "publishing_agents snd_op (countdown_agents snd_op) countdown"
  by (simp add: publishing_agents_def countdown_agents_def)

definition countdown_runtime :: "'t \<Rightarrow> (string, 't, nat) agent_runtime" where
  "countdown_runtime t = \<lparr>rt_agents = [(''A'', ''A''), (''B'', ''B'')], rt_transport = t, rt_running = True,
     rt_next_message_id = 2, rt_world = 0, rt_cerr = []\<rparr>"

definition countdown_message :: "message_id \<Rightarrow> string \<Rightarrow> string \<Rightarrow> string \<Rightarrow> message" where
  "countdown_message i source target p = text_event i source target ''next'' p"

lemma countdown_next:
  "countdown agents a (countdown_message i source target (c # p)) w =
     (Suc w, [(target, source, event_text ''next'' p)])"
  "countdown agents a (countdown_message i source target []) w = (Suc w, [])"
  by (simp_all add: countdown_def countdown_message_def text_event_def event_text_def bytes_of_string_def)

lemma countdown_target [simp]: "m_target (countdown_message i source target p) = target"
  by (simp add: countdown_message_def text_event_def)

lemma countdown_run:
  "mail_run [(''A'', ''A''), (''B'', ''B'')] countdown ([countdown_message 1 ''B'' ''A'' ''xy''], 2, 0)
     [countdown_message 1 ''B'' ''A'' ''xy'', countdown_message 2 ''A'' ''B'' ''y'', countdown_message 3 ''B'' ''A'' []]
     None ([], 4, 3)"
proof -
  let ?A = "[(''A'', ''A''), (''B'', ''B'')]"
  have n: "numbered i [(target, source, event_text ''next'' p)] = [countdown_message i target source p]"
    for i target source p by (simp add: countdown_message_def text_event_def)
  have "mail_run ?A countdown ([] @ numbered 4 [], 4 + of_nat 0, 3) [] None ([], 4, 3)"
    using Delivered [of ?A countdown 4 3] by simp
  then have "mail_run ?A countdown ([countdown_message 3 ''B'' ''A'' []], 4, 2) [countdown_message 3 ''B'' ''A'' []] None ([], 4, 3)"
    by (intro Turn [where a = "''A''" and outs = "[]" and ?w1.0 = 3]) (simp_all add: countdown_next)
  then have "mail_run ?A countdown ([countdown_message 2 ''A'' ''B'' ''y''], 3, 1)
      [countdown_message 2 ''A'' ''B'' ''y'', countdown_message 3 ''B'' ''A'' []] None ([], 4, 3)"
    by (intro Turn [where a = "''B''" and ?w1.0 = 2 and outs = "[(''B'', ''A'', event_text ''next'' [])]"]) (simp_all add: countdown_next n del: numbered_event)
  then show ?thesis
    by (intro Turn [where a = "''A''" and ?w1.0 = 1 and outs = "[(''A'', ''B'', event_text ''next'' ''y'')]"]) (simp_all add: countdown_next n del: numbered_event)
qed

lemma countdown_drains:
  "drain (countdown_agents imt_send) imt_receive imt_empty
     (countdown_runtime \<lparr>imt_queue = [countdown_message 1 ''B'' ''A'' ''xy'']\<rparr>) =
   Some ((countdown_runtime \<lparr>imt_queue = []\<rparr>)\<lparr>rt_next_message_id := 4, rt_world := 3\<rparr>)"
proof -
  let ?r = "countdown_runtime \<lparr>imt_queue = [countdown_message 1 ''B'' ''A'' ''xy'']\<rparr>"
  from rt_imt.mail_run_drains [OF countdown_publishes imt_answers_fit countdown_run, of ?r] obtain t where
    "imt_queue t = []" "drain (countdown_agents imt_send) imt_receive imt_empty ?r =
      Some (?r\<lparr>rt_transport := t, rt_next_message_id := 4, rt_world := 3, rt_cerr := rt_cerr ?r @ unwanted_report None\<rparr>)"
    by (auto simp: countdown_runtime_def)
  then show ?thesis by (cases t) (simp add: countdown_runtime_def unwanted_report_def)
qed

theorem drain_implements_mail_run_witness:
  "drain (countdown_agents imt_send) imt_receive imt_empty
     (countdown_runtime \<lparr>imt_queue = [countdown_message 1 ''B'' ''A'' ''xy'']\<rparr>) =
   Some ((countdown_runtime \<lparr>imt_queue = []\<rparr>)\<lparr>rt_next_message_id := 4, rt_world := 3\<rparr>)"
proof -
  let ?r = "countdown_runtime \<lparr>imt_queue = [countdown_message 1 ''B'' ''A'' ''xy'']\<rparr>"
  have "rt_running ?r" by (simp add: countdown_runtime_def)
  note iff = drain_implements_mail_run [OF countdown_publishes this]
  have m: "mail_run (rt_agents ?r) countdown (imt_queue (rt_transport ?r), rt_next_message_id ?r, rt_world ?r)
      [countdown_message 1 ''B'' ''A'' ''xy'', countdown_message 2 ''A'' ''B'' ''y'', countdown_message 3 ''B'' ''A'' []]
      None ([], 4, 3)"
    using countdown_run by (simp add: countdown_runtime_def)
  show ?thesis unfolding iff
    by (intro exI conjI, rule m) (simp add: countdown_runtime_def unwanted_report_def)
qed

text \<open>C12: Agents that publish events from \<open>on_message\<close>, over the in-memory transport: what a
  \<open>drain\<close> of a running runtime that returns has delivered (\<open>ds\<close>), the message that no agent wanted, if there is one,
  and what is left in the queue are together what was in the queue at first followed by exactly
  the events that the agents published in answer to \<open>ds\<close>, each with its source, target, event
  and the next id, in the order of publication: every message once, none before its
  predecessors. The agents have changed the world one delivery after the other.\<close>

theorem drain_delivers_in_publication_order:
  assumes "publishing_agents imt_send ac reply" and "rt_running r"
    and "drain ac imt_receive imt_empty r = Some r'"
  shows "\<exists>ds lost outs. answers (rt_agents r) reply ds (rt_world r) = (rt_world r', outs) \<and>
    imt_queue (rt_transport r) @ numbered (rt_next_message_id r) outs = ds @ lost @ imt_queue (rt_transport r') \<and>
    rt_next_message_id r' = rt_next_message_id r + of_nat (length outs) \<and>
    (\<forall>m \<in> set ds. has_agent (m_target m) r) \<and>
    (lost = [] \<and> imt_queue (rt_transport r') = [] \<and> rt_cerr r' = rt_cerr r \<or>
     (\<exists>m. lost = [m] \<and> \<not> has_agent (m_target m) r \<and>
        rt_cerr r' = rt_cerr r @ [''[Galculus] runtime error: unknown target agent: '' @ m_target m]))"
proof -
  from drain_refines_imt [OF assms] obtain ds e q i w where m: "mail_run (rt_agents r) reply
      (imt_queue (rt_transport r), rt_next_message_id r, rt_world r) ds e (q, i, w)"
    and r': "r' = r\<lparr>rt_transport := \<lparr>imt_queue = q\<rparr>, rt_next_message_id := i, rt_world := w,
      rt_cerr := rt_cerr r @ unwanted_report e\<rparr>" by blast
  have known: "has_agent n r \<longleftrightarrow> map_of (rt_agents r) n \<noteq> None" for n by (simp add: has_agent_def)
  let ?lost = "case e of None \<Rightarrow> [] | Some m \<Rightarrow> [m]"
  from mail_run_fifo [OF m] obtain outs where s: "answers (rt_agents r) reply ds (rt_world r) = (w, outs)"
    "imt_queue (rt_transport r) @ numbered (rt_next_message_id r) outs = ds @ ?lost @ q"
    "i = rt_next_message_id r + of_nat (length outs)" "\<forall>m \<in> set ds. has_agent (m_target m) r"
    "case e of None \<Rightarrow> q = [] | Some m \<Rightarrow> \<not> has_agent (m_target m) r"
    unfolding addressable_def known by blast
  show ?thesis
    by (rule exI [of _ ds], rule exI [of _ ?lost], rule exI [of _ outs])
      (use s r' in \<open>auto simp: unwanted_report_def split: option.splits\<close>)
qed

text \<open>The agents answer \<open>xy\<close> with \<open>y\<close> and \<open>y\<close> with nothing.\<close>

theorem drain_delivers_in_publication_order_witness:
  "\<exists>ds outs. answers [(''A'', ''A''), (''B'', ''B'')] countdown ds 0 = (3, outs) \<and>
     countdown_message 1 ''B'' ''A'' ''xy'' # numbered 2 outs = ds"
proof -
  let ?r = "countdown_runtime \<lparr>imt_queue = [countdown_message 1 ''B'' ''A'' ''xy'']\<rparr>"
  have r: "rt_running ?r" by (simp add: countdown_runtime_def)
  from drain_delivers_in_publication_order [OF countdown_publishes r countdown_drains] show ?thesis
    by (auto simp: countdown_runtime_def)
qed

text \<open>C20: The transport makes no difference: a runtime over a framed byte transport, with the same agents
  and the frames of the same messages in its queue, drains if and only if the one over the
  in-memory transport does, and then leaves the same world, reports and next id and, encoded,
  the same queue; as long as the messages stay within a bound under which they fit a frame.\<close>

theorem framed_drain_agrees:
  assumes "publishing_agents imt_send ac reply" and "publishing_agents (framed_send imbt_send_bytes) acf reply"
    and "\<forall>m. small m \<longrightarrow> wire_fits m"
    and "\<forall>agents a m w i. small m \<and> map_of agents (m_target m) = Some a \<longrightarrow>
      (\<forall>k \<in> set (numbered i (snd (reply agents a m w))). small k)"
    and "rt_running r" "\<forall>m \<in> set (imt_queue (rt_transport r)). small m"
    and "rt_running rf" "imbt_queue (rt_transport rf) = map wire_encode (imt_queue (rt_transport r))"
    and "rt_agents rf = rt_agents r" "rt_next_message_id rf = rt_next_message_id r" "rt_world rf = rt_world r"
      "rt_cerr rf = rt_cerr r"
  shows "rel_option (\<lambda>r' rf'. rt_world rf' = rt_world r' \<and> rt_cerr rf' = rt_cerr r' \<and>
      rt_next_message_id rf' = rt_next_message_id r' \<and> rt_agents rf' = rt_agents r' \<and>
      map wire_decode (imbt_queue (rt_transport rf')) = map Some (imt_queue (rt_transport r')))
    (drain ac imt_receive imt_empty r)
    (drain acf (framed_receive imbt_receive_bytes) (framed_empty imbt_empty) rf)"
proof -
  have fit: "rt_framed.answers_fit small reply" unfolding rt_framed.answers_fit_def using assms(3,4) by blast
  have c: "map (the \<circ> wire_decode) (imbt_queue (rt_transport rf)) = imt_queue (rt_transport r)"
    and inv: "True \<and> (\<forall>bs \<in> set (imbt_queue (rt_transport rf)). wire_decode bs \<noteq> None)"
    using assms(3,6,8) by (auto simp: wire_round_trip comp_def intro: map_idI)
  have decoded: "map wire_decode bss = map Some q"
    if "True \<and> (\<forall>bs \<in> set bss. wire_decode bs \<noteq> None)" "map (the \<circ> wire_decode) bss = q" for bss q
    using that by auto
  show ?thesis
  proof (cases "drain ac imt_receive imt_empty r")
    case None
    have "drain acf (framed_receive imbt_receive_bytes) (framed_empty imbt_empty) rf = None"
    proof (rule ccontr)
      assume "drain acf (framed_receive imbt_receive_bytes) (framed_empty imbt_empty) rf \<noteq> None"
      then obtain rf' where "drain acf (framed_receive imbt_receive_bytes) (framed_empty imbt_empty) rf = Some rf'" by blast
      from rt_framed.drain_is_mail_run [OF assms(2) fit this inv assms(7)] c assms(6,9-11) obtain ds e q i w where
        "mail_run (rt_agents r) reply (imt_queue (rt_transport r), rt_next_message_id r, rt_world r) ds e (q, i, w)"
        by auto
      from rt_imt.mail_run_drains [OF assms(1) imt_answers_fit this TrueI assms(5)] None show False by auto
    qed
    with None show ?thesis by simp
  next
    case (Some r')
    from drain_refines_imt [OF assms(1,5) Some] obtain ds e q i w where m: "mail_run (rt_agents r) reply
        (imt_queue (rt_transport r), rt_next_message_id r, rt_world r) ds e (q, i, w)"
      and r': "r' = r\<lparr>rt_transport := \<lparr>imt_queue = q\<rparr>, rt_next_message_id := i, rt_world := w,
        rt_cerr := rt_cerr r @ unwanted_report e\<rparr>" by blast
    from rt_framed.mail_run_drains [OF assms(2) fit m inv assms(7,9) c assms(6,10,11)] obtain t where
      "True \<and> (\<forall>bs \<in> set (imbt_queue t). wire_decode bs \<noteq> None)" "map (the \<circ> wire_decode) (imbt_queue t) = q"
      "drain acf (framed_receive imbt_receive_bytes) (framed_empty imbt_empty) rf = Some (rf\<lparr>rt_transport := t,
         rt_next_message_id := i, rt_world := w, rt_cerr := rt_cerr rf @ unwanted_report e\<rparr>)" by blast
    with r' Some decoded show ?thesis by (simp add: assms(9,12))
  qed
qed

definition countdown_small :: "message \<Rightarrow> bool" where
  "countdown_small m \<longleftrightarrow> length (m_source m) + length (m_target m) + length (e_name (m_event m)) +
     length (e_payload (m_event m)) < 1000 \<and> e_name (m_event m) = ''next''"

lemma countdown_small_fits: "\<forall>m. countdown_small m \<longrightarrow> wire_fits m"
  by (simp add: countdown_small_def wire_fits_def fits32_def length_protocol_encode)

lemma countdown_stays_small:
  "\<forall>agents a m w i. countdown_small m \<and> map_of agents (m_target m) = Some a \<longrightarrow>
     (\<forall>k \<in> set (numbered i (snd (countdown agents a m w))). countdown_small k)"
  by (auto simp: countdown_small_def countdown_def split: list.splits)

theorem framed_drain_agrees_witness:
  "\<exists>rf'. drain (countdown_agents (framed_send imbt_send_bytes)) (framed_receive imbt_receive_bytes) (framed_empty imbt_empty)
      (countdown_runtime \<lparr>imbt_queue = [wire_encode (countdown_message 1 ''B'' ''A'' ''xy'')]\<rparr>) = Some rf' \<and>
    rt_world rf' = 3 \<and> imbt_queue (rt_transport rf') = []"
proof -
  let ?r = "countdown_runtime \<lparr>imt_queue = [countdown_message 1 ''B'' ''A'' ''xy'']\<rparr>"
  let ?rf = "countdown_runtime \<lparr>imbt_queue = [wire_encode (countdown_message 1 ''B'' ''A'' ''xy'')]\<rparr>"
  have "countdown_small (countdown_message 1 ''B'' ''A'' ''xy'')"
    by (simp add: countdown_small_def countdown_message_def text_event_def event_text_def)
  then show ?thesis
    using framed_drain_agrees [where small = countdown_small and reply = countdown and r = ?r and rf = ?rf,
      OF countdown_publishes countdown_publishes countdown_small_fits countdown_stays_small] countdown_drains
    by (auto simp: countdown_runtime_def option_rel_Some1)
qed

end
