(* ===== verification/Transport_Threads.thy ===== *)
theory Transport_Threads
  imports Transport "HOL-Library.Sublist"
begin

text \<open>
  The in-memory transports shared by threads. \<open>send\<close>, \<open>receive\<close> and \<open>empty\<close> are small-step programs
  over one mutex and one queue. The queue is no atomic object: a \<open>push\<close> or \<open>pop\<close> first reads it and
  writes it back in a later step, and \<open>front\<close> or \<open>pop\<close> of an empty queue is undefined. Between any
  two steps of a thread other threads may take steps; what keeps them out of each other's way is
  the \<open>lock_guard\<close> alone. An execution is a list of thread numbers, each of which takes its next
  step.
\<close>

section \<open>The operations as they are specified\<close>

datatype 'p channel_op = Op_Send 'p | Op_Receive | Op_Empty

datatype 'p channel_result = Sent bool | Got "'p option" | Was_Empty bool

definition channel_do ::
    "('p \<Rightarrow> 't \<Rightarrow> bool \<times> 't) \<Rightarrow> ('t \<Rightarrow> 'p option \<times> 't) \<Rightarrow> ('t \<Rightarrow> bool) \<Rightarrow> 'p channel_op \<Rightarrow> 't \<Rightarrow>
     'p channel_result \<times> 't" where
  "channel_do snd_op rcv_op empty_op c t =
     (case c of
        Op_Send m \<Rightarrow> (case snd_op m t of (b, t) \<Rightarrow> (Sent b, t))
      | Op_Receive \<Rightarrow> (case rcv_op t of (r, t) \<Rightarrow> (Got r, t))
      | Op_Empty \<Rightarrow> (Was_Empty (empty_op t), t))"

text \<open>A log has an entry for each operation that has returned: thread, operation, result.\<close>

type_synonym 'p channel_log = "(nat \<times> 'p channel_op \<times> 'p channel_result) list"

text \<open>A log is sequential if its results are those of its operations, one after the other.\<close>

fun sequential ::
    "('p channel_op \<Rightarrow> 't \<Rightarrow> 'p channel_result \<times> 't) \<Rightarrow> 'p channel_log \<Rightarrow> 't \<Rightarrow> 't \<Rightarrow> bool" where
  "sequential act [] t t' \<longleftrightarrow> t' = t"
| "sequential act ((i, c, r) # log) t t' \<longleftrightarrow>
     fst (act c t) = r \<and> sequential act log (snd (act c t)) t'"

definition ops_of :: "nat \<Rightarrow> 'p channel_log \<Rightarrow> 'p channel_op list" where
  "ops_of i log = map (fst \<circ> snd) (filter (\<lambda>e. fst e = i) log)"

definition results_of :: "nat \<Rightarrow> 'p channel_log \<Rightarrow> 'p channel_result list" where
  "results_of i log = map (snd \<circ> snd) (filter (\<lambda>e. fst e = i) log)"

fun sent_by :: "'p channel_op list \<Rightarrow> 'p list" where
  "sent_by [] = []"
| "sent_by (Op_Send m # cs) = m # sent_by cs"
| "sent_by (_ # cs) = sent_by cs"

fun received :: "'p channel_result list \<Rightarrow> 'p list" where
  "received [] = []"
| "received (Got (Some m) # rs) = m # received rs"
| "received (_ # rs) = received rs"

definition log_sent :: "'p channel_log \<Rightarrow> 'p list" where
  "log_sent log = sent_by (map (fst \<circ> snd) log)"

definition log_received :: "'p channel_log \<Rightarrow> 'p list" where
  "log_received log = received (map (snd \<circ> snd) log)"

lemma log_simps [simp]:
  "log_sent [] = []" "log_received [] = []" "ops_of i [] = []" "results_of i [] = []"
  "log_sent (e # log) = sent_by [fst (snd e)] @ log_sent log"
  "log_received (e # log) = received [snd (snd e)] @ log_received log"
  "ops_of i (e # log) = (if fst e = i then [fst (snd e)] else []) @ ops_of i log"
  "results_of i (e # log) = (if fst e = i then [snd (snd e)] else []) @ results_of i log"
proof -
  show "log_sent (e # log) = sent_by [fst (snd e)] @ log_sent log"
    by (cases "fst (snd e)") (simp_all add: log_sent_def)
  show "log_received (e # log) = received [snd (snd e)] @ log_received log"
    by (cases "snd (snd e)" rule: channel_result.exhaust; cases "\<exists>m. snd (snd e) = Got (Some m)")
       (auto simp: log_received_def elim: received.elims)
qed (simp_all add: log_sent_def log_received_def ops_of_def results_of_def)

lemma sent_by_ops_of: "subseq (sent_by (ops_of i log)) (log_sent log)"
proof (induction log)
  case (Cons e log)
  then show ?case by (cases "fst (snd e)") auto
qed simp

lemma received_results_of: "subseq (received (results_of i log)) (log_received log)"
proof (induction log)
  case (Cons e log)
  show ?case
  proof (cases "\<exists>m. snd (snd e) = Got (Some m)")
    case False
    then have "received (snd (snd e) # rs) = received rs" for rs
      by (cases "snd (snd e)") (auto elim: option.exhaust)
    with Cons.IH show ?thesis by simp
  qed (use Cons.IH in auto)
qed simp

context fifo_channel begin

lemma channel_do_fifo:
  assumes "invar t" "\<forall>m \<in> set (sent_by [c]). accepts m" "channel_do snd_op rcv_op empty_op c t = (r, t')"
  shows "invar t' \<and> contents t @ sent_by [c] = received [r] @ contents t'"
proof (cases c)
  case (Op_Send m)
  with send_appends [OF assms(1), of m] assms(2,3) show ?thesis
    by (auto simp: channel_do_def split: prod.splits)
next
  case Op_Receive
  with assms(3) obtain x where x: "rcv_op t = (x, t')" "r = Got x"
    by (auto simp: channel_do_def split: prod.splits)
  from receive_pops [OF assms(1) x(1)] x(2) Op_Receive show ?thesis by (cases "contents t") auto
qed (use assms in \<open>auto simp: channel_do_def\<close>)

lemma sequential_fifo:
  "invar t \<Longrightarrow> \<forall>m \<in> set (log_sent log). accepts m \<Longrightarrow>
     sequential (channel_do snd_op rcv_op empty_op) log t t' \<Longrightarrow>
     contents t @ log_sent log = log_received log @ contents t'"
proof (induction log arbitrary: t)
  case (Cons e log)
  obtain i c r where e: "e = (i, c, r)" by (cases e) auto
  obtain t1 where t1: "channel_do snd_op rcv_op empty_op c t = (r, t1)"
    using Cons.prems(3) e by (metis sequential.simps(2) prod.collapse)
  from channel_do_fifo [OF Cons.prems(1) _ t1] Cons.prems(2) e
  have 1: "invar t1" "contents t @ sent_by [c] = received [r] @ contents t1" by auto
  with Cons.IH [OF 1(1)] Cons.prems(2,3) e t1 have "contents t1 @ log_sent log = log_received log @ contents t'"
    by simp
  with 1(2) e show ?case by (metis append.assoc fst_conv snd_conv log_simps(5,6))
qed simp

end

section \<open>Threads and the mutex\<close>

text \<open>Where a thread is within an operation, with the local copies it has made.\<close>

datatype 'p location =
    Outside
  | Locked
  | Push_Write "'p list"
  | At_Front
  | Pop_Read 'p
  | Pop_Write 'p "'p list"
  | Returning "'p channel_result"

text \<open>The statements of an operation after the construction of its \<open>lock_guard\<close> and before the
  destruction: one access to the queue each. \<open>None\<close> is undefined behaviour.\<close>

fun op_step :: "'p channel_op \<Rightarrow> 'p location \<Rightarrow> 'p list \<Rightarrow> ('p location \<times> 'p list) option" where
  "op_step (Op_Send m) Locked q = Some (Push_Write q, q)"
| "op_step (Op_Send m) (Push_Write copy) q = Some (Returning (Sent True), copy @ [m])"
| "op_step Op_Receive Locked q = Some (if q = [] then Returning (Got None) else At_Front, q)"
| "op_step Op_Receive At_Front q = (case q of [] \<Rightarrow> None | m # _ \<Rightarrow> Some (Pop_Read m, q))"
| "op_step Op_Receive (Pop_Read m) q = Some (Pop_Write m q, q)"
| "op_step Op_Receive (Pop_Write m copy) q =
     (case copy of [] \<Rightarrow> None | _ # rest \<Rightarrow> Some (Returning (Got (Some m)), rest))"
| "op_step Op_Empty Locked q = Some (Returning (Was_Empty (q = [])), q)"
| "op_step _ _ _ = None"

record 'p thread =
  todo :: "'p channel_op list"
  at_location :: "'p location"
  results :: "'p channel_result list"

record 'p shared_transport =
  mutex_owner :: "nat option"
  shared_queue :: "'p list"
  threads :: "nat \<Rightarrow> 'p thread"
  undefined_behaviour :: bool

text \<open>A step of thread \<open>i\<close>: a thread that wants the mutex and does not get it waits.\<close>

definition thread_step :: "nat \<Rightarrow> 'p shared_transport \<Rightarrow> 'p shared_transport" where
  "thread_step i s =
     (let me = threads s i in
      case todo me of
        [] \<Rightarrow> s
      | c # cs \<Rightarrow>
          (case at_location me of
             Outside \<Rightarrow>
               (case mutex_owner s of
                  Some _ \<Rightarrow> s
                | None \<Rightarrow> s\<lparr>mutex_owner := Some i, threads := (threads s)(i := me\<lparr>at_location := Locked\<rparr>)\<rparr>)
           | Returning r \<Rightarrow>
               s\<lparr>mutex_owner := None,
                 threads := (threads s)(i := \<lparr>todo = cs, at_location = Outside, results = results me @ [r]\<rparr>)\<rparr>
           | l \<Rightarrow>
               (case op_step c l (shared_queue s) of
                  None \<Rightarrow> s\<lparr>undefined_behaviour := True\<rparr>
                | Some (l', q') \<Rightarrow>
                    s\<lparr>shared_queue := q', threads := (threads s)(i := me\<lparr>at_location := l'\<rparr>)\<rparr>)))"

definition returns :: "nat \<Rightarrow> 'p shared_transport \<Rightarrow> 'p channel_log" where
  "returns i s =
     (case (todo (threads s i), at_location (threads s i)) of
        (c # cs, Returning r) \<Rightarrow> [(i, c, r)]
      | _ \<Rightarrow> [])"

text \<open>An execution: the state it ends in and the log of the operations that returned in it.\<close>

fun execution :: "nat list \<Rightarrow> 'p shared_transport \<Rightarrow> 'p channel_log \<times> 'p shared_transport" where
  "execution [] s = ([], s)"
| "execution (i # is) s =
     (case execution is (thread_step i s) of (log, s') \<Rightarrow> (returns i s @ log, s'))"

definition start_threads :: "'p list \<Rightarrow> (nat \<Rightarrow> 'p channel_op list) \<Rightarrow> 'p shared_transport" where
  "start_threads q prog =
     \<lparr>mutex_owner = None, shared_queue = q,
      threads = (\<lambda>i. \<lparr>todo = prog i, at_location = Outside, results = []\<rparr>),
      undefined_behaviour = False\<rparr>"

section \<open>Mutual exclusion\<close>

text \<open>What the owner of the mutex knows, if \<open>q0\<close> was the queue when it took the mutex.\<close>

fun inside :: "'p channel_op \<Rightarrow> 'p location \<Rightarrow> 'p list \<Rightarrow> 'p list \<Rightarrow> bool" where
  "inside c Locked q0 q \<longleftrightarrow> q = q0"
| "inside (Op_Send m) (Push_Write copy) q0 q \<longleftrightarrow> q = q0 \<and> copy = q0"
| "inside (Op_Send m) (Returning r) q0 q \<longleftrightarrow> q = q0 @ [m] \<and> r = Sent True"
| "inside Op_Receive At_Front q0 q \<longleftrightarrow> q = q0 \<and> q0 \<noteq> []"
| "inside Op_Receive (Pop_Read m) q0 q \<longleftrightarrow> q = q0 \<and> (\<exists>ms. q0 = m # ms)"
| "inside Op_Receive (Pop_Write m copy) q0 q \<longleftrightarrow> q = q0 \<and> copy = q0 \<and> (\<exists>ms. q0 = m # ms)"
| "inside Op_Receive (Returning r) q0 q \<longleftrightarrow>
     q = tl q0 \<and> r = Got (case q0 of [] \<Rightarrow> None | m # _ \<Rightarrow> Some m)"
| "inside Op_Empty (Returning r) q0 q \<longleftrightarrow> q = q0 \<and> r = Was_Empty (q0 = [])"
| "inside _ _ _ _ \<longleftrightarrow> False"

text \<open>Every thread but the owner of the mutex is outside of its operations; \<open>q0\<close> is the queue
  that the returned operations have left.\<close>

definition exclusive :: "'p list \<Rightarrow> 'p shared_transport \<Rightarrow> bool" where
  "exclusive q0 s \<longleftrightarrow>
     \<not> undefined_behaviour s \<and>
     (\<forall>i. mutex_owner s \<noteq> Some i \<longrightarrow> at_location (threads s i) = Outside) \<and>
     (case mutex_owner s of
        None \<Rightarrow> shared_queue s = q0
      | Some i \<Rightarrow> (\<exists>c cs. todo (threads s i) = c # cs \<and>
          inside c (at_location (threads s i)) q0 (shared_queue s)))"

lemma exclusive_start: "exclusive q (start_threads q prog)"
  by (simp add: exclusive_def start_threads_def)

lemma inside_step:
  assumes "inside c l q0 q" "\<And>r. l \<noteq> Returning r"
  shows "\<exists>l' q'. op_step c l q = Some (l', q') \<and> inside c l' q0 q' \<and> l' \<noteq> Outside"
  using assms by (cases c; cases l; cases q0; simp)

lemma step_blocked:
  assumes "exclusive q0 s" "mutex_owner s = Some j" "i \<noteq> j"
  shows "thread_step i s = s" "returns i s = []"
  using assms by (auto simp: exclusive_def thread_step_def returns_def Let_def split: list.splits)

text \<open>The steps that are not blocked: taking the mutex, a statement of the owner, its return.\<close>

lemma step_cases:
  assumes x: "exclusive q0 s"
  obtains (idle) "thread_step i s = s" "returns i s = []"
      "todo (threads s i) = [] \<or> (\<exists>j. j \<noteq> i \<and> mutex_owner s = Some j)"
  | (lock) c cs where "todo (threads s i) = c # cs" "at_location (threads s i) = Outside"
      "mutex_owner s = None" "shared_queue s = q0" "returns i s = []"
      "thread_step i s = s\<lparr>mutex_owner := Some i,
         threads := (threads s)(i := (threads s i)\<lparr>at_location := Locked\<rparr>)\<rparr>"
  | (inner) c cs l' q' where "todo (threads s i) = c # cs" "mutex_owner s = Some i"
      "op_step c (at_location (threads s i)) (shared_queue s) = Some (l', q')"
      "inside c l' q0 q'" "returns i s = []"
      "thread_step i s = s\<lparr>shared_queue := q',
         threads := (threads s)(i := (threads s i)\<lparr>at_location := l'\<rparr>)\<rparr>"
  | (return) c cs r where "todo (threads s i) = c # cs" "mutex_owner s = Some i"
      "at_location (threads s i) = Returning r" "inside c (Returning r) q0 (shared_queue s)"
      "returns i s = [(i, c, r)]"
      "thread_step i s = s\<lparr>mutex_owner := None, threads := (threads s)(i :=
         \<lparr>todo = cs, at_location = Outside, results = results (threads s i) @ [r]\<rparr>)\<rparr>"
proof (cases "mutex_owner s")
  case None
  with x have out: "at_location (threads s i) = Outside" and q: "shared_queue s = q0"
    by (auto simp: exclusive_def)
  with None out have l: "thread_step i s = s\<lparr>mutex_owner := Some i,
      threads := (threads s)(i := (threads s i)\<lparr>at_location := Locked\<rparr>)\<rparr>" "returns i s = []"
    if "todo (threads s i) = c # cs" for c cs
    using that by (simp_all add: thread_step_def returns_def)
  show thesis
  proof (cases "todo (threads s i)")
    case Nil
    then have "thread_step i s = s" "returns i s = []" by (simp_all add: thread_step_def returns_def)
    with idle Nil show thesis by simp
  next
    case (Cons c cs)
    from lock [OF Cons out None q l(2) [OF Cons] l(1) [OF Cons]] show thesis .
  qed
next
  case (Some j)
  show thesis
  proof (cases "i = j")
    case False
    with Some have "todo (threads s i) = [] \<or> (\<exists>j. j \<noteq> i \<and> mutex_owner s = Some j)" by simp
      from idle [OF step_blocked [OF x Some False] this] show thesis .
  next
    case True
    from x Some True obtain c cs where t: "todo (threads s i) = c # cs"
      "inside c (at_location (threads s i)) q0 (shared_queue s)"
      by (auto simp: exclusive_def)
    show thesis
    proof (cases "\<exists>r. at_location (threads s i) = Returning r")
      case r: True
      then obtain r where r: "at_location (threads s i) = Returning r" by blast
      with t(2) have "inside c (Returning r) q0 (shared_queue s)" by simp
      from return [OF t(1) _ r this] t Some True r show thesis by (simp add: thread_step_def returns_def)
    next
      case False
      with inside_step [OF t(2)] obtain l' q' where l: "inside c l' q0 q'"
        "op_step c (at_location (threads s i)) (shared_queue s) = Some (l', q')" by blast
      from t(2) have "at_location (threads s i) \<noteq> Outside" by (cases c) auto
      with t(1) False l(2) have "thread_step i s = s\<lparr>shared_queue := q',
          threads := (threads s)(i := (threads s i)\<lparr>at_location := l'\<rparr>)\<rparr>" "returns i s = []"
        by (cases "at_location (threads s i)"; simp add: thread_step_def returns_def)+
      with inner [OF t(1) _ l(2,1)] Some True show thesis by simp
    qed
  qed
qed

section \<open>Executions are sequential in the order of return\<close>

text \<open>An object whose methods hold one mutex and whose laws hold in all states.\<close>

locale locked_channel =
  fifo_channel snd_op rcv_op empty_op contents "\<lambda>_. True" "\<lambda>_. True"
  for snd_op :: "'p \<Rightarrow> 't \<Rightarrow> bool \<times> 't" and rcv_op empty_op contents
begin

abbreviation act :: "'p channel_op \<Rightarrow> 't \<Rightarrow> 'p channel_result \<times> 't" where
  "act \<equiv> channel_do snd_op rcv_op empty_op"

lemma inside_returning:
  assumes "inside c (Returning r) (contents t) q"
  shows "\<exists>t'. act c t = (r, t') \<and> contents t' = q"
proof (cases c)
  case (Op_Send m)
  with assms send_appends [where t = t and x = m] show ?thesis by (cases "snd_op m t") (auto simp: channel_do_def)
next
  case Op_Receive
  with assms receive_pops [where t = t] show ?thesis by (cases "rcv_op t") (auto simp: channel_do_def)
next
  case Op_Empty
  with assms empty_iff [where t = t] show ?thesis by (auto simp: channel_do_def)
qed

lemma step_linear:
  assumes x: "exclusive (contents t) s"
  shows "\<exists>t'. sequential act (returns i s) t t' \<and> exclusive (contents t') (thread_step i s) \<and>
    (\<forall>j. todo (threads s j) = ops_of j (returns i s) @ todo (threads (thread_step i s) j) \<and>
      results (threads (thread_step i s) j) = results (threads s j) @ results_of j (returns i s))"
  using x
proof (cases rule: step_cases [of _ _ i])
  case idle
  with x show ?thesis by auto
next
  case lock
  with x have "exclusive (contents t) (thread_step i s)" by (auto simp: exclusive_def)
  with lock show ?thesis by auto
next
  case inner
  with x have "exclusive (contents t) (thread_step i s)" by (auto simp: exclusive_def)
  with inner show ?thesis by auto
next
  case (return c cs r)
  from inside_returning [OF return(4)] obtain t' where t': "act c t = (r, t')" "contents t' = shared_queue s"
    by blast
  with x return have "exclusive (contents t') (thread_step i s)" by (auto simp: exclusive_def)
  with t' return show ?thesis by auto
qed

lemma execution_linear:
  "exclusive (contents t) s \<Longrightarrow> execution is s = (log, s') \<Longrightarrow>
     \<exists>t'. sequential act log t t' \<and> exclusive (contents t') s' \<and>
       (\<forall>j. todo (threads s j) = ops_of j log @ todo (threads s' j) \<and>
         results (threads s' j) = results (threads s j) @ results_of j log)"
proof (induction "is" arbitrary: t s log)
  case (Cons i "is")
  obtain log1 where e: "execution is (thread_step i s) = (log1, s')" "log = returns i s @ log1"
    using Cons.prems(2) by (auto split: prod.splits)
  from step_linear [OF Cons.prems(1), of i] obtain t1 where t1:
    "sequential act (returns i s) t t1" "exclusive (contents t1) (thread_step i s)"
    "\<And>j. todo (threads s j) = ops_of j (returns i s) @ todo (threads (thread_step i s) j)"
    "\<And>j. results (threads (thread_step i s) j) = results (threads s j) @ results_of j (returns i s)"
    by blast
  from Cons.IH [OF t1(2) e(1)] obtain t2 where t2: "sequential act log1 t1 t2" "exclusive (contents t2) s'"
    "\<And>j. todo (threads (thread_step i s) j) = ops_of j log1 @ todo (threads s' j)"
    "\<And>j. results (threads s' j) = results (threads (thread_step i s) j) @ results_of j log1"
    by blast
  have "sequential act log t t2"
    using t1(1) t2(1) e(2) by (auto simp: returns_def split: list.splits location.splits)
  with t2 t1 e(2) show ?case by (auto simp: ops_of_def results_of_def)
qed auto

text \<open>What an execution from free threads comes to.\<close>

lemma shared_fifo:
  assumes "execution is (start_threads (contents t) prog) = (log, s)"
  shows "\<exists>t'. \<not> undefined_behaviour s \<and> sequential act log t t' \<and>
    contents t @ log_sent log = log_received log @ contents t' \<and>
    (case mutex_owner s of None \<Rightarrow> shared_queue s = contents t' | Some i \<Rightarrow> todo (threads s i) \<noteq> []) \<and>
    (\<forall>i. prog i = ops_of i log @ todo (threads s i) \<and> results (threads s i) = results_of i log \<and>
      subseq (sent_by (ops_of i log)) (log_sent log) \<and>
      subseq (received (results (threads s i))) (log_received log))"
proof -
  from execution_linear [OF exclusive_start assms] obtain t' where t': "sequential act log t t'"
    "exclusive (contents t') s" "\<forall>j. prog j = ops_of j log @ todo (threads s j)"
    "\<forall>j. results (threads s j) = results_of j log"
    by (auto simp: start_threads_def)
  with sequential_fifo [OF TrueI _ t'(1)] sent_by_ops_of received_results_of show ?thesis
    by (intro exI [of _ t']) (auto simp: exclusive_def split: option.splits)
qed

end

interpretation imt_locked: locked_channel imt_send imt_receive imt_empty imt_queue
  by unfold_locales

interpretation imbt_locked: locked_channel imbt_send_bytes imbt_receive_bytes imbt_empty imbt_queue
  by unfold_locales

section \<open>No deadlock\<close>

text \<open>How many steps a thread has left at most.\<close>

fun location_rank :: "'p location \<Rightarrow> nat" where
  "location_rank Outside = 6"
| "location_rank Locked = 5"
| "location_rank At_Front = 4"
| "location_rank (Pop_Read _) = 3"
| "location_rank (Push_Write _) = 2"
| "location_rank (Pop_Write _ _) = 2"
| "location_rank (Returning _) = 1"

definition thread_work :: "'p thread \<Rightarrow> nat" where
  "thread_work t = (case todo t of [] \<Rightarrow> 0 | _ # cs \<Rightarrow> 6 * length cs + location_rank (at_location t))"

definition work :: "nat \<Rightarrow> 'p shared_transport \<Rightarrow> nat" where
  "work n s = (\<Sum>i<n. thread_work (threads s i))"

lemma thread_work_0: "thread_work t = 0 \<longleftrightarrow> todo t = []"
  by (cases "at_location t") (auto simp: thread_work_def split: list.splits)

lemma work_0: "work n s = 0 \<longleftrightarrow> (\<forall>i<n. todo (threads s i) = [])"
  by (auto simp: work_def thread_work_0)

lemma op_step_rank: "op_step c l q = Some (l', q') \<Longrightarrow> location_rank l' < location_rank l"
  by (cases c; cases l) (auto split: list.splits if_splits)

lemma exclusive_step:
  assumes x: "exclusive q0 s"
  shows "\<exists>q1. exclusive q1 (thread_step i s)"
  using x
proof (cases rule: step_cases [of _ _ i])
  case (return c cs r)
  with x have "exclusive (shared_queue s) (thread_step i s)" by (auto simp: exclusive_def)
  then show ?thesis by blast
qed (use x in \<open>auto simp: exclusive_def\<close>)

lemma step_work:
  assumes x: "exclusive q0 s"
  shows "thread_step i s = s \<and> (todo (threads s i) = [] \<or> (\<exists>j. j \<noteq> i \<and> mutex_owner s = Some j)) \<or>
    todo (threads s i) \<noteq> [] \<and> (\<exists>t. threads (thread_step i s) = (threads s)(i := t) \<and>
      thread_work t < thread_work (threads s i))"
  using x
proof (cases rule: step_cases [of _ _ i])
  case (inner c cs l' q')
  with op_step_rank [OF inner(3)] show ?thesis by (auto simp: thread_work_def)
next
  case (return c cs r)
  then show ?thesis by (auto simp: thread_work_def split: list.splits)
qed (auto simp: thread_work_def)

text \<open>Thread numbers from \<open>n\<close> on stand for no thread.\<close>

definition only_threads :: "nat \<Rightarrow> 'p shared_transport \<Rightarrow> bool" where
  "only_threads n s \<longleftrightarrow> (\<forall>i \<ge> n. todo (threads s i) = [])"

lemma step_progress:
  assumes "exclusive q0 s" "only_threads n s"
  shows "only_threads n (thread_step i s) \<and>
    (thread_step i s = s \<and> (todo (threads s i) = [] \<or> (\<exists>j. j \<noteq> i \<and> mutex_owner s = Some j)) \<or>
     work n (thread_step i s) < work n s)"
proof (cases "thread_step i s = s \<and> (todo (threads s i) = [] \<or> (\<exists>j. j \<noteq> i \<and> mutex_owner s = Some j))")
  case False
  with step_work [OF assms(1), of i] obtain t where t: "threads (thread_step i s) = (threads s)(i := t)"
    "todo (threads s i) \<noteq> []" "thread_work t < thread_work (threads s i)" by blast
  from t(2) assms(2) have i: "i < n" by (meson not_le only_threads_def)
  then have "(\<Sum>j \<in> {..<n} - {i}. thread_work (threads (thread_step i s) j)) =
      (\<Sum>j \<in> {..<n} - {i}. thread_work (threads s j))"
    by (intro sum.cong) (auto simp: t(1))
  with t(1,3) i have "work n (thread_step i s) < work n s"
    by (simp add: work_def sum.remove [of "{..<n}" i])
  with t(1) i assms(2) show ?thesis by (auto simp: only_threads_def)
qed (use assms in simp)

lemma round_progress:
  "exclusive q0 s \<Longrightarrow> only_threads n s \<Longrightarrow>
     (\<exists>q1. exclusive q1 (fold thread_step is s)) \<and> only_threads n (fold thread_step is s) \<and>
     (fold thread_step is s = s \<and>
        (\<forall>i \<in> set is. todo (threads s i) = [] \<or> (\<exists>j. j \<noteq> i \<and> mutex_owner s = Some j)) \<or>
      work n (fold thread_step is s) < work n s)"
proof (induction "is" arbitrary: q0 s)
  case (Cons i "is")
  from exclusive_step [OF Cons.prems(1)] obtain q1 where q1: "exclusive q1 (thread_step i s)" by blast
  note p = step_progress [OF Cons.prems, of i]
  from Cons.IH [OF q1] p show ?case by fastforce
qed auto

text \<open>In a round in which every thread takes a step, one of them gets on.\<close>

lemma full_round_progress:
  assumes "exclusive q0 s" "only_threads n s" "{..<n} \<subseteq> set is" "0 < work n s"
  shows "work n (fold thread_step is s) < work n s"
proof (rule ccontr)
  assume "\<not> ?thesis"
  with round_progress [OF assms(1,2), of "is"] assms(3)
  have b: "todo (threads s i) = [] \<or> (\<exists>j. j \<noteq> i \<and> mutex_owner s = Some j)" if "i < n" for i
    using that by blast
  from assms(4) obtain i where i: "i < n" "todo (threads s i) \<noteq> []" by (metis neq0_conv work_0)
  with b obtain j where j: "mutex_owner s = Some j" by blast
  with assms(1) have "todo (threads s j) \<noteq> []" by (auto simp: exclusive_def)
  with j b [of j] assms(2) show False by (metis not_le only_threads_def option.inject)
qed

lemma rounds_finish:
  "exclusive q0 s \<Longrightarrow> only_threads n s \<Longrightarrow> \<forall>r \<in> set rounds. {..<n} \<subseteq> set r \<Longrightarrow>
     work n s \<le> length rounds \<Longrightarrow> work n (fold thread_step (concat rounds) s) = 0"
proof (induction rounds arbitrary: q0 s)
  case (Cons r rounds)
  from round_progress [OF Cons.prems(1,2), of r] obtain q1 where
    1: "exclusive q1 (fold thread_step r s)" "only_threads n (fold thread_step r s)" by blast
  have "work n (fold thread_step r s) \<le> length rounds"
    using round_progress [OF Cons.prems(1,2), of r] full_round_progress [OF Cons.prems(1,2), of r] Cons.prems(3,4)
    by (cases "work n s") auto
  from Cons.IH [OF 1 _ this] Cons.prems(3) show ?case by simp
qed simp

lemma execution_fold: "snd (execution is s) = fold thread_step is s"
proof (induction "is" arbitrary: s)
  case (Cons i "is")
  then show ?case by (cases "execution is (thread_step i s)") (metis execution.simps(2) fold_simps(2) prod.case snd_conv)
qed simp

lemma work_start: "work n (start_threads q prog) = 6 * (\<Sum>i<n. length (prog i))"
proof -
  have "thread_work \<lparr>todo = cs, at_location = Outside, results = []\<rparr> = 6 * length cs"
    for cs :: "'a channel_op list" by (cases cs) (simp_all add: thread_work_def)
  then show ?thesis by (simp add: work_def start_threads_def sum_distrib_left)
qed

section \<open>Properties\<close>

text \<open>C18: However the steps of any number of threads that call \<open>send\<close>, \<open>receive\<close> and \<open>empty\<close> of one
  \<open>InMemoryTransport\<close> are interleaved, where a \<open>push\<close> or \<open>pop\<close> takes two steps and only the
  \<open>lock_guard\<close> keeps other threads out: no \<open>front\<close> or \<open>pop\<close> hits an empty queue; each operation
  returns what it would return if the operations were called one after the other in the order
  in which they returned; no message is lost, duplicated or overtaken, that is, what was there
  followed by what was sent is what was received followed by what is left, which is what the
  queue holds when the mutex is free. Each thread has called a prefix of its program and got the
  results that the log has for it, and what one thread sends (or receives) is sent (received) in
  the order of its program.\<close>

theorem shared_transport_fifo:
  assumes "execution is (start_threads q prog) = (log, s)"
  shows "\<not> undefined_behaviour s \<and>
    (\<exists>t. sequential (channel_do imt_send imt_receive imt_empty) log \<lparr>imt_queue = q\<rparr> t \<and>
      q @ log_sent log = log_received log @ imt_queue t \<and>
      (mutex_owner s = None \<longrightarrow> shared_queue s = imt_queue t)) \<and>
    (\<forall>i. prog i = ops_of i log @ todo (threads s i) \<and> results (threads s i) = results_of i log \<and>
      subseq (sent_by (ops_of i log)) (log_sent log) \<and>
      subseq (received (results (threads s i))) (log_received log))"
  using imt_locked.shared_fifo [of "is" "\<lparr>imt_queue = q\<rparr>" prog log s] assms by auto

text \<open>Thread 1 asks for the mutex while thread 0 is in the middle of \<open>push\<close>, and waits.\<close>

definition sender_and_receiver :: "message \<Rightarrow> nat \<Rightarrow> message channel_op list" where
  "sender_and_receiver m i = (if i = 0 then [Op_Send m] else if i = 1 then [Op_Receive, Op_Empty] else [])"

theorem shared_transport_fifo_witness:
  "\<exists>log s (t :: in_memory_transport). execution [0, 0, 1, 0, 1, 0, 1, 1, 1, 1, 1, 1, 1] (start_threads [] (sender_and_receiver sample_message)) = (log, s) \<and>
     log = [(0, Op_Send sample_message, Sent True), (1, Op_Receive, Got (Some sample_message))] \<and>
     [] @ log_sent log = log_received log @ imt_queue t \<and> [Op_Receive, Op_Empty] = ops_of 1 log @ todo (threads s 1)"
proof -
  let ?is = "[0, 0, 1, 0, 1, 0, 1, 1, 1, 1, 1, 1, 1 :: nat]"
  let ?s = "start_threads [] (sender_and_receiver sample_message)"
  obtain log s where e: "execution ?is ?s = (log, s)" by fastforce
  have one: "sender_and_receiver sample_message 1 = [Op_Receive, Op_Empty]"
    by (simp add: sender_and_receiver_def)
  have "log = [(0, Op_Send sample_message, Sent True), (1, Op_Receive, Got (Some sample_message))]"
    using e by (simp add: start_threads_def sender_and_receiver_def thread_step_def returns_def)
  then show ?thesis
    using shared_transport_fifo [OF e] one [symmetric] e
    by metis
qed

text \<open>C29: Threads that share an \<open>InMemoryTransport\<close> do not block each other for ever: when \<open>n\<close> threads
  run programs of \<open>send\<close>, \<open>receive\<close> and \<open>empty\<close>, then after at most six times as many rounds as
  they have calls to make, in each of which every thread gets at least one step in any order,
  every thread has finished its program and got a result for every call, and the mutex is free.\<close>

theorem shared_transport_threads_finish:
  assumes "\<forall>i \<ge> n. prog i = []"
    and "\<forall>r \<in> set rounds. {..<n} \<subseteq> set r" "6 * (\<Sum>i<n. length (prog i)) \<le> length rounds"
    and "execution (concat rounds) (start_threads q prog) = (log, s)"
  shows "mutex_owner s = None \<and> (\<exists>t. sequential (channel_do imt_send imt_receive imt_empty) log \<lparr>imt_queue = q\<rparr> t \<and>
      shared_queue s = imt_queue t) \<and>
    (\<forall>i. todo (threads s i) = [] \<and> ops_of i log = prog i \<and> length (results (threads s i)) = length (prog i))"
proof -
  let ?s = "start_threads q prog"
  have o: "only_threads n ?s" using assms(1) by (simp add: only_threads_def start_threads_def)
  have s: "s = fold thread_step (concat rounds) ?s" using execution_fold [of "concat rounds" ?s] assms(4) by simp
  with rounds_finish [OF exclusive_start o assms(2)] assms(3) have "work n s = 0" by (simp add: work_start)
  moreover have "only_threads n s" using round_progress [OF exclusive_start o] s by blast
  ultimately have d: "todo (threads s i) = []" for i
    by (cases "i < n") (simp_all add: work_0 only_threads_def)
  have "length (results_of i log) = length (ops_of i log)" for i by (simp add: results_of_def ops_of_def)
  with imt_locked.shared_fifo [of "concat rounds" "\<lparr>imt_queue = q\<rparr>" prog log s] assms(4) d show ?thesis
    by (auto split: option.splits)
qed

theorem shared_transport_threads_finish_witness:
  "\<exists>log s. execution (concat (replicate 18 [1, 0])) (start_threads [] (sender_and_receiver sample_message)) = (log, s) \<and>
     mutex_owner s = None \<and> todo (threads s 0) = [] \<and> length (results (threads s 1)) = 2"
proof -
  let ?s = "start_threads [] (sender_and_receiver sample_message)"
  obtain log s where e: "execution (concat (replicate 18 [1, 0])) ?s = (log, s)" by fastforce
  have "{..<2} \<subseteq> set [1, 0 :: nat]" "(\<Sum>i<2. length (sender_and_receiver sample_message i)) = 3"
    by (auto simp: sender_and_receiver_def numeral_2_eq_2)
  then have "mutex_owner s = None" "\<forall>i. todo (threads s i) = [] \<and>
      length (results (threads s i)) = length (sender_and_receiver sample_message i)"
    using shared_transport_threads_finish [OF _ _ _ e, of 2] by (auto simp: sender_and_receiver_def)
  with e show ?thesis by (auto simp: sender_and_receiver_def)
qed

text \<open>The same holds of frames: threads that send messages through framed transports over one
  shared \<open>InMemoryByteTransport\<close>, where encoding and decoding take place outside of the mutex.\<close>

lemma log_sent_ops: "bs \<in> set (log_sent log) \<Longrightarrow> \<exists>i. bs \<in> set (sent_by (ops_of i log))"
proof (induction log)
  case (Cons e log)
  then show ?case
    by (cases "bs \<in> set (log_sent log)"; cases "fst (snd e)") (fastforce intro: exI [of _ "fst e"])+
qed simp

definition frame_op :: "message channel_op \<Rightarrow> bytes channel_op" where
  "frame_op = map_channel_op wire_encode"

theorem shared_framed_transport_fifo:
  assumes "execution is (start_threads [] (\<lambda>i. map frame_op (prog i))) = (log, s)"
    and "\<forall>i. \<forall>m \<in> set (sent_by (prog i)). wire_fits m"
  shows "\<exists>ms. log_sent log = map wire_encode ms \<and>
    map wire_decode (log_received log) = map Some (take (length (log_received log)) ms)"
proof -
  have f: "sent_by (map frame_op cs) = map wire_encode (sent_by cs)" for cs
    by (induction cs rule: sent_by.induct) (simp_all add: frame_op_def)
  note sf = imbt_locked.shared_fifo [of "is" "\<lparr>imbt_queue = []\<rparr>" "\<lambda>i. map frame_op (prog i)" log s,
      unfolded in_memory_byte_transport.select_convs append_Nil, OF assms(1)]
  then obtain t :: in_memory_byte_transport where t: "log_sent log = log_received log @ imbt_queue t" by blast
  from sf have p: "map frame_op (prog i) = ops_of i log @ todo (threads s i)" for i by blast
  have sa: "sent_by (as @ bs) = sent_by as @ sent_by bs" for as bs :: "bytes channel_op list"
    by (induction as rule: sent_by.induct) simp_all
  have w: "\<exists>m. wire_encode m = bs \<and> wire_decode bs = Some m"
    if "bs \<in> set (log_sent log)" for bs
  proof -
    from log_sent_ops [OF that] obtain i where "bs \<in> set (sent_by (ops_of i log))" ..
    then have "bs \<in> set (sent_by (map frame_op (prog i)))" by (simp add: p sa)
    then obtain m where m: "bs = wire_encode m" "m \<in> set (sent_by (prog i))" unfolding f by auto
    with assms(2) have "wire_fits m" by blast
    with m(1) wire_round_trip show ?thesis by blast
  qed
  define ms where "ms = map (the \<circ> wire_decode) (log_sent log)"
  have "map wire_encode ms = log_sent log" unfolding ms_def map_map by (rule map_idI) (use w in fastforce)
  moreover have "map wire_decode (take n (log_sent log)) = map Some (take n ms)" for n
    unfolding ms_def take_map map_map
    by (rule map_cong [OF refl]) (use w in \<open>fastforce dest: in_set_takeD\<close>)
  moreover have "log_received log = take (length (log_received log)) (log_sent log)" using t by simp
  ultimately show ?thesis by metis
qed

end
