(* ===== verification/LLM_Core.thy ===== *)
theory LLM_Core
  imports Galc_Prelude "HOL-Library.Signed_Division"
begin

text \<open>
  The data of \<open>llm\<close> (\<open>Prompt\<close>, \<open>GenerationConfig\<close>, \<open>LLMResult\<close>) and \<open>MockLLM\<close>. A
  \<open>float\<close> is its 32-bit pattern: the code only stores and copies them. A runtime's \<open>generate\<close>
  takes the state it works on and returns an exception or a result. The steady clock, which
  \<open>MockLLM\<close> reads twice, is a parameter.
\<close>

section \<open>Prompts\<close>

datatype prompt_role = System | User | Assistant | Tool

record prompt_message =
  pm_role :: prompt_role
  pm_content :: string

record prompt =
  pr_messages :: "prompt_message list"

definition empty_prompt :: prompt where "empty_prompt = \<lparr>pr_messages = []\<rparr>"

definition role_to_string :: "prompt_role \<Rightarrow> string" where
  "role_to_string r = (case r of
     System \<Rightarrow> ''system'' | User \<Rightarrow> ''user'' | Assistant \<Rightarrow> ''assistant'' | Tool \<Rightarrow> ''tool'')"

definition add_message :: "prompt_role \<Rightarrow> string \<Rightarrow> prompt \<Rightarrow> prompt" where
  "add_message r content p = p\<lparr>pr_messages := pr_messages p @ [\<lparr>pm_role = r, pm_content = content\<rparr>]\<rparr>"

definition add_system :: "string \<Rightarrow> prompt \<Rightarrow> prompt" where "add_system = add_message System"
definition add_user :: "string \<Rightarrow> prompt \<Rightarrow> prompt" where "add_user = add_message User"
definition add_assistant :: "string \<Rightarrow> prompt \<Rightarrow> prompt" where "add_assistant = add_message Assistant"
definition add_tool :: "string \<Rightarrow> prompt \<Rightarrow> prompt" where "add_tool = add_message Tool"

definition prompt_messages :: "prompt \<Rightarrow> prompt_message list" where "prompt_messages p = pr_messages p"

definition newline :: char where "newline = CHR 0x0A"

definition prompt_to_string :: "prompt \<Rightarrow> string" where
  "prompt_to_string p =
     fold (\<lambda>msg out. out @ role_to_string (pm_role msg) @ '': '' @ pm_content msg @ [newline])
       (pr_messages p) []"

section \<open>Configurations and results\<close>

record generation_config =
  gc_max_tokens :: u32
  gc_temperature :: u32
  gc_top_p :: u32
  gc_seed :: u32
  gc_timeout_ms :: u32
  gc_stream :: bool

definition default_generation_config :: generation_config where
  "default_generation_config = \<lparr>gc_max_tokens = 128, gc_temperature = 0x3E4CCCCD, gc_top_p = 0x3F800000,
     gc_seed = 0, gc_timeout_ms = 1000, gc_stream = False\<rparr>"

datatype llm_status = Ok | Timeout | Cancelled | InvalidPrompt | BackendError

record llm_result =
  lr_status :: llm_status
  lr_text :: string
  lr_prompt_tokens :: u32
  lr_completion_tokens :: u32
  lr_elapsed_ms :: u32
  lr_error_message :: string

definition default_llm_result :: llm_result where
  "default_llm_result = \<lparr>lr_status = Ok, lr_text = [], lr_prompt_tokens = 0, lr_completion_tokens = 0,
     lr_elapsed_ms = 0, lr_error_message = []\<rparr>"

definition llm_ok :: "llm_result \<Rightarrow> bool" where
  "llm_ok r \<longleftrightarrow> lr_status r = Ok"

type_synonym 's llm_generate = "prompt \<Rightarrow> generation_config \<Rightarrow> 's \<Rightarrow> (cpp_exception + llm_result) \<times> 's"

section \<open>Words of a stream\<close>

definition is_space :: "char \<Rightarrow> bool" where
  "is_space c \<longleftrightarrow> c \<in> {CHR '' '', CHR 0x09, CHR 0x0A, CHR 0x0B, CHR 0x0C, CHR 0x0D}"

text \<open>\<open>stream >> word\<close>: the word and the rest of the stream, or failure at its end.\<close>

definition next_word :: "string \<Rightarrow> (string \<times> string) option" where
  "next_word s =
     (case dropWhile is_space s of
        [] \<Rightarrow> None
      | s' \<Rightarrow> Some (takeWhile (\<lambda>c. \<not> is_space c) s', dropWhile (\<lambda>c. \<not> is_space c) s'))"

lemma next_word_shorter: "next_word s = Some (w, rest) \<Longrightarrow> length rest < length s"
proof -
  assume a: "next_word s = Some (w, rest)"
  then obtain c cs where c: "dropWhile is_space s = c # cs" "rest = dropWhile (\<lambda>c. \<not> is_space c) (c # cs)"
    by (auto simp: next_word_def split: list.splits)
  have "\<not> is_space c" using c(1) by (metis hd_dropWhile list.discI list.sel(1))
  then have "length rest \<le> length cs" using c(2) by (simp add: length_dropWhile_le)
  moreover have "length (c # cs) \<le> length s" using c(1) by (metis length_dropWhile_le)
  ultimately show ?thesis by simp
qed

function count_words_loop :: "string \<Rightarrow> u32 \<Rightarrow> u32" where
  "count_words_loop s count =
     (case next_word s of None \<Rightarrow> count | Some (word, s) \<Rightarrow> count_words_loop s (count + 1))"
  by pat_completeness auto
termination
  by (relation "measure (\<lambda>(s, _). length s)") (auto dest: next_word_shorter)

definition count_words :: "string \<Rightarrow> u32" where
  "count_words s = count_words_loop s 0"

function limit_words_loop :: "u32 \<Rightarrow> string \<Rightarrow> u32 \<Rightarrow> string \<Rightarrow> string" where
  "limit_words_loop max_words s count out =
     (if count < max_words
      then case next_word s of
          None \<Rightarrow> out
        | Some (word, s) \<Rightarrow>
            let out = (if count > 0 then out @ '' '' else out)
            in limit_words_loop max_words s (count + 1) (out @ word)
      else out)"
  by pat_completeness auto
termination
  by (relation "measure (\<lambda>(_, s, _, _). length s)") (auto dest: next_word_shorter)

definition limit_words :: "string \<Rightarrow> u32 \<Rightarrow> string" where
  "limit_words s max_words = (if max_words = 0 then [] else limit_words_loop max_words s 0 [])"

declare count_words_loop.simps [simp del] limit_words_loop.simps [simp del]

section \<open>The mock runtime\<close>

text \<open>The clock returns nanoseconds; the difference is truncated to milliseconds and to 32 bits.\<close>

definition mock_generate :: "('s \<Rightarrow> int \<times> 's) \<Rightarrow> string \<Rightarrow> 's llm_generate" where
  "mock_generate clock fixed_response p config s =
     (case clock s of (start, s) \<Rightarrow>
        let result = default_llm_result
        in if pr_messages p = []
           then (Inr (result\<lparr>lr_status := InvalidPrompt, lr_error_message := ''Prompt is empty''\<rparr>), s)
           else
             let result = result\<lparr>lr_text := fixed_response,
                   lr_prompt_tokens := count_words (prompt_to_string p),
                   lr_completion_tokens := count_words fixed_response\<rparr>
             in case clock s of (stop, s) \<Rightarrow>
               (Inr (result\<lparr>lr_elapsed_ms := word_of_int ((stop - start) sdiv 1000000), lr_status := Ok\<rparr>), s))"

definition mock_name :: string where "mock_name = ''MockLLM''"

section \<open>The words of a string\<close>

function words :: "string \<Rightarrow> string list" where
  "words s = (case next_word s of None \<Rightarrow> [] | Some (w, s) \<Rightarrow> w # words s)"
  by pat_completeness auto
termination
  by (relation "measure length") (auto dest: next_word_shorter)

declare words.simps [simp del]

lemma count_words_loop_eq: "count_words_loop s count = count + of_nat (length (words s))"
proof (induction s arbitrary: count rule: words.induct)
  case (1 s)
  show ?case
  proof (cases "next_word s")
    case None
    then show ?thesis by (simp add: count_words_loop.simps [of s] words.simps [of s])
  next
    case (Some r)
    then obtain w s' where "r = (w, s')" by fastforce
    with Some 1 show ?thesis by (simp add: count_words_loop.simps [of s] words.simps [of s])
  qed
qed

lemma count_words_eq: "count_words s = of_nat (length (words s))"
  by (simp add: count_words_def count_words_loop_eq)

lemma words_Nil [simp]: "words [] = []"
  by (simp add: words.simps [of "[]"] next_word_def)

lemma words_space: "is_space c \<Longrightarrow> words (c # s) = words s"
  by (simp add: words.simps [of "c # s"] words.simps [of s] next_word_def)

lemma words_word:
  assumes "w \<noteq> []" "\<forall>c \<in> set w. \<not> is_space c" "s = [] \<or> is_space (hd s)"
  shows "words (w @ s) = w # words s"
proof -
  have d: "dropWhile is_space (w @ s) = w @ s" using assms(1,2) by (cases w) auto
  have "takeWhile (\<lambda>c. \<not> is_space c) (w @ s) = w" "dropWhile (\<lambda>c. \<not> is_space c) (w @ s) = s"
    using assms(2,3) by (cases s; auto simp: takeWhile_append dropWhile_append)+
  with d assms(1) have "next_word (w @ s) = Some (w, s)" by (cases w) (simp_all add: next_word_def)
  then show ?thesis by (simp add: words.simps [of "w @ s"])
qed

text \<open>White space separates words.\<close>

lemma words_append_space:
  assumes "is_space c"
  shows "words (a @ c # b) = words a @ words b"
proof (induction a rule: words.induct)
  case (1 a)
  show ?case
  proof (cases "next_word a")
    case None
    then have a: "\<forall>x \<in> set a. is_space x" by (auto simp: next_word_def split: list.splits)
    then have "words (a @ c # b) = words b" using assms by (induction a) (simp_all add: words_space)
    with None show ?thesis by (simp add: words.simps [of a])
  next
    case (Some r)
    then obtain w s where r: "next_word a = Some (w, s)" by (cases r) auto
    then obtain d e where d: "dropWhile is_space a = d # e" "w = takeWhile (\<lambda>c. \<not> is_space c) (d # e)"
      "s = dropWhile (\<lambda>c. \<not> is_space c) (d # e)" by (auto simp: next_word_def split: list.splits)
    have "\<not> is_space d" using d(1) by (metis hd_dropWhile list.discI list.sel(1))
    then have w1: "w \<noteq> []" using d(2) by simp
    have w2: "\<forall>c \<in> set w. \<not> is_space c" unfolding d(2) by (blast dest: set_takeWhileD)
    have w3: "s = [] \<or> is_space (hd s)"
      using hd_dropWhile [of "\<lambda>c. \<not> is_space c" "d # e"] unfolding d(3) by blast
    have w4: "d # e = w @ s" unfolding d(2,3) by (rule takeWhile_dropWhile_id [symmetric])
    obtain sp where sp: "a = sp @ w @ s" "\<forall>x \<in> set sp. is_space x"
      using d(1) w4 by (metis set_takeWhileD takeWhile_dropWhile_id)
    have skip: "words (sp @ x) = words x" for x using sp(2) by (induction sp) (simp_all add: words_space)
    have "words (a @ c # b) = words (w @ s @ c # b)" using skip sp(1) by simp
    also have "\<dots> = w # words (s @ c # b)"
      using w1 w2 w3 assms by (intro words_word) (auto simp: hd_append)
    also have "\<dots> = w # words s @ words b" using 1 r by simp
    finally show ?thesis by (simp add: words.simps [of a] r)
  qed
qed

lemma words_snoc_space: "is_space c \<Longrightarrow> words (a @ [c]) = words a"
  using words_append_space [of c a "[]"] by simp

lemma words_role: "words (role_to_string r @ '': '' @ s) = (role_to_string r @ '':'') # words s"
proof -
  have "words (role_to_string r @ '': '' @ s) = words ((role_to_string r @ '':'') @ CHR '' '' # s)" by simp
  also have "\<dots> = words (role_to_string r @ '':'') @ words s"
    by (rule words_append_space) (simp add: is_space_def)
  also have "words (role_to_string r @ '':'') = [role_to_string r @ '':'']"
    using words_word [of "role_to_string r @ '':''" "[]"]
    by (cases r) (simp_all add: role_to_string_def is_space_def)
  finally show ?thesis by simp
qed

lemma prompt_fold_words:
  "words (fold (\<lambda>msg out. out @ role_to_string (pm_role msg) @ '': '' @ pm_content msg @ [newline]) ms out) =
   words (fold (\<lambda>msg out. out @ role_to_string (pm_role msg) @ '': '' @ pm_content msg @ [newline]) [] out) @
   concat (map (\<lambda>msg. (role_to_string (pm_role msg) @ '':'') # words (pm_content msg)) ms)"
  if "out = [] \<or> (\<exists>pre. out = pre @ [newline])"
  using that
proof (induction ms arbitrary: out)
  case (Cons m ms)
  let ?line = "role_to_string (pm_role m) @ '': '' @ pm_content m"
  have nl: "is_space newline" by (simp add: is_space_def newline_def)
  have "words (out @ ?line @ [newline]) = words out @ words ?line"
  proof (cases "out = []")
    case True
    then show ?thesis using words_snoc_space [OF nl, of ?line] by simp
  next
    case False
    with Cons.prems obtain pre where "out = pre @ [newline]" by blast
    then show ?thesis
      using words_append_space [OF nl, of pre "?line @ [newline]"] words_snoc_space [OF nl, of ?line]
        words_snoc_space [OF nl, of pre] by simp
  qed
  then have "words (out @ ?line @ [newline]) = words out @ (role_to_string (pm_role m) @ '':'') # words (pm_content m)"
    by (simp only: words_role)
  with Cons.IH [of "out @ ?line @ [newline]"] show ?case by simp
qed simp

lemma words_prompt:
  "words (prompt_to_string p) =
     concat (map (\<lambda>msg. (role_to_string (pm_role msg) @ '':'') # words (pm_content msg)) (pr_messages p))"
  using prompt_fold_words [of "[]" "pr_messages p"] by (simp add: prompt_to_string_def)

lemma words_no_space: "w \<in> set (words s) \<Longrightarrow> w \<noteq> [] \<and> (\<forall>c \<in> set w. \<not> is_space c)"
proof (induction s rule: words.induct)
  case (1 s)
  show ?case
  proof (cases "next_word s")
    case None
    with 1 show ?thesis by (simp add: words.simps [of s])
  next
    case (Some r)
    then obtain v s' where r: "next_word s = Some (v, s')" by (cases r) auto
    then obtain d e where d: "dropWhile is_space s = d # e" "v = takeWhile (\<lambda>c. \<not> is_space c) (d # e)"
      by (auto simp: next_word_def split: list.splits)
    have "\<not> is_space d" using d(1) by (metis hd_dropWhile list.discI list.sel(1))
    then have "v \<noteq> []" using d(2) by simp
    moreover have "\<forall>c \<in> set v. \<not> is_space c" unfolding d(2) by (blast dest: set_takeWhileD)
    moreover have "w = v \<or> w \<in> set (words s')" using 1(2) by (simp add: words.simps [of s] r)
    ultimately show ?thesis using 1(1) [OF r refl] by blast
  qed
qed

lemma limit_words_loop_words:
  assumes "count \<le> max_words" "out = [] \<longleftrightarrow> count = 0"
  shows "words (limit_words_loop max_words s count out) =
    words out @ take (unat (max_words - count)) (words s)"
  using assms
proof (induction max_words s count out rule: limit_words_loop.induct)
  case (1 max_words s count out)
  show ?case
  proof (cases "count < max_words")
    case False
    with 1(2) have "count = max_words" by simp
    then show ?thesis by (simp add: limit_words_loop.simps [of max_words s])
  next
    case lt: True
    show ?thesis
    proof (cases "next_word s")
      case None
      with lt show ?thesis by (simp add: limit_words_loop.simps [of max_words s] words.simps [of s])
    next
      case (Some r)
      then obtain w s' where r: "next_word s = Some (w, s')" by (cases r) auto
      have "w \<in> set (words s)" by (simp add: words.simps [of s] r)
      from words_no_space [OF this] have w: "w \<noteq> []" "\<forall>c \<in> set w. \<not> is_space c" by simp_all
      then have ww: "words w = [w]" using words_word [of w "[]"] by simp
      let ?out = "(if count > 0 then out @ '' '' else out) @ w"
      have "words ?out = words out @ [w]"
        using 1(3) words_append_space [of "CHR '' ''" out w] ww by (auto simp: is_space_def word_gt_0)
      moreover have u: "unat (max_words - count) = Suc (unat (max_words - (count + 1)))"
      proof -
        have "max_words - count \<noteq> 0" using lt by simp
        then have "unat (max_words - count - 1) = unat (max_words - count) - 1" "0 < unat (max_words - count)"
          by (simp_all add: unat_minus_one unat_gt_0)
        then show ?thesis by (simp add: diff_diff_eq)
      qed
      moreover have "count + 1 \<le> max_words" using lt by (rule inc_le)
      moreover have "count + 1 \<noteq> 0" using lt by (metis add_eq_0_iff2 le_less_trans not_less
          max_word_max diff_add_cancel diff_0 less_irrefl)
      ultimately show ?thesis using 1(1) [OF lt r refl refl] w(1) lt
        by (simp add: limit_words_loop.simps [of max_words s] words.simps [of s] r Let_def)
    qed
  qed
qed

section \<open>Properties\<close>

text \<open>The prompt tokens \<open>MockLLM\<close> reports are, modulo \<open>2 ^ 32\<close>, one for each message (its
  role and colon) plus the number of white-space separated words of its content, whatever white
  space the contents hold; the result does not depend on the configuration, not even on
  \<open>max_tokens\<close>, and an empty prompt is the error \<open>InvalidPrompt\<close>.\<close>

theorem mock_generate_counts:
  "fst (mock_generate clock response p config s) =
     (if pr_messages p = []
      then Inr (default_llm_result\<lparr>lr_status := InvalidPrompt, lr_error_message := ''Prompt is empty''\<rparr>)
      else Inr (default_llm_result\<lparr>lr_text := response,
        lr_prompt_tokens := of_nat (\<Sum>msg \<leftarrow> pr_messages p. Suc (length (words (pm_content msg)))),
        lr_completion_tokens := of_nat (length (words response)),
        lr_elapsed_ms := word_of_int ((fst (clock (snd (clock s))) - fst (clock s)) sdiv 1000000)\<rparr>))"
proof -
  have "length (words (prompt_to_string p)) = (\<Sum>msg \<leftarrow> pr_messages p. Suc (length (words (pm_content msg))))"
    by (simp add: words_prompt length_concat o_def)
  then show ?thesis
    by (simp add: mock_generate_def case_prod_unfold Let_def count_words_eq default_llm_result_def)
qed

text \<open>\<open>limit_words\<close> keeps exactly the first \<open>max_words\<close> words of a text, in order, and
  \<open>count_words\<close> of what it returns never exceeds the limit.\<close>

theorem limit_words_takes:
  "words (limit_words s n) = take (unat n) (words s) \<and> count_words (limit_words s n) \<le> n"
proof -
  have w: "words (limit_words s n) = take (unat n) (words s)"
    using limit_words_loop_words [of 0 n "[]" s] by (simp add: limit_words_def)
  have "unat (of_nat (min (length (words s)) (unat n)) :: u32) = min (length (words s)) (unat n)"
    by (intro unat_u32_of_nat) (simp add: min_less_iff_disj)
  with w show ?thesis by (simp add: count_words_eq word_le_nat_alt)
qed

end
