(* ===== verification/LLM_Codec.thy ===== *)
theory LLM_Codec
  imports LLM_Core Core_Types Byte_IO
begin

text \<open>
  \<open>LLMMessageCodec\<close> of \<open>llm_bridge\<close>: requests and responses as payloads of messages, in
  little-endian fields. A reader takes the payload and an offset and throws or returns a value
  with the new offset; \<open>reads rd v xs\<close> is its contract on a value and its encoding, and
  \<open>payload_field\<close> the contract of a field format. Floats are 32-bit patterns, as in
  \<open>LLM_Core\<close>.
\<close>

section \<open>Writer\<close>

definition writer_u8 :: "u8 \<Rightarrow> bytes \<Rightarrow> bytes" where
  "writer_u8 val data = data @ [val]"

definition writer_u32 :: "u32 \<Rightarrow> bytes \<Rightarrow> bytes" where
  "writer_u32 val data = data @
     [ucast (drop_bit 0 val AND 0xff)] @
     [ucast (drop_bit 8 val AND 0xff)] @
     [ucast (drop_bit 16 val AND 0xff)] @
     [ucast (drop_bit 24 val AND 0xff)]"

definition writer_f32 :: "u32 \<Rightarrow> bytes \<Rightarrow> bytes" where
  "writer_f32 raw data = writer_u32 raw data"

definition writer_str :: "string \<Rightarrow> bytes \<Rightarrow> bytes" where
  "writer_str val data = writer_u32 (of_nat (length val)) data @ bytes_of_string val"

section \<open>Reader\<close>

type_synonym 'a reader = "bytes \<Rightarrow> nat \<Rightarrow> cpp_exception + 'a \<times> nat"

definition rret :: "'a \<Rightarrow> 'a reader" where
  "rret v data offset = Inr (v, offset)"

definition rthrow :: "cpp_exception \<Rightarrow> 'a reader" where
  "rthrow e data offset = Inl e"

definition rbind :: "'a reader \<Rightarrow> ('a \<Rightarrow> 'b reader) \<Rightarrow> 'b reader" where
  "rbind rd k data offset =
     (case rd data offset of Inl e \<Rightarrow> Inl e | Inr (v, offset) \<Rightarrow> k v data offset)"

definition truncated_payload :: cpp_exception where
  "truncated_payload = Runtime_Error ''LLMMessageCodec: truncated payload''"

text \<open>\<open>Reader::require\<close>.\<close>

definition reader_require :: "nat \<Rightarrow> unit reader" where
  "reader_require count data offset =
     (if size_add offset count > length data then Inl truncated_payload else Inr ((), offset))"

definition reader_u8 :: "u8 reader" where
  "reader_u8 = rbind (reader_require 1) (\<lambda>_ data offset. Inr (data ! offset, size_add offset 1))"

definition reader_u32 :: "u32 reader" where
  "reader_u32 = rbind (reader_require 4) (\<lambda>_ data offset.
     let val = 0;
         val = val OR push_bit 0 (ucast (data ! (offset + 0)));
         val = val OR push_bit 8 (ucast (data ! (offset + 1)));
         val = val OR push_bit 16 (ucast (data ! (offset + 2)));
         val = val OR push_bit 24 (ucast (data ! (offset + 3)))
     in Inr (val, size_add offset 4))"

definition reader_f32 :: "u32 reader" where
  "reader_f32 = reader_u32"

definition reader_str :: "string reader" where
  "reader_str = rbind reader_u32 (\<lambda>sz. rbind (reader_require (unat sz)) (\<lambda>_ data offset.
     Inr (string_of_bytes (take (unat sz) (drop offset data)), size_add offset (unat sz))))"

lemma require_bind:
  "rbind (reader_require n) k = (\<lambda>data offset.
     if size_add offset n > length data then Inl truncated_payload else k () data offset)"
  by (simp add: fun_eq_iff rbind_def reader_require_def)

lemmas reader_u8_eq = reader_u8_def [unfolded require_bind, THEN fun_cong, THEN fun_cong]
lemmas reader_u32_eq = reader_u32_def [unfolded require_bind, THEN fun_cong, THEN fun_cong]
lemmas reader_str_eq = reader_str_def [unfolded require_bind]

section \<open>Codes\<close>

definition role_to_u8 :: "prompt_role \<Rightarrow> u8" where
  "role_to_u8 r = (case r of System \<Rightarrow> 0 | User \<Rightarrow> 1 | Assistant \<Rightarrow> 2 | Tool \<Rightarrow> 3)"

definition u8_to_role :: "u8 \<Rightarrow> prompt_role reader" where
  "u8_to_role v =
     (if v = 0 then rret System
      else if v = 1 then rret User
      else if v = 2 then rret Assistant
      else if v = 3 then rret Tool
      else rthrow (Runtime_Error ''LLMMessageCodec: invalid prompt role''))"

definition status_to_u8 :: "llm_status \<Rightarrow> u8" where
  "status_to_u8 s = (case s of
     Ok \<Rightarrow> 0 | Timeout \<Rightarrow> 1 | Cancelled \<Rightarrow> 2 | InvalidPrompt \<Rightarrow> 3 | BackendError \<Rightarrow> 4)"

definition u8_to_status :: "u8 \<Rightarrow> llm_status" where
  "u8_to_status v =
     (if v = 0 then Ok else if v = 1 then Timeout else if v = 2 then Cancelled
      else if v = 3 then InvalidPrompt else if v = 4 then BackendError else BackendError)"

definition add_prompt_message :: "prompt \<Rightarrow> prompt_role \<Rightarrow> string \<Rightarrow> prompt" where
  "add_prompt_message p r content = (case r of
     System \<Rightarrow> add_system content p | User \<Rightarrow> add_user content p
   | Assistant \<Rightarrow> add_assistant content p | Tool \<Rightarrow> add_tool content p)"

section \<open>Requests\<close>

record llm_request =
  rq_request_id :: string
  rq_prompt :: prompt
  rq_config :: generation_config

record llm_response =
  rp_request_id :: string
  rp_result :: llm_result

definition encode_request_payload :: "llm_request \<Rightarrow> bytes" where
  "encode_request_payload request =
     (let w = writer_str ''GLM_REQ_V1'' [];
          w = writer_str (rq_request_id request) w;
          w = writer_u32 (gc_max_tokens (rq_config request)) w;
          w = writer_f32 (gc_temperature (rq_config request)) w;
          w = writer_f32 (gc_top_p (rq_config request)) w;
          w = writer_u32 (gc_seed (rq_config request)) w;
          w = writer_u32 (gc_timeout_ms (rq_config request)) w;
          w = writer_u8 (if gc_stream (rq_config request) then 1 else 0) w;
          w = writer_u32 (of_nat (length (pr_messages (rq_prompt request)))) w
      in fold (\<lambda>msg w. writer_str (pm_content msg) (writer_u8 (role_to_u8 (pm_role msg)) w))
           (pr_messages (rq_prompt request)) w)"

definition encode_request :: "llm_request \<Rightarrow> string \<Rightarrow> string \<Rightarrow> message" where
  "encode_request request source target =
     default_message\<lparr>m_id := 0, m_source := source, m_target := target,
       m_event := \<lparr>e_name = ''LLM_REQUEST'', e_payload = encode_request_payload request\<rparr>\<rparr>"

fun read_messages :: "nat \<Rightarrow> prompt \<Rightarrow> prompt reader" where
  "read_messages 0 p = rret p"
| "read_messages (Suc n) p =
     rbind reader_u8 (\<lambda>v. rbind (u8_to_role v) (\<lambda>r. rbind reader_str (\<lambda>content.
       read_messages n (add_prompt_message p r content))))"

definition decode_request_payload :: "llm_request reader" where
  "decode_request_payload =
     rbind reader_str (\<lambda>magic.
     if magic \<noteq> ''GLM_REQ_V1'' then rthrow (Runtime_Error ''Invalid LLM request payload'')
     else
     rbind reader_str (\<lambda>request_id.
     rbind reader_u32 (\<lambda>max_tokens.
     rbind reader_f32 (\<lambda>temperature.
     rbind reader_f32 (\<lambda>top_p.
     rbind reader_u32 (\<lambda>seed.
     rbind reader_u32 (\<lambda>timeout_ms.
     rbind reader_u8 (\<lambda>stream.
     rbind reader_u32 (\<lambda>message_count.
     rbind (read_messages (unat message_count) empty_prompt) (\<lambda>p.
     rret \<lparr>rq_request_id = request_id, rq_prompt = p,
       rq_config = \<lparr>gc_max_tokens = max_tokens, gc_temperature = temperature, gc_top_p = top_p,
         gc_seed = seed, gc_timeout_ms = timeout_ms, gc_stream = (stream \<noteq> 0)\<rparr>\<rparr>))))))))))"

definition decode_request :: "message \<Rightarrow> cpp_exception + llm_request" where
  "decode_request message =
     (if e_name (m_event message) \<noteq> ''LLM_REQUEST'' then Inl (Runtime_Error ''Message is not LLM_REQUEST'')
      else case decode_request_payload (e_payload (m_event message)) 0 of
        Inl e \<Rightarrow> Inl e | Inr (request, _) \<Rightarrow> Inr request)"

section \<open>Responses\<close>

definition encode_response_payload :: "llm_response \<Rightarrow> bytes" where
  "encode_response_payload response =
     (let w = writer_str ''GLM_RES_V1'' [];
          w = writer_str (rp_request_id response) w;
          w = writer_u8 (status_to_u8 (lr_status (rp_result response))) w;
          w = writer_str (lr_text (rp_result response)) w;
          w = writer_u32 (lr_prompt_tokens (rp_result response)) w;
          w = writer_u32 (lr_completion_tokens (rp_result response)) w;
          w = writer_u32 (lr_elapsed_ms (rp_result response)) w
      in writer_str (lr_error_message (rp_result response)) w)"

definition encode_response :: "llm_response \<Rightarrow> string \<Rightarrow> string \<Rightarrow> message" where
  "encode_response response source target =
     default_message\<lparr>m_id := 0, m_source := source, m_target := target,
       m_event := \<lparr>e_name = ''LLM_RESPONSE'', e_payload = encode_response_payload response\<rparr>\<rparr>"

definition decode_response_payload :: "llm_response reader" where
  "decode_response_payload =
     rbind reader_str (\<lambda>magic.
     if magic \<noteq> ''GLM_RES_V1'' then rthrow (Runtime_Error ''Invalid LLM response payload'')
     else
     rbind reader_str (\<lambda>request_id.
     rbind reader_u8 (\<lambda>status.
     rbind reader_str (\<lambda>response_text.
     rbind reader_u32 (\<lambda>prompt_tokens.
     rbind reader_u32 (\<lambda>completion_tokens.
     rbind reader_u32 (\<lambda>elapsed_ms.
     rbind reader_str (\<lambda>error_message.
     rret \<lparr>rp_request_id = request_id, rp_result = \<lparr>lr_status = u8_to_status status, lr_text = response_text,
       lr_prompt_tokens = prompt_tokens, lr_completion_tokens = completion_tokens, lr_elapsed_ms = elapsed_ms,
       lr_error_message = error_message\<rparr>\<rparr>))))))))"

definition decode_response :: "message \<Rightarrow> cpp_exception + llm_response" where
  "decode_response message =
     (if e_name (m_event message) \<noteq> ''LLM_RESPONSE'' then Inl (Runtime_Error ''Message is not LLM_RESPONSE'')
      else case decode_response_payload (e_payload (m_event message)) 0 of
        Inl e \<Rightarrow> Inl e | Inr (response, _) \<Rightarrow> Inr response)"

section \<open>The contract of a reader\<close>

definition reads :: "'a reader \<Rightarrow> 'a \<Rightarrow> bytes \<Rightarrow> bool" where
  "reads rd v xs \<longleftrightarrow> (\<forall>bs off off'. vec_ok bs \<longrightarrow> slice_at bs off xs off' \<longrightarrow>
     rd bs off = Inr (v, off') \<and>
     (\<forall>k. off \<le> k \<longrightarrow> k < off' \<longrightarrow> rd (take k bs) off = Inl truncated_payload))"

lemma slice_at_take: "slice_at bs off xs off' \<Longrightarrow> off' \<le> k \<Longrightarrow> slice_at (take k bs) off xs off'"
  by (auto simp: slice_at_def drop_take)

lemma reads_ret: "reads (rret v) v []"
  by (auto simp: reads_def rret_def slice_at_def)

lemma reads_bind:
  assumes a: "reads rd v xs" and b: "reads (k v) w ys"
  shows "reads (rbind rd k) w (xs @ ys)"
  unfolding reads_def
proof (intro allI impI conjI)
  fix bs off off'
  assume v: "vec_ok bs" and s: "slice_at bs off (xs @ ys) off'"
  let ?j = "off + length xs"
  have s1: "slice_at bs off xs ?j" "slice_at bs ?j ys off'" using s by (simp_all add: slice_at_append)
  from a b v s1 show "rbind rd k bs off = Inr (w, off')" by (simp add: reads_def rbind_def)
  fix n
  assume n: "off \<le> n" "n < off'"
  have vt: "vec_ok (take n bs)" by (rule vec_ok_shorter [OF v]) simp
  show "rbind rd k (take n bs) off = Inl truncated_payload"
  proof (cases "n < ?j")
    case True
    with a v s1 n show ?thesis by (simp add: reads_def rbind_def)
  next
    case False
    then have "rd (take n bs) off = Inr (v, ?j)" "k v (take n bs) ?j = Inl truncated_payload"
      using a b v vt s1 n slice_at_take [OF s1(1), of n] unfolding reads_def by simp_all
    then show ?thesis by (simp add: rbind_def)
  qed
qed

locale payload_field =
  fixes enc :: "'v \<Rightarrow> bytes" and rd :: "'v reader" and fits :: "'v \<Rightarrow> bool"
  assumes field_reads: "fits v \<Longrightarrow> reads rd v (enc v)"
begin

lemma field_round_trip:
  "fits v \<Longrightarrow> vec_ok (enc v @ rest) \<Longrightarrow> rd (enc v @ rest) 0 = Inr (v, length (enc v))"
  using field_reads [of v] unfolding reads_def by (auto simp: slice_at_def)

lemma field_truncated:
  assumes "fits v" "vec_ok (enc v)" "n < length (enc v)"
  shows "rd (take n (enc v)) 0 = Inl truncated_payload"
proof -
  have "slice_at (enc v) 0 (enc v) (length (enc v))" by (simp add: slice_at_def)
  with assms field_reads [of v] show ?thesis unfolding reads_def by blast
qed

end

section \<open>Every field meets the contract\<close>

definition le8 :: "u8 \<Rightarrow> bytes" where "le8 v = writer_u8 v []"
definition le32 :: "u32 \<Rightarrow> bytes" where "le32 v = writer_u32 v []"
definition lestr :: "string \<Rightarrow> bytes" where "lestr s = writer_str s []"

lemma writer_appends:
  "writer_u8 v d = d @ le8 v" "writer_u32 w d = d @ le32 w" "writer_f32 w d = d @ le32 w"
  "writer_str s d = d @ lestr s"
  by (simp_all add: le8_def le32_def lestr_def writer_u8_def writer_u32_def writer_f32_def writer_str_def)

lemma le32_rev: "le32 v = rev (be32 v)"
  by (simp add: le32_def writer_u32_def be32_bytes byte_simps)

lemma le_lengths [simp]: "length (le8 b) = 1" "length (le32 v) = 4" "length (lestr s) = 4 + length s"
  by (simp_all add: le8_def le32_def lestr_def writer_u8_def writer_u32_def writer_str_def)

lemma lestr_eq: "lestr s = le32 (of_nat (length s)) @ bytes_of_string s"
  by (simp add: lestr_def writer_str_def le32_def)

lemma size_add_low: "vec_ok bs \<Longrightarrow> off \<le> length bs \<Longrightarrow> n < 4294967296 \<Longrightarrow> size_add off n = off + n"
  by (rule size_add_in)

interpretation p8: payload_field le8 reader_u8 "\<lambda>_. True"
proof
  fix v :: u8
  show "reads reader_u8 v (le8 v)"
    unfolding reads_def
  proof (intro allI impI conjI)
    fix bs off off'
    assume h: "vec_ok bs" "slice_at bs off (le8 v) off'"
    then have s: "off' = off + 1" "off < length bs" "bs ! off = v"
      by (auto simp: slice_at_def le8_def writer_u8_def take_Suc_conv_app_nth)
    with h size_add_low [of bs off 1] show "reader_u8 bs off = Inr (v, off')" by (simp add: reader_u8_eq)
    fix k
    assume "off \<le> k" "k < off'"
    with s h size_add_low [of bs off 1] show "reader_u8 (take k bs) off = Inl truncated_payload"
      by (simp add: reader_u8_eq)
  qed
qed

lemma reader_u32_bytes:
  "le32 v = [a, b, c, d] \<Longrightarrow>
     ((push_bit 0 (ucast a) OR push_bit 8 (ucast b)) OR push_bit 16 (ucast c)) OR push_bit 24 (ucast d) = v"
  using be32_decode [of d c b a v] by (simp add: le32_rev rev_swap ac_simps or.assoc)

interpretation p32: payload_field le32 reader_u32 "\<lambda>_. True"
proof
  fix v :: u32
  show "reads reader_u32 v (le32 v)"
    unfolding reads_def
  proof (intro allI impI conjI)
    fix bs off off'
    assume h: "vec_ok bs" "slice_at bs off (le32 v) off'"
    then have s: "off' = off + 4" "off + 4 \<le> length bs" "take 4 (drop off bs) = le32 v"
      by (auto simp: slice_at_def)
    then have "le32 v = [bs ! off, bs ! (off + 1), bs ! (off + 2), bs ! (off + 3)]"
      by (simp add: take_Suc_conv_app_nth numeral_eq_Suc)
    from reader_u32_bytes [OF this] s h size_add_low [of bs off 4]
    show "reader_u32 bs off = Inr (v, off')" by (simp add: reader_u32_eq Let_def)
    fix k
    assume "off \<le> k" "k < off'"
    with s h size_add_low [of bs off 4] show "reader_u32 (take k bs) off = Inl truncated_payload"
      by (simp add: reader_u32_eq)
  qed
qed

interpretation pstr: payload_field lestr reader_str fits32
proof
  fix v :: string
  assume f: "fits32 v"
  let ?k = "\<lambda>sz data offset. if size_add offset (unat sz) > length data then Inl truncated_payload
     else Inr (string_of_bytes (take (unat sz) (drop offset data)), size_add offset (unat sz))"
  have "reads (?k (of_nat (length v) :: u32)) v (bytes_of_string v)"
    unfolding reads_def
  proof (intro allI impI conjI)
    fix bs off off'
    assume h: "vec_ok bs" "slice_at bs off (bytes_of_string v) off'"
    then have s: "off' = off + length v" "off + length v \<le> length bs" "take (length v) (drop off bs) = bytes_of_string v"
      by (auto simp: slice_at_def)
    with h f size_add_low [of bs off "length v"] fits32D [OF f]
    show "?k (of_nat (length v) :: u32) bs off = Inr (v, off')" by simp
    fix k
    assume "off \<le> k" "k < off'"
    with s h f size_add_low [of bs off "length v"] fits32D [OF f]
    show "?k (of_nat (length v) :: u32) (take k bs) off = Inl truncated_payload" by simp
  qed
  then have "reads (rbind reader_u32 ?k) v (le32 (of_nat (length v)) @ bytes_of_string v)"
    by (rule reads_bind [OF p32.field_reads [OF TrueI]])
  then show "reads reader_str v (lestr v)" by (simp add: reader_str_eq lestr_eq)
qed

text \<open>One rule for each field a decoder reads next.\<close>

lemmas read_u8_then = reads_bind [OF p8.field_reads [OF TrueI]]
lemmas read_u32_then = reads_bind [OF p32.field_reads [OF TrueI]]
lemmas read_f32_then = read_u32_then [folded reader_f32_def]
lemmas read_str_then = reads_bind [OF pstr.field_reads]

lemma read_magic_then:
  "fits32 m \<Longrightarrow> reads k w ys \<Longrightarrow> reads (rbind reader_str (\<lambda>x. if x \<noteq> m then t else k)) w (lestr m @ ys)"
  by (rule read_str_then) simp_all

lemma read_role_then:
  assumes "reads (k r) w ys"
  shows "reads (rbind (u8_to_role (role_to_u8 r)) k) w ys"
proof -
  have "reads (u8_to_role (role_to_u8 r)) r []"
    by (cases r) (simp_all add: u8_to_role_def role_to_u8_def reads_ret)
  then have "reads (rbind (u8_to_role (role_to_u8 r)) k) w ([] @ ys)"
    using assms by (rule reads_bind)
  then show ?thesis by simp
qed

lemma reads_ret_eq: "v = w \<Longrightarrow> reads (rret v) w []"
  using reads_ret by simp

lemma u8_to_status_inverse [simp]: "u8_to_status (status_to_u8 s) = s"
  by (cases s) (simp_all add: u8_to_status_def status_to_u8_def)

section \<open>Layouts\<close>

definition message_bytes :: "prompt_message \<Rightarrow> bytes" where
  "message_bytes msg = le8 (role_to_u8 (pm_role msg)) @ lestr (pm_content msg)"

definition prompt_fits :: "prompt \<Rightarrow> bool" where
  "prompt_fits p \<longleftrightarrow> fits32 (pr_messages p) \<and> (\<forall>msg \<in> set (pr_messages p). fits32 (pm_content msg))"

definition request_fits :: "llm_request \<Rightarrow> bool" where
  "request_fits r \<longleftrightarrow> fits32 (rq_request_id r) \<and> prompt_fits (rq_prompt r)"

definition response_fits :: "llm_response \<Rightarrow> bool" where
  "response_fits r \<longleftrightarrow> fits32 (rp_request_id r) \<and> fits32 (lr_text (rp_result r)) \<and>
     fits32 (lr_error_message (rp_result r))"

lemma add_prompt_message_eq: "add_prompt_message p r content = add_message r content p"
  by (cases r) (simp_all add: add_prompt_message_def add_system_def add_user_def add_assistant_def add_tool_def)

lemma prompt_eta [simp]: "\<lparr>pm_role = pm_role m, pm_content = pm_content m\<rparr> = m"
  "\<lparr>pr_messages = pr_messages p\<rparr> = p"
  by (cases m, simp) (cases p, simp)

lemma reads_messages:
  "\<forall>msg \<in> set ms. fits32 (pm_content msg) \<Longrightarrow>
     reads (read_messages (length ms) p) (p\<lparr>pr_messages := pr_messages p @ ms\<rparr>) (concat (map message_bytes ms))"
proof (induction ms arbitrary: p)
  case Nil
  then show ?case using reads_ret [of p] by simp
next
  case (Cons m ms)
  let ?p = "add_message (pm_role m) (pm_content m) p"
  have "reads (read_messages (length ms) ?p) (?p\<lparr>pr_messages := pr_messages ?p @ ms\<rparr>) (concat (map message_bytes ms))"
    by (rule Cons.IH) (use Cons.prems in simp)
  then have "reads (read_messages (length (m # ms)) p) (?p\<lparr>pr_messages := pr_messages ?p @ ms\<rparr>)
      (le8 (role_to_u8 (pm_role m)) @ lestr (pm_content m) @ concat (map message_bytes ms))"
    unfolding length_Cons read_messages.simps
    by (intro read_u8_then read_role_then read_str_then)
      (use Cons.prems in \<open>simp_all add: add_prompt_message_eq\<close>)
  then show ?case by (simp add: add_message_def message_bytes_def [of m])
qed

definition request_bytes :: "llm_request \<Rightarrow> bytes" where
  "request_bytes r = lestr ''GLM_REQ_V1'' @ lestr (rq_request_id r) @
     le32 (gc_max_tokens (rq_config r)) @ le32 (gc_temperature (rq_config r)) @ le32 (gc_top_p (rq_config r)) @
     le32 (gc_seed (rq_config r)) @ le32 (gc_timeout_ms (rq_config r)) @
     le8 (if gc_stream (rq_config r) then 1 else 0) @ le32 (of_nat (length (pr_messages (rq_prompt r)))) @
     concat (map message_bytes (pr_messages (rq_prompt r)))"

definition response_bytes :: "llm_response \<Rightarrow> bytes" where
  "response_bytes r = lestr ''GLM_RES_V1'' @ lestr (rp_request_id r) @
     le8 (status_to_u8 (lr_status (rp_result r))) @ lestr (lr_text (rp_result r)) @
     le32 (lr_prompt_tokens (rp_result r)) @ le32 (lr_completion_tokens (rp_result r)) @
     le32 (lr_elapsed_ms (rp_result r)) @ lestr (lr_error_message (rp_result r))"

lemma encode_request_payload_eq: "encode_request_payload r = request_bytes r"
proof -
  have "fold (\<lambda>msg w. writer_str (pm_content msg) (writer_u8 (role_to_u8 (pm_role msg)) w)) ms w =
      w @ concat (map message_bytes ms)" for ms w
    by (induction ms arbitrary: w) (simp_all add: writer_appends message_bytes_def)
  then show ?thesis by (simp add: encode_request_payload_def request_bytes_def writer_appends)
qed

lemma encode_response_payload_eq: "encode_response_payload r = response_bytes r"
  by (simp add: encode_response_payload_def response_bytes_def writer_appends)

lemma fits32_magic [simp]: "fits32 ''GLM_REQ_V1''" "fits32 ''GLM_RES_V1''"
  by (simp_all add: fits32_def)

interpretation prequest: payload_field encode_request_payload decode_request_payload request_fits
proof
  fix r
  assume f: "request_fits r"
  have n: "unat (of_nat (length (pr_messages (rq_prompt r))) :: u32) = length (pr_messages (rq_prompt r))"
    using f by (simp add: request_fits_def prompt_fits_def)
  have "reads (read_messages (unat (of_nat (length (pr_messages (rq_prompt r))) :: u32)) empty_prompt) (rq_prompt r)
      (concat (map message_bytes (pr_messages (rq_prompt r))))"
    using reads_messages [of "pr_messages (rq_prompt r)" empty_prompt] f
    by (simp add: n request_fits_def prompt_fits_def empty_prompt_def)
  note read_prompt_then = reads_bind [OF this reads_ret_eq, unfolded append_Nil2]
  have "reads decode_request_payload r (request_bytes r)"
    unfolding decode_request_payload_def request_bytes_def
    by (intro read_magic_then fits32_magic read_str_then read_u32_then read_f32_then read_u8_then read_prompt_then)
      (use f in \<open>simp_all add: request_fits_def\<close>)
  then show "reads decode_request_payload r (encode_request_payload r)"
    by (simp add: encode_request_payload_eq)
qed

interpretation presponse: payload_field encode_response_payload decode_response_payload response_fits
proof
  fix r
  assume f: "response_fits r"
  note read_last = read_str_then [where ys = "[]", unfolded append_Nil2]
  have "reads decode_response_payload r (response_bytes r)"
    unfolding decode_response_payload_def response_bytes_def
    by (intro read_magic_then fits32_magic read_u32_then read_u8_then read_str_then read_last reads_ret_eq)
      (use f in \<open>simp_all add: response_fits_def\<close>)
  then show "reads decode_response_payload r (encode_response_payload r)"
    by (simp add: encode_response_payload_eq)
qed

section \<open>Messages\<close>

definition request_small :: "llm_request \<Rightarrow> bool" where
  "request_small r \<longleftrightarrow> request_fits r \<and> vec_ok (encode_request_payload r)"

lemma decode_encode_request:
  "request_small r \<Longrightarrow> decode_request (encode_request r source target) = Inr r"
  using prequest.field_round_trip [of r "[]"]
  by (simp add: request_small_def decode_request_def encode_request_def)

lemma length_response: "length (encode_response_payload r) =
    39 + length (rp_request_id r) + length (lr_text (rp_result r)) + length (lr_error_message (rp_result r))"
  by (simp add: encode_response_payload_eq response_bytes_def)

lemma vec_ok_response: "response_fits r \<Longrightarrow> vec_ok (encode_response_payload r)"
  by (simp add: response_fits_def fits32_def vec_ok_def length_response)

lemma decode_encode_response:
  "response_fits r \<Longrightarrow> decode_response (encode_response r source target) = Inr r"
  using presponse.field_round_trip [of r "[]"] vec_ok_response [of r]
  by (simp add: decode_response_def encode_response_def)

section \<open>Properties\<close>

definition sample_request :: llm_request where
  "sample_request = \<lparr>rq_request_id = ''r1'', rq_prompt = add_user ''hi'' (add_system ''be brief'' empty_prompt),
     rq_config = default_generation_config\<lparr>gc_stream := True\<rparr>\<rparr>"

definition sample_response :: llm_response where
  "sample_response = \<lparr>rp_request_id = ''r1'', rp_result = default_llm_result\<lparr>lr_status := Cancelled, lr_text := ''x''\<rparr>\<rparr>"

lemma sample_request_small: "request_small sample_request"
  by (simp add: request_small_def request_fits_def prompt_fits_def fits32_def sample_request_def add_user_def
      add_system_def add_message_def empty_prompt_def vec_ok_def encode_request_payload_eq request_bytes_def
      message_bytes_def)

lemma sample_response_fits: "response_fits sample_response"
  by (simp add: response_fits_def fits32_def sample_response_def default_llm_result_def)

text \<open>C21: A request or a response, with any roles, statuses, configuration and float patterns,
  comes back from its message exactly as it was encoded, whatever bytes follow it in the
  payload, provided that its strings are shorter than \<open>2 ^ 32\<close> bytes and its messages fewer.\<close>

theorem llm_codec_round_trip:
  assumes "request_fits rq" "vec_ok (encode_request_payload rq @ junk)"
    and "response_fits rp" "vec_ok (encode_response_payload rp @ junk)"
  shows "decode_request ((encode_request rq source target)
      \<lparr>m_event := \<lparr>e_name = ''LLM_REQUEST'', e_payload = encode_request_payload rq @ junk\<rparr>\<rparr>) = Inr rq \<and>
    decode_response ((encode_response rp source target)
      \<lparr>m_event := \<lparr>e_name = ''LLM_RESPONSE'', e_payload = encode_response_payload rp @ junk\<rparr>\<rparr>) = Inr rp"
  using prequest.field_round_trip [OF assms(1,2)] presponse.field_round_trip [OF assms(3,4)]
  by (simp add: decode_request_def decode_response_def)

theorem llm_codec_round_trip_witness:
  "decode_request (encode_request sample_request ''c'' ''s'') = Inr sample_request"
  using llm_codec_round_trip [of sample_request "[]" sample_response "''c''" "''s''"] sample_request_small
    sample_response_fits vec_ok_response [OF sample_response_fits]
  by (simp add: request_small_def encode_request_def)

text \<open>A payload cut short anywhere, between two fields or inside one, makes decoding throw
  \<open>LLMMessageCodec: truncated payload\<close>: no prefix of an encoding is taken for a request or a
  response.\<close>

theorem llm_codec_truncation_detected:
  assumes "request_fits rq" "vec_ok (encode_request_payload rq)" "k < length (encode_request_payload rq)"
    and "response_fits rp" "j < length (encode_response_payload rp)"
  shows "decode_request ((encode_request rq source target)
      \<lparr>m_event := \<lparr>e_name = ''LLM_REQUEST'', e_payload = take k (encode_request_payload rq)\<rparr>\<rparr>) = Inl truncated_payload \<and>
    decode_response ((encode_response rp source target)
      \<lparr>m_event := \<lparr>e_name = ''LLM_RESPONSE'', e_payload = take j (encode_response_payload rp)\<rparr>\<rparr>) = Inl truncated_payload"
  using prequest.field_truncated [OF assms(1-3)] presponse.field_truncated [OF assms(4) vec_ok_response [OF assms(4)] assms(5)]
  by (simp add: decode_request_def decode_response_def)

theorem llm_codec_truncation_detected_witness:
  "decode_response ((encode_response sample_response ''s'' ''c'')
     \<lparr>m_event := \<lparr>e_name = ''LLM_RESPONSE'', e_payload = take 30 (encode_response_payload sample_response)\<rparr>\<rparr>) =
   Inl truncated_payload"
proof -
  have "30 < length (encode_response_payload sample_response)"
    by (simp add: length_response sample_response_def default_llm_result_def)
  moreover have "0 < length (encode_request_payload sample_request)"
    by (simp add: encode_request_payload_eq request_bytes_def)
  ultimately show ?thesis
    using llm_codec_truncation_detected [of sample_request 0 sample_response 30 "''s''" "''c''"]
      sample_request_small sample_response_fits by (simp add: request_small_def)
qed

end
