(* ===== verification/LLM_Codec_Exact.thy ===== *)
theory LLM_Codec_Exact
  imports LLM_Codec
begin

text \<open>
  What \<open>LLMMessageCodec\<close> accepts, exactly, and what it throws otherwise. \<open>yields rd P E\<close> is the
  converse of \<open>reads\<close>: whatever a reader returns, it has consumed bytes that \<open>P\<close> relates to the
  value, and whatever it throws is in \<open>E\<close>.
\<close>

section \<open>What a reader returns\<close>

definition yields :: "'a reader \<Rightarrow> ('a \<Rightarrow> bytes \<Rightarrow> bool) \<Rightarrow> cpp_exception set \<Rightarrow> bool" where
  "yields rd P E \<longleftrightarrow> (\<forall>bs off. vec_ok bs \<longrightarrow> off \<le> length bs \<longrightarrow>
     (case rd bs off of Inl e \<Rightarrow> e \<in> E | Inr (v, off') \<Rightarrow> \<exists>xs. slice_at bs off xs off' \<and> P v xs))"

lemma yieldsI:
  assumes "\<And>bs off e. vec_ok bs \<Longrightarrow> off \<le> length bs \<Longrightarrow> rd bs off = Inl e \<Longrightarrow> e \<in> E"
    and "\<And>bs off v off'. vec_ok bs \<Longrightarrow> off \<le> length bs \<Longrightarrow> rd bs off = Inr (v, off') \<Longrightarrow>
      \<exists>xs. slice_at bs off xs off' \<and> P v xs"
  shows "yields rd P E"
  using assms unfolding yields_def by (auto split: sum.split)

lemma yields_ret: "P v [] \<Longrightarrow> yields (rret v) P E"
  by (auto simp: yields_def rret_def slice_at_def)

lemma yields_throw: "e \<in> E \<Longrightarrow> yields (rthrow e) P E"
  by (simp add: yields_def rthrow_def)

lemma yields_bind:
  assumes a: "yields rd P E" and b: "\<And>v xs. P v xs \<Longrightarrow> yields (k v) (\<lambda>w zs. Q w (xs @ zs)) E"
  shows "yields (rbind rd k) Q E"
proof (rule yieldsI)
  fix bs off e
  assume h: "vec_ok bs" "off \<le> length bs" "rbind rd k bs off = Inl e"
  show "e \<in> E"
  proof (cases "rd bs off")
    case (Inl x)
    with a h(1,2) have "x \<in> E" unfolding yields_def by fastforce
    with h(3) Inl show ?thesis by (simp add: rbind_def)
  next
    case (Inr p)
    obtain v off1 where p: "p = (v, off1)" by fastforce
    with a h Inr obtain xs where "slice_at bs off xs off1" "P v xs" unfolding yields_def by fastforce
    with b [of v xs] h Inr p slice_at_end [of bs off xs off1] show ?thesis
      unfolding yields_def rbind_def by fastforce
  qed
next
  fix bs off w off'
  assume h: "vec_ok bs" "off \<le> length bs" "rbind rd k bs off = Inr (w, off')"
  then obtain v off1 where v: "rd bs off = Inr (v, off1)" "k v bs off1 = Inr (w, off')"
    by (auto simp: rbind_def split: sum.splits)
  with a h obtain xs where xs: "slice_at bs off xs off1" "P v xs" unfolding yields_def by fastforce
  with b [of v xs] h(1) v(2) slice_at_end [OF xs(1)] obtain zs where
    zs: "slice_at bs off1 zs off'" "Q w (xs @ zs)" unfolding yields_def by fastforce
  with xs(1) slice_at_end [OF xs(1)] show "\<exists>ys. slice_at bs off ys off' \<and> Q w ys"
    by (intro exI [of _ "xs @ zs"]) (simp add: slice_at_append)
qed

section \<open>Fields\<close>

lemma yields_u8: "yields reader_u8 (\<lambda>v xs. xs = le8 v) {truncated_payload}"
proof (rule yieldsI)
  fix bs off v off'
  assume h: "vec_ok bs" "off \<le> length bs" "reader_u8 bs off = Inr (v, off')"
  with size_add_low [of bs off 1] have "off' = off + 1" "off < length bs" "v = bs ! off"
    by (auto simp: reader_u8_eq split: if_splits)
  then show "\<exists>xs. slice_at bs off xs off' \<and> xs = le8 v"
    by (simp add: slice_at_def le8_def writer_u8_def take_Suc_conv_app_nth)
qed (auto simp: reader_u8_eq split: if_splits)

lemma le32_onto: "\<exists>v. le32 v = [a, b, c, d]"
  using be32_decode [of d c b a] by (metis le32_rev rev.simps append.simps rev_rev_ident)

lemma yields_u32: "yields reader_u32 (\<lambda>v xs. xs = le32 v) {truncated_payload}"
proof (rule yieldsI)
  fix bs off v off'
  assume h: "vec_ok bs" "off \<le> length bs" "reader_u32 bs off = Inr (v, off')"
  let ?bs = "[bs ! off, bs ! (off + 1), bs ! (off + 2), bs ! (off + 3)]"
  have s: "off' = off + 4" "off + 4 \<le> length bs"
    using h size_add_low [of bs off 4] by (auto simp: reader_u32_eq Let_def split: if_splits)
  obtain w where w: "le32 w = ?bs" using le32_onto by blast
  from reader_u32_bytes [OF w] h s have "w = v"
    by (auto simp: reader_u32_eq Let_def split: if_splits)
  moreover have "take 4 (drop off bs) = ?bs" using s by (simp add: take_Suc_conv_app_nth numeral_eq_Suc)
  ultimately have "take 4 (drop off bs) = le32 v" using w by metis
  with s show "\<exists>xs. slice_at bs off xs off' \<and> xs = le32 v" by (simp add: slice_at_def)
qed (auto simp: reader_u32_eq Let_def split: if_splits)

lemma yields_str: "yields reader_str (\<lambda>v xs. xs = lestr v \<and> fits32 v) {truncated_payload}"
  unfolding reader_str_eq
proof (rule yields_bind [OF yields_u32])
  fix sz :: u32 and xs
  assume xs: "xs = le32 sz"
  let ?k = "\<lambda>data offset. if size_add offset (unat sz) > length data then Inl truncated_payload
     else Inr (string_of_bytes (take (unat sz) (drop offset data)), size_add offset (unat sz))"
  show "yields ?k (\<lambda>v zs. xs @ zs = lestr v \<and> fits32 v) {truncated_payload}"
  proof (rule yieldsI)
    fix bs off v off'
    assume h: "vec_ok bs" "off \<le> length bs" "?k bs off = Inr (v, off')"
    have sz: "unat sz < 4294967296" by simp
    with h size_add_low [of bs off "unat sz"] have s: "off' = off + unat sz" "off + unat sz \<le> length bs"
      "v = string_of_bytes (take (unat sz) (drop off bs))"
      by (auto split: if_splits)
    then have len: "length v = unat sz" by simp
    have "slice_at bs off (bytes_of_string v) off'" using s by (simp add: slice_at_def)
    moreover have "le32 sz @ bytes_of_string v = lestr v" by (simp add: lestr_eq len)
    moreover have "fits32 v" using len sz by (simp add: fits32_def)
    ultimately show "\<exists>zs. slice_at bs off zs off' \<and> xs @ zs = lestr v \<and> fits32 v"
      unfolding xs by blast
  qed (auto split: if_splits)
qed

lemma yields_more: "yields rd P E \<Longrightarrow> E \<subseteq> F \<Longrightarrow> yields rd P F"
  unfolding yields_def by (fastforce split: sum.splits)

section \<open>Roles and messages\<close>

definition codec_errors :: "cpp_exception set" where
  "codec_errors = {truncated_payload, Runtime_Error ''Invalid LLM request payload'',
     Runtime_Error ''Invalid LLM response payload'', Runtime_Error ''LLMMessageCodec: invalid prompt role''}"

lemma codec_errors_sub: "{truncated_payload} \<subseteq> codec_errors"
  by (simp add: codec_errors_def)

lemmas codec_u8 = yields_more [OF yields_u8 codec_errors_sub]
lemmas codec_u32 = yields_more [OF yields_u32 codec_errors_sub]
lemmas codec_f32 = codec_u32 [folded reader_f32_def]
lemmas codec_str = yields_more [OF yields_str codec_errors_sub]

lemma yields_role: "yields (u8_to_role b) (\<lambda>r xs. xs = [] \<and> b = role_to_u8 r) codec_errors"
  by (auto simp: u8_to_role_def role_to_u8_def codec_errors_def intro: yields_ret yields_throw)

lemma yields_messages:
  "yields (read_messages n p) (\<lambda>q xs. \<exists>ms. length ms = n \<and> q = p\<lparr>pr_messages := pr_messages p @ ms\<rparr> \<and>
     (\<forall>m \<in> set ms. fits32 (pm_content m)) \<and> xs = concat (map message_bytes ms)) codec_errors"
proof (induction n arbitrary: p)
  case 0
  show ?case unfolding read_messages.simps by (rule yields_ret) simp
next
  case (Suc n)
  show ?case unfolding read_messages.simps
  proof (rule yields_bind [OF codec_u8], rule yields_bind [OF yields_role], rule yields_bind [OF codec_str], goal_cases)
    case (1 b xs r ys c zs)
    let ?m = "\<lparr>pm_role = r, pm_content = c\<rparr>"
    have b: "message_bytes ?m = xs @ ys @ zs" using 1 by (simp add: message_bytes_def)
    have "\<exists>ms. length ms = Suc n \<and> q = p\<lparr>pr_messages := pr_messages p @ ms\<rparr> \<and>
        (\<forall>m \<in> set ms. fits32 (pm_content m)) \<and> xs @ ys @ zs @ us = concat (map message_bytes ms)"
      if "length ms = n" "q = (add_prompt_message p r c)\<lparr>pr_messages := pr_messages (add_prompt_message p r c) @ ms\<rparr>"
        "\<forall>m \<in> set ms. fits32 (pm_content m)" "us = concat (map message_bytes ms)" for q us ms
      using that 1 b by (intro exI [of _ "?m # ms"]) (simp add: add_prompt_message_eq add_message_def)
    then show ?case using Suc.IH [of "add_prompt_message p r c"] unfolding yields_def
      by (fastforce split: sum.splits)
  qed
qed

section \<open>Layouts with any code for a status and a flag\<close>

definition request_layout :: "u8 \<Rightarrow> llm_request \<Rightarrow> bytes" where
  "request_layout b r = lestr ''GLM_REQ_V1'' @ lestr (rq_request_id r) @
     le32 (gc_max_tokens (rq_config r)) @ le32 (gc_temperature (rq_config r)) @ le32 (gc_top_p (rq_config r)) @
     le32 (gc_seed (rq_config r)) @ le32 (gc_timeout_ms (rq_config r)) @
     le8 b @ le32 (of_nat (length (pr_messages (rq_prompt r)))) @
     concat (map message_bytes (pr_messages (rq_prompt r)))"

definition response_layout :: "u8 \<Rightarrow> llm_response \<Rightarrow> bytes" where
  "response_layout b r = lestr ''GLM_RES_V1'' @ lestr (rp_request_id r) @ le8 b @ lestr (lr_text (rp_result r)) @
     le32 (lr_prompt_tokens (rp_result r)) @ le32 (lr_completion_tokens (rp_result r)) @
     le32 (lr_elapsed_ms (rp_result r)) @ lestr (lr_error_message (rp_result r))"

lemma reads_response:
  assumes "response_fits r" "u8_to_status b = lr_status (rp_result r)"
  shows "reads decode_response_payload r (response_layout b r)"
proof -
  note read_last = read_str_then [where ys = "[]", unfolded append_Nil2]
  show ?thesis
    unfolding decode_response_payload_def response_layout_def
    by (intro read_magic_then fits32_magic read_u32_then read_u8_then read_str_then read_last reads_ret_eq)
      (use assms in \<open>simp_all add: response_fits_def\<close>)
qed

lemma reads_request:
  assumes "request_fits r" "(b \<noteq> 0) = gc_stream (rq_config r)"
  shows "reads decode_request_payload r (request_layout b r)"
proof -
  have n: "unat (of_nat (length (pr_messages (rq_prompt r))) :: u32) = length (pr_messages (rq_prompt r))"
    using assms(1) by (simp add: request_fits_def prompt_fits_def)
  have "reads (read_messages (unat (of_nat (length (pr_messages (rq_prompt r))) :: u32)) empty_prompt) (rq_prompt r)
      (concat (map message_bytes (pr_messages (rq_prompt r))))"
    using reads_messages [of "pr_messages (rq_prompt r)" empty_prompt] assms(1)
    by (simp add: n request_fits_def prompt_fits_def empty_prompt_def)
  note read_prompt_then = reads_bind [OF this reads_ret_eq, unfolded append_Nil2]
  show ?thesis
    unfolding decode_request_payload_def request_layout_def
    by (intro read_magic_then fits32_magic read_str_then read_u32_then read_f32_then read_u8_then read_prompt_then)
      (use assms in \<open>simp_all add: request_fits_def\<close>)
qed

lemma yields_response:
  "yields decode_response_payload (\<lambda>r xs. response_fits r \<and>
     (\<exists>b. u8_to_status b = lr_status (rp_result r) \<and> xs = response_layout b r)) codec_errors"
  unfolding decode_response_payload_def
proof (rule yields_bind [OF codec_str], goal_cases)
  case (1 magic x1)
  show ?case
  proof (cases "magic = ''GLM_RES_V1''")
    case False
    then show ?thesis by (simp add: yields_throw codec_errors_def)
  next
    case True
    show ?thesis unfolding True if_False not_not simp_thms
    proof (rule yields_bind [OF codec_str], rule yields_bind [OF codec_u8], rule yields_bind [OF codec_str],
        rule yields_bind [OF codec_u32], rule yields_bind [OF codec_u32], rule yields_bind [OF codec_u32],
        rule yields_bind [OF codec_str], rule yields_ret, goal_cases)
      case (1 i x2 b x3 t x4 p x5 c x6 e x7 m x8)
      then show ?case using \<open>x1 = lestr magic \<and> fits32 magic\<close> True
        by (auto simp: response_fits_def response_layout_def)
    qed
  qed
qed

lemma yields_request:
  "yields decode_request_payload (\<lambda>r xs. request_fits r \<and>
     (\<exists>b. (b \<noteq> 0) = gc_stream (rq_config r) \<and> xs = request_layout b r)) codec_errors"
  unfolding decode_request_payload_def
proof (rule yields_bind [OF codec_str], goal_cases)
  case (1 magic x1)
  show ?case
  proof (cases "magic = ''GLM_REQ_V1''")
    case False
    then show ?thesis by (simp add: yields_throw codec_errors_def)
  next
    case True
    show ?thesis unfolding True if_False not_not simp_thms
    proof (rule yields_bind [OF codec_str], rule yields_bind [OF codec_u32], rule yields_bind [OF codec_f32],
        rule yields_bind [OF codec_f32], rule yields_bind [OF codec_u32], rule yields_bind [OF codec_u32],
        rule yields_bind [OF codec_u8], rule yields_bind [OF codec_u32], rule yields_bind [OF yields_messages],
        rule yields_ret, goal_cases)
      case (1 i x2 mx x3 t x4 tp x5 sd x6 tm x7 b x8 n x9 p x10)
      then obtain ms where ms: "length ms = unat n" "p = empty_prompt\<lparr>pr_messages := pr_messages empty_prompt @ ms\<rparr>"
        "\<forall>m \<in> set ms. fits32 (pm_content m)" "x10 = concat (map message_bytes ms)" by blast
      have "unat n < 4294967296" by simp
      then have "fits32 ms" "of_nat (length ms) = n" using ms(1) by (simp_all add: fits32_def)
      with 1 ms True \<open>x1 = lestr magic \<and> fits32 magic\<close> show ?case
        by (auto simp: request_fits_def prompt_fits_def request_layout_def empty_prompt_def intro!: exI [of _ b])
    qed
  qed
qed

lemma reads_at_start:
  "reads rd r xs \<Longrightarrow> vec_ok (xs @ rest) \<Longrightarrow> rd (xs @ rest) 0 = Inr (r, length xs)"
  unfolding reads_def by (metis slice_at_zero)

lemma yields_at_start:
  assumes "yields rd P E" "vec_ok bs"
  shows "rd bs 0 = Inr (r, off) \<Longrightarrow> \<exists>xs rest. P r xs \<and> bs = xs @ rest" "rd bs 0 = Inl e \<Longrightarrow> e \<in> E"
  using assms unfolding yields_def by (fastforce simp: slice_at_zero)+

section \<open>Properties\<close>

text \<open>C14: \<open>decode_response\<close> returns a response exactly for messages named \<open>LLM_RESPONSE\<close> whose payload
  begins with the layout of that response, with any status byte that stands for its status
  (every byte above 4 does for \<open>BackendError\<close>); all its strings are then shorter than
  \<open>2 ^ 32\<close>. What it throws otherwise is one of the exceptions of the codec.\<close>

theorem decode_response_exact:
  assumes "vec_ok (e_payload (m_event m))"
  shows "(decode_response m = Inr r \<longleftrightarrow> e_name (m_event m) = ''LLM_RESPONSE'' \<and> response_fits r \<and>
      (\<exists>b rest. u8_to_status b = lr_status (rp_result r) \<and> e_payload (m_event m) = response_layout b r @ rest)) \<and>
    (decode_response m = Inl e \<longrightarrow> e = Runtime_Error ''Message is not LLM_RESPONSE'' \<or>
      e \<in> codec_errors)"
proof -
  let ?p = "e_payload (m_event m)"
  have "\<exists>b rest. response_fits r \<and> u8_to_status b = lr_status (rp_result r) \<and> ?p = response_layout b r @ rest"
    if "decode_response m = Inr r"
  proof -
    from that obtain off where "decode_response_payload ?p 0 = Inr (r, off)"
      by (auto simp: decode_response_def split: if_splits sum.splits)
    from yields_at_start(1) [OF yields_response assms this] show ?thesis by blast
  qed
  moreover have "decode_response m = Inr r"
    if "e_name (m_event m) = ''LLM_RESPONSE''" "response_fits r" "u8_to_status b = lr_status (rp_result r)"
      "?p = response_layout b r @ rest" for b rest
    using that reads_at_start [OF reads_response [OF that(2,3)], of rest] assms by (simp add: decode_response_def)
  moreover have "e_name (m_event m) = ''LLM_RESPONSE''" if "decode_response m = Inr r"
    using that by (simp add: decode_response_def split: if_splits)
  moreover have "e = Runtime_Error ''Message is not LLM_RESPONSE'' \<or> e \<in> codec_errors" if "decode_response m = Inl e"
    using that yields_at_start(2) [OF yields_response assms, of e]
    by (auto simp: decode_response_def split: if_splits sum.splits)
  ultimately show ?thesis by blast
qed

theorem decode_response_exact_witness:
  "decode_response (text_event 1 ''a'' ''b'' ''LLM_RESPONSE'' ''GLM'') \<noteq> Inr sample_response \<and>
   decode_response ((encode_response sample_response ''s'' ''c'')\<lparr>m_event := \<lparr>e_name = ''LLM_RESPONSE'',
     e_payload = response_layout 200 (sample_response\<lparr>rp_result := (rp_result sample_response)\<lparr>lr_status := BackendError\<rparr>\<rparr>)\<rparr>\<rparr>) =
   Inr (sample_response\<lparr>rp_result := (rp_result sample_response)\<lparr>lr_status := BackendError\<rparr>\<rparr>)"
proof -
  let ?r = "sample_response\<lparr>rp_result := (rp_result sample_response)\<lparr>lr_status := BackendError\<rparr>\<rparr>"
  let ?m = "(encode_response sample_response ''s'' ''c'')\<lparr>m_event := \<lparr>e_name = ''LLM_RESPONSE'', e_payload = response_layout 200 ?r\<rparr>\<rparr>"
  let ?t = "text_event 1 ''a'' ''b'' ''LLM_RESPONSE'' ''GLM''"
  have "vec_ok (e_payload (m_event ?m))" by (simp add: vec_ok_def response_layout_def sample_response_def default_llm_result_def)
  moreover have "response_fits ?r" using sample_response_fits by (simp add: response_fits_def)
  moreover have "u8_to_status 200 = lr_status (rp_result ?r)" by (simp add: u8_to_status_def)
  ultimately have "decode_response ?m = Inr ?r"
    using decode_response_exact [of ?m ?r] by fastforce
  moreover have "vec_ok (e_payload (m_event ?t))" "length (e_payload (m_event ?t)) = 3"
    by (simp_all add: vec_ok_def text_event_def event_message_def event_text_def)
  then have "decode_response ?t \<noteq> Inr sample_response"
    using decode_response_exact [of ?t sample_response] by (auto simp: response_layout_def)
  ultimately show ?thesis by blast
qed

text \<open>C25: \<open>decode_request\<close> returns a request exactly for messages named \<open>LLM_REQUEST\<close> whose payload
  begins with the layout of that request, with any nonzero byte for a set stream flag: roles
  have one code each, and an unknown one throws.\<close>

theorem decode_request_exact:
  assumes "vec_ok (e_payload (m_event m))"
  shows "(decode_request m = Inr r \<longleftrightarrow> e_name (m_event m) = ''LLM_REQUEST'' \<and> request_fits r \<and>
      (\<exists>b rest. (b \<noteq> 0) = gc_stream (rq_config r) \<and> e_payload (m_event m) = request_layout b r @ rest)) \<and>
    (decode_request m = Inl e \<longrightarrow> e = Runtime_Error ''Message is not LLM_REQUEST'' \<or>
      e \<in> codec_errors)"
proof -
  let ?p = "e_payload (m_event m)"
  have "\<exists>b rest. request_fits r \<and> (b \<noteq> 0) = gc_stream (rq_config r) \<and> ?p = request_layout b r @ rest"
    if "decode_request m = Inr r"
  proof -
    from that obtain off where "decode_request_payload ?p 0 = Inr (r, off)"
      by (auto simp: decode_request_def split: if_splits sum.splits)
    from yields_at_start(1) [OF yields_request assms this] show ?thesis by blast
  qed
  moreover have "decode_request m = Inr r"
    if "e_name (m_event m) = ''LLM_REQUEST''" "request_fits r" "(b \<noteq> 0) = gc_stream (rq_config r)"
      "?p = request_layout b r @ rest" for b rest
    using that reads_at_start [OF reads_request [OF that(2,3)], of rest] assms by (simp add: decode_request_def)
  moreover have "e_name (m_event m) = ''LLM_REQUEST''" if "decode_request m = Inr r"
    using that by (simp add: decode_request_def split: if_splits)
  moreover have "e = Runtime_Error ''Message is not LLM_REQUEST'' \<or> e \<in> codec_errors" if "decode_request m = Inl e"
    using that yields_at_start(2) [OF yields_request assms, of e]
    by (auto simp: decode_request_def split: if_splits sum.splits)
  ultimately show ?thesis by blast
qed

theorem decode_request_exact_witness:
  "decode_request ((encode_request sample_request ''c'' ''s'')\<lparr>m_event := \<lparr>e_name = ''LLM_REQUEST'',
     e_payload = request_layout 77 sample_request @ [1, 2]\<rparr>\<rparr>) = Inr sample_request"
proof -
  let ?m = "(encode_request sample_request ''c'' ''s'')\<lparr>m_event := \<lparr>e_name = ''LLM_REQUEST'',
     e_payload = request_layout 77 sample_request @ [1, 2]\<rparr>\<rparr>"
  have "vec_ok (e_payload (m_event ?m))"
    by (simp add: vec_ok_def request_layout_def sample_request_def add_user_def add_system_def add_message_def
        empty_prompt_def message_bytes_def)
  moreover have "request_fits sample_request" using sample_request_small by (simp add: request_small_def)
  moreover have "((77 :: u8) \<noteq> 0) = gc_stream (rq_config sample_request)" by (simp add: sample_request_def)
  ultimately show ?thesis using decode_request_exact [of ?m sample_request] by fastforce
qed

end
