(* ===== verification/Tcp.thy ===== *)
theory Tcp
  imports Transport
begin

text \<open>
  \<open>TcpByteTransport\<close> of \<open>core/src/tcp_byte_transport.cpp\<close>. The Winsock calls are the record
  \<open>winsock\<close>, a parameter over the state \<open>'w\<close> of the operating system; what the properties
  assume of \<open>send\<close> and \<open>recv\<close> on a connected stream socket are the predicates
  \<open>stream_sender\<close> and \<open>stream_receiver\<close>: each call moves at least one and at most the
  requested number of bytes, in order. Sizes are converted to \<open>int\<close> and back as the code
  does. Allocation failure is not modelled.
\<close>

section \<open>The socket interface\<close>

record 'w winsock =
  ws_startup :: "'w \<Rightarrow> 'w"
  ws_socket :: "'w \<Rightarrow> u64 \<times> 'w"
  ws_inet_pton :: "string \<Rightarrow> int \<times> u32"
  ws_connect :: "u64 \<Rightarrow> u32 \<Rightarrow> u16 \<Rightarrow> 'w \<Rightarrow> int \<times> 'w"
  ws_bind :: "u64 \<Rightarrow> u16 \<Rightarrow> 'w \<Rightarrow> int \<times> 'w"
  ws_listen :: "u64 \<Rightarrow> int \<Rightarrow> 'w \<Rightarrow> int \<times> 'w"
  ws_accept :: "u64 \<Rightarrow> 'w \<Rightarrow> u64 \<times> 'w"
  ws_closesocket :: "u64 \<Rightarrow> 'w \<Rightarrow> 'w"
  ws_send :: "u64 \<Rightarrow> bytes \<Rightarrow> 'w \<Rightarrow> int \<times> 'w"
  ws_recv :: "u64 \<Rightarrow> int \<Rightarrow> 'w \<Rightarrow> int \<times> bytes \<times> 'w"
  ws_select_read :: "u64 \<Rightarrow> 'w \<Rightarrow> int"

text \<open>The process: whether the static \<open>WinsockRuntime\<close> has been constructed, and the rest.\<close>

record 'w process =
  ps_winsock_started :: bool
  ps_os :: 'w

definition invalid_socket :: u64 where "invalid_socket = - 1"
definition socket_error :: int where "socket_error = - 1"

definition winsock_runtime :: "'w winsock \<Rightarrow> 'w process \<Rightarrow> 'w process" where
  "winsock_runtime ws p =
     (if ps_winsock_started p then p
      else p\<lparr>ps_winsock_started := True, ps_os := ws_startup ws (ps_os p)\<rparr>)"

section \<open>Conversions and buffers\<close>

text \<open>\<open>static_cast<int>\<close> of an unsigned number.\<close>

definition int_of_size :: "nat \<Rightarrow> int" where
  "int_of_size n = sint (of_nat n :: 32 word)"

text \<open>\<open>vector::resize\<close>, and bytes written into a buffer from an index on.\<close>

definition vec_resize :: "nat \<Rightarrow> bytes \<Rightarrow> bytes" where
  "vec_resize n bs = take n bs @ replicate (n - length bs) 0"

definition store_at :: "bytes \<Rightarrow> nat \<Rightarrow> bytes \<Rightarrow> bytes" where
  "store_at buf i xs = take i buf @ xs @ drop (i + length xs) buf"

section \<open>The transfer loops\<close>

function send_all_from ::
    "'w winsock \<Rightarrow> u64 \<Rightarrow> bytes \<Rightarrow> int \<Rightarrow> int \<Rightarrow> 'w \<Rightarrow> bool \<times> 'w" where
  "send_all_from ws h data sz total_sent w =
     (if total_sent < sz
      then case ws_send ws h (take (nat (sz - total_sent)) (drop (nat total_sent) data)) w of
        (sent, w) \<Rightarrow>
          if sent \<le> 0 then (False, w) else send_all_from ws h data sz (total_sent + sent) w
      else (True, w))"
  by pat_completeness auto
termination
  by (relation "measure (\<lambda>(ws, h, data, sz, total_sent, w). nat (sz - total_sent))") auto

definition send_all :: "'w winsock \<Rightarrow> u64 \<Rightarrow> bytes \<Rightarrow> int \<Rightarrow> 'w \<Rightarrow> bool \<times> 'w" where
  "send_all ws h data sz w = send_all_from ws h data sz 0 w"

function recv_all_from ::
    "'w winsock \<Rightarrow> u64 \<Rightarrow> bytes \<Rightarrow> int \<Rightarrow> int \<Rightarrow> 'w \<Rightarrow> bool \<times> bytes \<times> 'w" where
  "recv_all_from ws h data sz total_received w =
     (if total_received < sz
      then case ws_recv ws h (sz - total_received) w of (received, written, w) \<Rightarrow>
          if received \<le> 0 then (False, data, w)
          else recv_all_from ws h (store_at data (nat total_received) written) sz
                 (total_received + received) w
      else (True, data, w))"
  by pat_completeness auto
termination
  by (relation "measure (\<lambda>(ws, h, data, sz, total_received, w). nat (sz - total_received))") auto

definition recv_all :: "'w winsock \<Rightarrow> u64 \<Rightarrow> bytes \<Rightarrow> int \<Rightarrow> 'w \<Rightarrow> bool \<times> bytes \<times> 'w" where
  "recv_all ws h data sz w = recv_all_from ws h data sz 0 w"

declare send_all_from.simps [simp del] recv_all_from.simps [simp del]

definition read_u32_be :: "bytes \<Rightarrow> u32" where
  "read_u32_be data =
     push_bit 24 (ucast (data ! 0)) OR push_bit 16 (ucast (data ! 1)) OR
     push_bit 8 (ucast (data ! 2)) OR ucast (data ! 3)"

section \<open>The transport\<close>

record 'w tcp_byte_transport =
  tcp_handle :: u64
  tcp_process :: "'w process"

definition new_tcp_byte_transport :: "'w winsock \<Rightarrow> u64 \<Rightarrow> 'w process \<Rightarrow> 'w tcp_byte_transport" where
  "new_tcp_byte_transport ws handle p = \<lparr>tcp_handle = handle, tcp_process = winsock_runtime ws p\<rparr>"

definition tcp_close :: "'w winsock \<Rightarrow> 'w tcp_byte_transport \<Rightarrow> 'w tcp_byte_transport" where
  "tcp_close ws t =
     (if tcp_handle t \<noteq> 0
      then t\<lparr>tcp_process := (tcp_process t)\<lparr>ps_os := ws_closesocket ws (tcp_handle t) (ps_os (tcp_process t))\<rparr>,
             tcp_handle := 0\<rparr>
      else t)"

text \<open>\<open>host.c_str()\<close> ends at the first null character.\<close>

definition c_str :: "string \<Rightarrow> string" where
  "c_str s = takeWhile (\<lambda>c. c \<noteq> CHR 0x00) s"

definition connect_to ::
    "'w winsock \<Rightarrow> string \<Rightarrow> u16 \<Rightarrow> 'w process \<Rightarrow> 'w tcp_byte_transport option \<times> 'w process" where
  "connect_to ws host port p =
     (let p = winsock_runtime ws p
      in case ws_socket ws (ps_os p) of (client_socket, w) \<Rightarrow>
        let p = p\<lparr>ps_os := w\<rparr>
        in if client_socket = invalid_socket then (None, p)
           else case ws_inet_pton ws (c_str host) of (converted, address) \<Rightarrow>
             if converted \<noteq> 1
             then (None, p\<lparr>ps_os := ws_closesocket ws client_socket (ps_os p)\<rparr>)
             else case ws_connect ws client_socket address port (ps_os p) of (result, w) \<Rightarrow>
               let p = p\<lparr>ps_os := w\<rparr>
               in if result = socket_error
                  then (None, p\<lparr>ps_os := ws_closesocket ws client_socket (ps_os p)\<rparr>)
                  else (Some (new_tcp_byte_transport ws client_socket p), winsock_runtime ws p))"

definition listen_once ::
    "'w winsock \<Rightarrow> u16 \<Rightarrow> 'w process \<Rightarrow> 'w tcp_byte_transport option \<times> 'w process" where
  "listen_once ws port p =
     (let p = winsock_runtime ws p
      in case ws_socket ws (ps_os p) of (listen_socket, w) \<Rightarrow>
        let p = p\<lparr>ps_os := w\<rparr>
        in if listen_socket = invalid_socket then (None, p)
           else case ws_bind ws listen_socket port (ps_os p) of (bind_result, w) \<Rightarrow>
             let p = p\<lparr>ps_os := w\<rparr>
             in if bind_result = socket_error
                then (None, p\<lparr>ps_os := ws_closesocket ws listen_socket (ps_os p)\<rparr>)
                else case ws_listen ws listen_socket 1 (ps_os p) of (listen_result, w) \<Rightarrow>
                  let p = p\<lparr>ps_os := w\<rparr>
                  in if listen_result = socket_error
                     then (None, p\<lparr>ps_os := ws_closesocket ws listen_socket (ps_os p)\<rparr>)
                     else case ws_accept ws listen_socket (ps_os p) of (accepted_socket, w) \<Rightarrow>
                       let p = p\<lparr>ps_os := ws_closesocket ws listen_socket w\<rparr>
                       in if accepted_socket = invalid_socket then (None, p)
                          else (Some (new_tcp_byte_transport ws accepted_socket p),
                                winsock_runtime ws p))"

definition tcp_send_bytes ::
    "'w winsock \<Rightarrow> bytes \<Rightarrow> 'w tcp_byte_transport \<Rightarrow> bool \<times> 'w tcp_byte_transport" where
  "tcp_send_bytes ws bs t =
     (if tcp_handle t = 0 \<or> bs = [] then (False, t)
      else case send_all ws (tcp_handle t) bs (int_of_size (length bs)) (ps_os (tcp_process t)) of
        (sent, w) \<Rightarrow> (sent, t\<lparr>tcp_process := (tcp_process t)\<lparr>ps_os := w\<rparr>\<rparr>))"

definition tcp_receive_bytes ::
    "'w winsock \<Rightarrow> 'w tcp_byte_transport \<Rightarrow> bytes option \<times> 'w tcp_byte_transport" where
  "tcp_receive_bytes ws t =
     (if tcp_handle t = 0 then (None, t)
      else case recv_all ws (tcp_handle t) (replicate 8 0) (int_of_size 8) (ps_os (tcp_process t)) of
        (received, header, w) \<Rightarrow>
          let t = t\<lparr>tcp_process := (tcp_process t)\<lparr>ps_os := w\<rparr>\<rparr>
          in if \<not> received then (None, t)
             else let payload_size = read_u32_be (drop 4 header);
                      remaining_size = payload_size + 4 :: u32;
                      frame = vec_resize (unat (8 + remaining_size)) header
               in case recv_all ws (tcp_handle t) (drop 8 frame) (int_of_size (unat remaining_size))
                         (ps_os (tcp_process t)) of
                    (received, rest, w) \<Rightarrow>
                      let t = t\<lparr>tcp_process := (tcp_process t)\<lparr>ps_os := w\<rparr>\<rparr>
                      in if \<not> received then (None, t) else (Some (take 8 frame @ rest), t))"

definition tcp_empty :: "'w winsock \<Rightarrow> 'w tcp_byte_transport \<Rightarrow> bool" where
  "tcp_empty ws t \<longleftrightarrow>
     (if tcp_handle t = 0 then True
      else ws_select_read ws (tcp_handle t) (ps_os (tcp_process t)) \<le> 0)"

section \<open>Stream sockets\<close>

definition stream_sender ::
    "'w winsock \<Rightarrow> u64 \<Rightarrow> ('w \<Rightarrow> bytes) \<Rightarrow> ('w \<Rightarrow> bool) \<Rightarrow> bool" where
  "stream_sender ws h sent invar \<longleftrightarrow> (\<forall>data w n w'.
     invar w \<longrightarrow> data \<noteq> [] \<longrightarrow> ws_send ws h data w = (n, w') \<longrightarrow>
       0 < n \<and> n \<le> int (length data) \<and> invar w' \<and> sent w' = sent w @ take (nat n) data)"

text \<open>\<open>pending\<close> is what the peer will have sent when it closes its end.\<close>

definition stream_receiver ::
    "'w winsock \<Rightarrow> u64 \<Rightarrow> ('w \<Rightarrow> bytes) \<Rightarrow> ('w \<Rightarrow> bool) \<Rightarrow> bool" where
  "stream_receiver ws h pending invar \<longleftrightarrow> (\<forall>len w n bs w'.
     invar w \<longrightarrow> 0 < len \<longrightarrow> ws_recv ws h len w = (n, bs, w') \<longrightarrow> invar w' \<and>
       (if pending w = [] then n \<le> 0 \<and> pending w' = []
        else 0 < n \<and> n \<le> len \<and> int (length bs) = n \<and> pending w = bs @ pending w'))"

lemma take_then_drop: "i \<le> n \<Longrightarrow> take i xs @ take (n - i) (drop i xs) = take n xs"
  by (metis le_add_diff_inverse take_add)

lemma send_all_from_done: "\<not> k < sz \<Longrightarrow> send_all_from ws h data sz k w = (True, w)"
  by (subst send_all_from.simps) simp

lemma recv_all_from_done: "\<not> k < sz \<Longrightarrow> recv_all_from ws h data sz k w = (True, data, w)"
  by (subst recv_all_from.simps) simp

lemma send_all_from_stream:
  assumes "stream_sender ws h sent invar"
  shows "0 \<le> k \<Longrightarrow> k \<le> sz \<Longrightarrow> sz \<le> int (length data) \<Longrightarrow> invar w \<Longrightarrow>
    \<exists>w'. send_all_from ws h data sz k w = (True, w') \<and> invar w' \<and>
      sent w' = sent w @ take (nat (sz - k)) (drop (nat k) data)"
proof (induction "nat (sz - k)" arbitrary: k w rule: less_induct)
  case less
  show ?case
  proof (cases "k < sz")
    case False
    with less.prems show ?thesis by (simp add: send_all_from_done)
  next
    case True
    let ?chunk = "take (nat (sz - k)) (drop (nat k) data)"
    obtain n w1 where 1: "ws_send ws h ?chunk w = (n, w1)" by fastforce
    have len: "int (length ?chunk) = sz - k" and "?chunk \<noteq> []" using True less.prems by auto
    with assms 1 less.prems(4)
    have n: "0 < n" "n \<le> sz - k" "invar w1" "sent w1 = sent w @ take (nat n) ?chunk"
      unfolding stream_sender_def by metis+
    have "nat (sz - (k + n)) < nat (sz - k)" using n(1) True by simp
    from less.hyps [OF this _ _ less.prems(3) n(3)] n less.prems
    obtain w2 where 2: "send_all_from ws h data sz (k + n) w1 = (True, w2)" "invar w2"
      "sent w2 = sent w1 @ take (nat (sz - (k + n))) (drop (nat (k + n)) data)" by auto
    have "take (nat n) ?chunk @ take (nat (sz - (k + n))) (drop (nat (k + n)) data) = ?chunk"
      using n(1,2) less.prems(1,2) take_then_drop [of "nat n" "nat (sz - k)" "drop (nat k) data"]
      by (simp add: min_absorb1 nat_add_distrib nat_diff_distrib' ac_simps diff_diff_left)
    with 1 2 n True show ?thesis by (simp add: send_all_from.simps [of ws h data sz k w])
  qed
qed

lemma recv_all_from_stream:
  assumes "stream_receiver ws h pending invar"
  shows "0 \<le> k \<Longrightarrow> k \<le> sz \<Longrightarrow> sz = int (length data) \<Longrightarrow> invar w \<Longrightarrow>
    pending w = xs @ rest \<Longrightarrow> int (length xs) = sz - k \<Longrightarrow>
    \<exists>w'. recv_all_from ws h data sz k w = (True, take (nat k) data @ xs, w') \<and> invar w' \<and>
      pending w' = rest"
proof (induction "nat (sz - k)" arbitrary: k w data xs rule: less_induct)
  case less
  show ?case
  proof (cases "k < sz")
    case False
    then have "k = sz" using less.prems(2) by simp
    moreover from this have "xs = []" using less.prems(6) by simp
    ultimately show ?thesis using less.prems by (simp add: recv_all_from_done)
  next
    case True
    obtain n bs w1 where 1: "ws_recv ws h (sz - k) w = (n, bs, w1)" by (metis prod_cases3)
    have "pending w \<noteq> []" "0 < sz - k" using True less.prems by auto
    with assms 1 less.prems(4)
    have n: "0 < n" "n \<le> sz - k" "int (length bs) = n" "pending w = bs @ pending w1" "invar w1"
      unfolding stream_receiver_def by metis+
    have le: "length bs \<le> length xs" using n(2,3) less.prems(6) by simp
    have "xs @ rest = bs @ pending w1" using n(4) less.prems(5) by simp
    with le obtain ys where ys: "xs = bs @ ys" "pending w1 = ys @ rest"
      by (auto simp: append_eq_append_conv2)
    let ?data = "store_at data (nat k) bs"
    have len: "sz = int (length ?data)" "nat (sz - (k + n)) < nat (sz - k)"
      using n less.prems True by (auto simp: store_at_def)
    have "int (length ys) = sz - (k + n)" using ys n(3) less.prems(6) by simp
    from less.hyps [OF len(2) _ _ len(1) n(5) ys(2) this] n less.prems
    obtain w2 where 2: "recv_all_from ws h ?data sz (k + n) w1 = (True, take (nat (k + n)) ?data @ ys, w2)"
      "invar w2" "pending w2 = rest" by auto
    have "take (nat (k + n)) ?data = take (nat k) data @ bs"
      using n less.prems by (auto simp: store_at_def nat_add_distrib)
    with 1 2 n True ys(1) show ?thesis by (simp add: recv_all_from.simps [of ws h data sz k w])
  qed
qed

lemma recv_all_from_truncated:
  assumes "stream_receiver ws h pending invar"
  shows "0 \<le> k \<Longrightarrow> k \<le> sz \<Longrightarrow> invar w \<Longrightarrow> int (length (pending w)) < sz - k \<Longrightarrow>
    \<exists>d w'. recv_all_from ws h data sz k w = (False, d, w') \<and> invar w' \<and> pending w' = []"
proof (induction "nat (sz - k)" arbitrary: k w data rule: less_induct)
  case less
  obtain n bs w1 where 1: "ws_recv ws h (sz - k) w = (n, bs, w1)" by (metis prod_cases3)
  have k: "k < sz" "0 < sz - k" using less.prems by auto
  show ?case
  proof (cases "pending w = []")
    case True
    with assms 1 k less.prems(3) have "n \<le> 0" "invar w1" "pending w1 = []"
      unfolding stream_receiver_def by metis+
    with 1 k show ?thesis by (simp add: recv_all_from.simps [of ws h data sz k w])
  next
    case False
    with assms 1 k less.prems(3)
    have n: "0 < n" "n \<le> sz - k" "int (length bs) = n" "pending w = bs @ pending w1" "invar w1"
      unfolding stream_receiver_def by metis+
    then have "nat (sz - (k + n)) < nat (sz - k)" "int (length (pending w1)) < sz - (k + n)"
      using less.prems by auto
    from less.hyps [OF this(1) _ _ n(5) this(2), of "store_at data (nat k) bs"] n less.prems 1 k
    show ?thesis by (simp add: recv_all_from.simps [of ws h data sz k w])
  qed
qed

lemma int_of_size_eq: "int_of_size n = (int n + 2147483648) mod 4294967296 - 2147483648"
  by (simp add: int_of_size_def sint_uint unsigned_of_nat signed_take_bit_eq_take_bit_shift
      take_bit_eq_mod of_nat_mod mod_simps)

lemma int_of_size_small: "n < 2147483648 \<Longrightarrow> int_of_size n = int n"
  by (simp add: int_of_size_eq)

lemma int_of_size_negative:
  assumes "2147483648 \<le> n" "n < 4294967296"
  shows "int_of_size n < 0"
proof -
  have "(int n + 2147483648) mod 4294967296 = ((int n - 2147483648) + 4294967296) mod 4294967296"
    by (simp add: add.commute)
  also have "\<dots> = int n - 2147483648"
    unfolding mod_add_self2 using assms by (intro mod_pos_pos_trivial) simp_all
  finally show ?thesis using assms by (simp add: int_of_size_eq)
qed

lemma list4: "length d = 4 \<Longrightarrow> \<exists>a b c e. d = [a, b, c, e]"
  by (auto simp: numeral_eq_Suc length_Suc_conv)

lemma read_u32_be_iff:
  assumes "length d = 4"
  shows "read_u32_be d = v \<longleftrightarrow> d = be32 v"
proof -
  from list4 [OF assms] obtain a b c e where "d = [a, b, c, e]" by blast
  with be32_decode [of a b c e v] show ?thesis by (auto simp: read_u32_be_def)
qed

section \<open>Properties of the transport\<close>

lemma recv_header:
  assumes "stream_receiver ws h pending invar" "invar w" "pending w = header @ rest" "length header = 8"
  shows "\<exists>w'. recv_all ws h (replicate 8 0) (int_of_size 8) w = (True, header, w') \<and> invar w' \<and>
    pending w' = rest"
proof -
  have "\<exists>w'. recv_all_from ws h (replicate 8 0) 8 0 w = (True, take (nat 0) (replicate 8 0) @ header, w') \<and>
      invar w' \<and> pending w' = rest"
    by (rule recv_all_from_stream [OF assms(1) _ _ _ assms(2,3)]) (simp_all add: assms(4))
  then show ?thesis by (simp add: recv_all_def int_of_size_small)
qed

lemma tcp_receive_header:
  assumes "stream_receiver ws (tcp_handle t) pending invar" "invar (ps_os (tcp_process t))"
    and "pending (ps_os (tcp_process t)) = magic @ be32 n @ rest" "length magic = 4" "tcp_handle t \<noteq> 0"
    and "unat (8 + (n + 4)) = frame_size" "unat (n + 4) = remaining"
    and "frame = vec_resize frame_size (magic @ be32 n)"
  shows "\<exists>w. invar w \<and> pending w = rest \<and> tcp_receive_bytes ws t =
    (case recv_all ws (tcp_handle t) (drop 8 frame) (int_of_size remaining) w of
       (received, rest, w') \<Rightarrow>
         let t' = t\<lparr>tcp_process := (tcp_process t)\<lparr>ps_os := w'\<rparr>\<rparr>
         in if \<not> received then (None, t') else (Some (take 8 frame @ rest), t'))"
proof -
  obtain w where w: "recv_all ws (tcp_handle t) (replicate 8 0) (int_of_size 8) (ps_os (tcp_process t)) =
      (True, magic @ be32 n, w)" "invar w" "pending w = rest"
    using recv_header [OF assms(1,2), of "magic @ be32 n" rest] assms(3,4) by auto
  have "read_u32_be (be32 n) = n" by (simp add: read_u32_be_iff)
  with w assms(4,5) show ?thesis unfolding assms(8) assms(6,7) [symmetric]
    by (intro exI [of _ w]) (simp add: tcp_receive_bytes_def Let_def case_prod_unfold)
qed

lemma tcp_receive_frame:
  assumes "stream_receiver ws (tcp_handle t) pending invar" "invar (ps_os (tcp_process t))"
    and "pending (ps_os (tcp_process t)) = frame_encode p @ rest"
    and "length p < 2147483644" "tcp_handle t \<noteq> 0"
  shows "\<exists>w. tcp_receive_bytes ws t =
      (Some (frame_encode p), t\<lparr>tcp_process := (tcp_process t)\<lparr>ps_os := w\<rparr>\<rparr>) \<and>
    invar w \<and> pending w = rest"
proof -
  let ?n = "of_nat (length p) :: u32"
  have n: "unat (?n + 4) = length p + 4" "unat (8 + (?n + 4)) = length p + 12"
    using assms(4) by (simp_all add: unat_word_ariths unat_of_nat)
  let ?tail = "p @ be32 (checksum p)"
  let ?frame = "vec_resize (length p + 12) (be32 frame_magic @ be32 ?n)"
  have f: "take 8 ?frame = be32 frame_magic @ be32 ?n" "drop 8 ?frame = replicate (length p + 4) 0"
    by (simp_all add: vec_resize_def)
  have "pending (ps_os (tcp_process t)) = be32 frame_magic @ be32 ?n @ (?tail @ rest)"
    using assms(3) by (simp add: frame_encode_layout)
  from tcp_receive_header [OF assms(1,2) this _ assms(5) n(2,1) refl]
  obtain w where w: "invar w" "pending w = ?tail @ rest" "tcp_receive_bytes ws t =
      (case recv_all ws (tcp_handle t) (drop 8 ?frame) (int_of_size (length p + 4)) w of
       (received, rest, w') \<Rightarrow>
         let t' = t\<lparr>tcp_process := (tcp_process t)\<lparr>ps_os := w'\<rparr>\<rparr>
         in if \<not> received then (None, t') else (Some (take 8 ?frame @ rest), t'))"
    by auto
  have "\<exists>w'. recv_all_from ws (tcp_handle t) (drop 8 ?frame) (int (length p) + 4) 0 w =
      (True, take (nat 0) (drop 8 ?frame) @ ?tail, w') \<and> invar w' \<and> pending w' = rest"
    by (rule recv_all_from_stream [OF assms(1) _ _ _ w(1,2)]) (simp_all add: f)
  then obtain w' where w': "recv_all ws (tcp_handle t) (drop 8 ?frame) (int_of_size (length p + 4)) w = (True, ?tail, w')"
    "invar w'" "pending w' = rest" using assms(4) by (auto simp: recv_all_def int_of_size_small)
  have "tcp_receive_bytes ws t = (Some (take 8 ?frame @ ?tail), t\<lparr>tcp_process := (tcp_process t)\<lparr>ps_os := w'\<rparr>\<rparr>)"
    unfolding w(3) w'(1) by simp
  with w'(2,3) show ?thesis unfolding f(1) frame_encode_layout by (intro exI [of _ w']) simp
qed

lemma tcp_send_stream:
  assumes "stream_sender ws (tcp_handle t) sent invar" "invar (ps_os (tcp_process t))"
    and "bs \<noteq> []" "length bs < 2147483648" "tcp_handle t \<noteq> 0"
  shows "\<exists>w. tcp_send_bytes ws bs t = (True, t\<lparr>tcp_process := (tcp_process t)\<lparr>ps_os := w\<rparr>\<rparr>) \<and>
    invar w \<and> sent w = sent (ps_os (tcp_process t)) @ bs"
proof -
  obtain w where "send_all_from ws (tcp_handle t) bs (int (length bs)) 0 (ps_os (tcp_process t)) = (True, w)"
    "invar w" "sent w = sent (ps_os (tcp_process t)) @ bs"
    using send_all_from_stream [OF assms(1) _ _ _ assms(2), of 0 "int (length bs)" bs] by auto
  with assms(3-5) show ?thesis
    by (intro exI [of _ w]) (simp add: tcp_send_bytes_def send_all_def int_of_size_small)
qed

lemma tcp_send_list_stream:
  assumes "stream_sender ws h sent invar" "h \<noteq> 0"
  shows "tcp_handle t = h \<Longrightarrow> invar (ps_os (tcp_process t)) \<Longrightarrow>
    \<forall>bs \<in> set bss. bs \<noteq> [] \<and> length bs < 2147483648 \<Longrightarrow>
    \<exists>t'. send_list (tcp_send_bytes ws) bss t = (True, t') \<and>
      sent (ps_os (tcp_process t')) = sent (ps_os (tcp_process t)) @ concat bss"
proof (induction bss arbitrary: t)
  case (Cons bs bss)
  with assms tcp_send_stream [of ws t sent invar bs] obtain w where
    w: "tcp_send_bytes ws bs t = (True, t\<lparr>tcp_process := (tcp_process t)\<lparr>ps_os := w\<rparr>\<rparr>)"
    "invar w" "sent w = sent (ps_os (tcp_process t)) @ bs" by auto
  with Cons.IH [of "t\<lparr>tcp_process := (tcp_process t)\<lparr>ps_os := w\<rparr>\<rparr>"] Cons.prems show ?case by simp
qed simp

lemma tcp_receive_list_stream:
  assumes "stream_receiver ws h pending invar" "h \<noteq> 0"
  shows "tcp_handle t = h \<Longrightarrow> invar (ps_os (tcp_process t)) \<Longrightarrow>
    pending (ps_os (tcp_process t)) = concat (map frame_encode ps) @ rest \<Longrightarrow>
    \<forall>p \<in> set ps. length p < 2147483636 \<Longrightarrow>
    \<exists>t'. receive_n (tcp_receive_bytes ws) (length ps) t = (map (Some \<circ> frame_encode) ps, t') \<and>
      pending (ps_os (tcp_process t')) = rest"
proof (induction ps arbitrary: t)
  case (Cons p ps)
  with assms tcp_receive_frame [of ws t pending invar p "concat (map frame_encode ps) @ rest"] obtain w where
    w: "tcp_receive_bytes ws t = (Some (frame_encode p), t\<lparr>tcp_process := (tcp_process t)\<lparr>ps_os := w\<rparr>\<rparr>)"
    "invar w" "pending w = concat (map frame_encode ps) @ rest" by auto
  with Cons.IH [of "t\<lparr>tcp_process := (tcp_process t)\<lparr>ps_os := w\<rparr>\<rparr>"] Cons.prems show ?case by auto
qed simp

lemma recv_all_truncated:
  assumes "stream_receiver ws h pending invar" "invar w" "length (pending w) < n" "n < 2147483648"
  shows "\<exists>d w'. recv_all ws h data (int_of_size n) w = (False, d, w') \<and> invar w' \<and> pending w' = []"
  using recv_all_from_truncated [OF assms(1) _ _ assms(2), of 0 "int n" data] assms(3,4)
  by (simp add: recv_all_def int_of_size_small)

lemma tcp_receive_truncated:
  assumes "stream_receiver ws (tcp_handle t) pending invar" "invar (ps_os (tcp_process t))"
    and "pending (ps_os (tcp_process t)) = take k (frame_encode p)" "k < length (frame_encode p)"
    and "length p < 2147483636" "tcp_handle t \<noteq> 0"
  shows "fst (tcp_receive_bytes ws t) = None"
proof (cases "k < 8")
  case True
  with recv_all_truncated [OF assms(1,2), of 8 "replicate 8 0"] assms(3,6)
  show ?thesis by (auto simp: tcp_receive_bytes_def Let_def)
next
  case False
  let ?n = "of_nat (length p) :: u32" and ?tail = "take (k - 8) (p @ be32 (checksum p))"
  have n: "unat (8 + (?n + 4)) = length p + 12" "unat (?n + 4) = length p + 4"
    using assms(5) by (simp_all add: unat_word_ariths unat_of_nat)
  have "pending (ps_os (tcp_process t)) = be32 frame_magic @ be32 ?n @ ?tail"
    using False assms(3) by (simp add: frame_encode_layout)
  from tcp_receive_header [OF assms(1,2) this _ assms(6) n refl]
  obtain w where w: "invar w" "pending w = ?tail" "tcp_receive_bytes ws t =
     (case recv_all ws (tcp_handle t) (drop 8 (vec_resize (length p + 12) (be32 frame_magic @ be32 ?n)))
        (int_of_size (length p + 4)) w of
       (received, rest, w') \<Rightarrow>
         let t' = t\<lparr>tcp_process := (tcp_process t)\<lparr>ps_os := w'\<rparr>\<rparr>
         in if \<not> received then (None, t')
            else (Some (take 8 (vec_resize (length p + 12) (be32 frame_magic @ be32 ?n)) @ rest), t'))"
    by auto
  have "length (pending w) < length p + 4" "length p + 4 < 2147483648"
    using w(2) assms(4,5) False by simp_all
  from recv_all_truncated [OF assms(1) w(1) this] obtain d w' where
    "recv_all ws (tcp_handle t) (drop 8 (vec_resize (length p + 12) (be32 frame_magic @ be32 ?n)))
       (int_of_size (length p + 4)) w = (False, d, w')" by blast
  then show ?thesis unfolding w(3) by simp
qed

lemma checksum_zeros: "checksum (replicate n 0) = 0"
  by (simp add: checksum_def, induction n) simp_all

lemma tcp_receive_forged:
  assumes "stream_receiver ws (tcp_handle t) pending invar" "invar (ps_os (tcp_process t))"
    and "pending (ps_os (tcp_process t)) = be32 frame_magic @ be32 n @ rest"
    and "2147483644 \<le> unat n" "unat n < 4294967284" "tcp_handle t \<noteq> 0"
  shows "\<exists>w. tcp_receive_bytes ws t = (Some (frame_encode (replicate (unat n) 0)),
      t\<lparr>tcp_process := (tcp_process t)\<lparr>ps_os := w\<rparr>\<rparr>) \<and> pending w = rest"
proof -
  have n: "unat (8 + (n + 4)) = unat n + 12" "unat (n + 4) = unat n + 4"
    using assms(5) by (simp_all add: unat_word_ariths)
  let ?frame = "vec_resize (unat n + 12) (be32 frame_magic @ be32 n)"
  from tcp_receive_header [OF assms(1-3) _ assms(6) n refl] obtain w where
    w: "pending w = rest" "tcp_receive_bytes ws t =
     (case recv_all ws (tcp_handle t) (drop 8 ?frame) (int_of_size (unat n + 4)) w of
       (received, rest, w') \<Rightarrow>
         let t' = t\<lparr>tcp_process := (tcp_process t)\<lparr>ps_os := w'\<rparr>\<rparr>
         in if \<not> received then (None, t') else (Some (take 8 ?frame @ rest), t'))"
    by auto
  have "recv_all ws (tcp_handle t) (drop 8 ?frame) (int_of_size (unat n + 4)) w = (True, drop 8 ?frame, w)"
    using int_of_size_negative [of "unat n + 4"] assms(4,5) by (simp add: recv_all_def recv_all_from_done)
  then have "tcp_receive_bytes ws t = (Some (take 8 ?frame @ drop 8 ?frame), t\<lparr>tcp_process := (tcp_process t)\<lparr>ps_os := w\<rparr>\<rparr>)"
    unfolding w(2) by simp
  moreover have "?frame = frame_encode (replicate (unat n) 0)"
    by (simp add: vec_resize_def frame_encode_layout checksum_zeros be32_bytes replicate_add [symmetric]
        numeral_eq_Suc replicate_append_same [symmetric])
  ultimately show ?thesis using w(1) by (intro exI [of _ w]) simp
qed

section \<open>A loopback socket that moves at most \<open>k\<close> bytes a call\<close>

definition loopback :: "nat \<Rightarrow> bytes winsock" where
  "loopback k = \<lparr>ws_startup = (\<lambda>w. w), ws_socket = (\<lambda>w. (1, w)), ws_inet_pton = (\<lambda>_. (1, 0)),
     ws_connect = (\<lambda>_ _ _ w. (0, w)), ws_bind = (\<lambda>_ _ w. (0, w)), ws_listen = (\<lambda>_ _ w. (0, w)),
     ws_accept = (\<lambda>_ w. (2, w)), ws_closesocket = (\<lambda>_ w. w),
     ws_send = (\<lambda>_ data w. (int (min k (length data)), w @ take k data)),
     ws_recv = (\<lambda>_ len w. (int (min (min k (nat len)) (length w)), take (min k (nat len)) w,
                           drop (min k (nat len)) w)),
     ws_select_read = (\<lambda>_ w. if w = [] then 0 else 1)\<rparr>"

lemma loopback_sender: "0 < k \<Longrightarrow> stream_sender (loopback k) h (\<lambda>w. w) (\<lambda>_. True)"
  by (auto simp: stream_sender_def loopback_def min_def)

lemma loopback_receiver: "0 < k \<Longrightarrow> stream_receiver (loopback k) h (\<lambda>w. w) (\<lambda>_. True)"
  by (auto simp: stream_receiver_def loopback_def min_def)

definition loopback_transport :: "bytes \<Rightarrow> bytes tcp_byte_transport" where
  "loopback_transport w = \<lparr>tcp_handle = 1, tcp_process = \<lparr>ps_winsock_started = True, ps_os = w\<rparr>\<rparr>"

section \<open>Properties\<close>

text \<open>C5: However the sockets split the stream into \<open>send\<close> and \<open>recv\<close> calls, frames of
  payloads shorter than \<open>2 ^ 31 - 12\<close> bytes sent with \<open>send_bytes\<close> are all reported as sent,
  and \<open>receive_bytes\<close> at the other end returns exactly these frames, one per call and in order,
  and leaves nothing behind.\<close>

theorem tcp_frames_round_trip:
  assumes "stream_sender wsa (tcp_handle a) sent inva" "inva (ps_os (tcp_process a))"
    and "stream_receiver wsb (tcp_handle b) pending invb" "invb (ps_os (tcp_process b))"
    and "tcp_handle a \<noteq> 0" "tcp_handle b \<noteq> 0" "sent (ps_os (tcp_process a)) = []"
    and "\<forall>p \<in> set ps. length p < 2147483636"
    and "send_list (tcp_send_bytes wsa) (map frame_encode ps) a = (ok, a')"
    and "pending (ps_os (tcp_process b)) = sent (ps_os (tcp_process a'))"
    and "receive_n (tcp_receive_bytes wsb) (length ps) b = (received, b')"
  shows "ok \<and> received = map (Some \<circ> frame_encode) ps \<and> pending (ps_os (tcp_process b')) = []"
proof -
  have "\<forall>bs \<in> set (map frame_encode ps). bs \<noteq> [] \<and> length bs < 2147483648"
    using assms(8) by (auto simp: frame_encode_layout be32_bytes)
  with tcp_send_list_stream [OF assms(1,5) refl assms(2)] assms(9,7)
  have ok: "ok" "sent (ps_os (tcp_process a')) = concat (map frame_encode ps)" by fastforce+
  with tcp_receive_list_stream [OF assms(3,6) refl assms(4), of ps "[]"] assms(8,10,11)
  show ?thesis by auto
qed

theorem tcp_frames_round_trip_witness:
  "\<exists>ok a' received b'.
     send_list (tcp_send_bytes (loopback 3)) (map frame_encode [[1, 2], []]) (loopback_transport []) = (ok, a') \<and>
     receive_n (tcp_receive_bytes (loopback 5)) 2 (loopback_transport (ps_os (tcp_process a'))) = (received, b') \<and>
     ok \<and> received = [Some (frame_encode [1, 2]), Some (frame_encode [])]"
proof -
  let ?ps = "[[1, 2], []] :: bytes list"
  obtain ok a' where 1: "send_list (tcp_send_bytes (loopback 3)) (map frame_encode ?ps)
    (loopback_transport []) = (ok, a')" by (metis surj_pair)
  obtain received b' where 2: "receive_n (tcp_receive_bytes (loopback 5)) (length ?ps)
    (loopback_transport (ps_os (tcp_process a'))) = (received, b')" by (metis surj_pair)
  have k: "0 < (3 :: nat)" "0 < (5 :: nat)" by simp_all
  from tcp_frames_round_trip [OF loopback_sender [OF k(1)] TrueI loopback_receiver [OF k(2)] TrueI _ _ _ _ 1 _ 2]
  have "ok \<and> received = map (Some \<circ> frame_encode) ?ps" by (simp add: loopback_transport_def)
  then have r: "ok \<and> received = [Some (frame_encode [1, 2]), Some (frame_encode [])]"
    by (simp del: send_list.simps)
  have "length ?ps = 2" by simp
  with 1 2 r show ?thesis by metis
qed

text \<open>C39: When the connection ends anywhere inside a frame whose payload is shorter than
  \<open>2 ^ 31 - 12\<close> bytes, in the header or after it,
  \<open>receive_bytes\<close> returns no bytes.\<close>

theorem tcp_truncated_stream:
  assumes "stream_receiver ws (tcp_handle t) pending invar" "invar (ps_os (tcp_process t))"
    and "pending (ps_os (tcp_process t)) = take k (frame_encode p)" "k < length (frame_encode p)"
    and "length p < 2147483636"
  shows "fst (tcp_receive_bytes ws t) = None"
  using tcp_receive_truncated [OF assms] by (cases "tcp_handle t = 0") (simp_all add: tcp_receive_bytes_def)

theorem tcp_truncated_stream_witness:
  "fst (tcp_receive_bytes (loopback 4) (loopback_transport (take 9 (frame_encode [7, 8])))) = None"
  by (rule tcp_truncated_stream [OF loopback_receiver, of _ _ 9 "[7, 8]"]) (simp_all add: loopback_transport_def)

text \<open>C40: A peer that sends a header alone, with a length field from \<open>2 ^ 31 - 4\<close> up to
  \<open>2 ^ 32 - 13\<close>, makes \<open>receive_bytes\<close> return a complete frame of that many zero bytes without
  reading any of them: the length turns negative as an \<open>int\<close>, the second \<open>recv_all\<close> does
  nothing, and \<open>Frame::decode\<close> accepts the result, whose checksum field is zero too.\<close>

theorem tcp_forged_length_accepted:
  assumes "stream_receiver ws (tcp_handle t) pending invar" "invar (ps_os (tcp_process t))"
    and "pending (ps_os (tcp_process t)) = be32 frame_magic @ be32 n @ rest"
    and "2147483644 \<le> unat n" "unat n < 4294967284" "tcp_handle t \<noteq> 0"
  shows "\<exists>frame w. tcp_receive_bytes ws t = (Some frame, t\<lparr>tcp_process := (tcp_process t)\<lparr>ps_os := w\<rparr>\<rparr>) \<and>
    pending w = rest \<and> frame_decode frame = \<lparr>fd_result = result_success, fd_payload = replicate (unat n) 0\<rparr>"
  using tcp_receive_forged [OF assms] frame_round_trip [of "replicate (unat n) 0"]
  by (auto simp: fits32_def)

theorem tcp_forged_length_accepted_witness:
  "\<exists>frame w. tcp_receive_bytes (loopback 4) (loopback_transport (be32 frame_magic @ be32 0x7FFFFFFC)) =
     (Some frame, loopback_transport w) \<and> w = [] \<and> fd_payload (frame_decode frame) = replicate 2147483644 0"
proof -
  have "0 < (4 :: nat)" by simp
  from tcp_forged_length_accepted [OF loopback_receiver [OF this], of
      "loopback_transport (be32 frame_magic @ be32 0x7FFFFFFC)" "0x7FFFFFFC" "[]"]
  obtain frame w where "tcp_receive_bytes (loopback 4) (loopback_transport (be32 frame_magic @ be32 0x7FFFFFFC)) =
      (Some frame, loopback_transport w) \<and> w = [] \<and> frame_decode frame =
      \<lparr>fd_result = result_success, fd_payload = replicate 2147483644 0\<rparr>"
    by (auto simp: loopback_transport_def)
  then show ?thesis by (intro exI [of _ frame] exI [of _ w]) simp
qed

text \<open>\<open>send_bytes\<close> of a vector of \<open>2 ^ 31\<close> up to \<open>2 ^ 32 - 1\<close> bytes reports success without
  sending a byte: its length is negative as an \<open>int\<close>, so the loop of \<open>send_all\<close> does not run.\<close>

theorem tcp_oversized_send_lost:
  assumes "2147483648 \<le> length bs" "length bs < 4294967296" "tcp_handle t \<noteq> 0"
  shows "tcp_send_bytes ws bs t = (True, t)"
  using int_of_size_negative [OF assms(1,2)] assms
  by (auto simp: tcp_send_bytes_def send_all_def send_all_from_done)

theorem tcp_oversized_send_lost_witness:
  "tcp_send_bytes (loopback 4) (replicate 2147483648 1) (loopback_transport []) = (True, loopback_transport [])"
  by (rule tcp_oversized_send_lost) (simp_all add: loopback_transport_def)

end
