(* ===== verification/Console.thy ===== *)
theory Console
  imports LLM_Core
begin

text \<open>
  What a program has written to \<open>std::cout\<close> and \<open>std::cerr\<close>. \<open>print_line\<close> is a chain of insertions that
  ends with a newline.
\<close>

record console =
  con_out :: string
  con_err :: string

definition empty_console :: console where
  "empty_console = \<lparr>con_out = [], con_err = []\<rparr>"

definition print_line :: "string \<Rightarrow> console \<Rightarrow> console" where
  "print_line s c = c\<lparr>con_out := con_out c @ s @ [newline]\<rparr>"

definition complain :: "string \<Rightarrow> console \<Rightarrow> console" where
  "complain s c = c\<lparr>con_err := con_err c @ s @ [newline]\<rparr>"

text \<open>A list of lines as text.\<close>

definition as_lines :: "string list \<Rightarrow> string" where
  "as_lines ls = concat (map (\<lambda>l. l @ [newline]) ls)"

lemma as_lines_simps [simp]:
  "as_lines [] = []" "as_lines (l # ls) = l @ newline # as_lines ls" "as_lines (ls @ ls') = as_lines ls @ as_lines ls'"
  by (simp_all add: as_lines_def)

lemma print_line_sel [simp]:
  "con_out (print_line s c) = con_out c @ as_lines [s]" "con_err (print_line s c) = con_err c"
  "con_out (complain s c) = con_out c" "con_err (complain s c) = con_err c @ as_lines [s]"
  "con_out empty_console = []" "con_err empty_console = []"
  by (simp_all add: print_line_def complain_def empty_console_def)

section \<open>Numbers as text\<close>

text \<open>An unsigned integer in decimal, as \<open>std::to_string\<close> and the streams write it.\<close>

fun show_nat :: "nat \<Rightarrow> string" where
  "show_nat n = (if n < 10 then [char_of (48 + n)] else show_nat (n div 10) @ [char_of (48 + n mod 10)])"

declare show_nat.simps [simp del]

lemma show_one: "show_nat (Suc 0) = ''1''"
proof -
  have "char_of (49 :: nat) = CHR ''1''" by code_simp
  then show ?thesis by (simp add: show_nat.simps)
qed

end
