(* ===== verification/LLM_Remote.thy ===== *)
theory LLM_Remote
  imports LLM_Codec Tcp Console
begin

text \<open>
  \<open>RemoteLLM\<close> of \<open>llm_remote\<close> and the server it talks to, \<open>examples/llm_nodes/llm_server.cpp\<close>,
  over the TCP transport of \<open>Tcp\<close>. The socket is closed where the \<open>unique_ptr\<close> that owns the
  transport goes out of scope. The steady clock reads the state of the operating system.
\<close>

section \<open>The remote runtime\<close>

record remote_llm =
  rl_host :: string
  rl_port :: u16
  rl_source :: string
  rl_target :: string
  rl_request_counter :: u64

definition new_remote_llm :: "string \<Rightarrow> u16 \<Rightarrow> string \<Rightarrow> string \<Rightarrow> remote_llm" where
  "new_remote_llm host port source target = \<lparr>rl_host = host, rl_port = port, rl_source = source,
     rl_target = target, rl_request_counter = 0\<rparr>"

text \<open>\<open>source\<close> and \<open>target\<close> have default arguments.\<close>

definition default_source :: string where "default_source = ''remote_llm.client''"
definition default_target :: string where "default_target = ''remote_llm.server''"

definition remote_llm_name :: string where "remote_llm_name = ''RemoteLLM''"

definition next_request_id :: "remote_llm \<Rightarrow> string \<times> remote_llm" where
  "next_request_id r =
     (let r = r\<lparr>rl_request_counter := rl_request_counter r + 1\<rparr>
      in (''remote-llm-req-'' @ show_nat (unat (rl_request_counter r)), r))"

definition llm_failure :: "llm_status \<Rightarrow> string \<Rightarrow> llm_result" where
  "llm_failure status message = default_llm_result\<lparr>lr_status := status, lr_error_message := message\<rparr>"

definition close_process :: "'w winsock \<Rightarrow> 'w tcp_byte_transport \<Rightarrow> 'w process" where
  "close_process ws t = tcp_process (tcp_close ws t)"

definition tcp_clock :: "('w \<Rightarrow> int \<times> 'w) \<Rightarrow> 'w tcp_byte_transport \<Rightarrow> int \<times> 'w tcp_byte_transport" where
  "tcp_clock clock t = (case clock (ps_os (tcp_process t)) of
     (now, w) \<Rightarrow> (now, t\<lparr>tcp_process := (tcp_process t)\<lparr>ps_os := w\<rparr>\<rparr>))"

definition remote_generate ::
    "'w winsock \<Rightarrow> ('w \<Rightarrow> int \<times> 'w) \<Rightarrow> (remote_llm \<times> 'w process) llm_generate" where
  "remote_generate ws clock p config st =
     (case st of (r, pr) \<Rightarrow>
      case clock (ps_os pr) of (start, w) \<Rightarrow>
      case connect_to ws (rl_host r) (rl_port r) (pr\<lparr>ps_os := w\<rparr>) of
        (None, pr) \<Rightarrow> (Inr (llm_failure BackendError ''Failed to connect to remote LLM server''), (r, pr))
      | (Some t, _) \<Rightarrow>
        case next_request_id r of (request_id, r) \<Rightarrow>
          let request = \<lparr>rq_request_id = request_id, rq_prompt = p, rq_config = config\<rparr>;
              message = encode_request request (rl_source r) (rl_target r)
          in case framed_send (tcp_send_bytes ws) message t of (sent, t) \<Rightarrow>
            if \<not> sent
            then (Inr (llm_failure BackendError ''Failed to send LLM_REQUEST''), (r, close_process ws t))
            else case framed_receive (tcp_receive_bytes ws) t of
              (None, t) \<Rightarrow> (Inr (llm_failure Timeout ''Failed to receive LLM_RESPONSE''), (r, close_process ws t))
            | (Some received, t) \<Rightarrow>
              if e_name (m_event received) \<noteq> ''LLM_RESPONSE''
              then (Inr (llm_failure BackendError
                      (''Received unexpected event: '' @ e_name (m_event received))), (r, close_process ws t))
              else case decode_response received of
                Inl e \<Rightarrow> (Inl e, (r, close_process ws t))
              | Inr response \<Rightarrow>
                case tcp_clock clock t of (stop, t) \<Rightarrow>
                  (Inr ((rp_result response)\<lparr>lr_elapsed_ms := word_of_int ((stop - start) sdiv 1000000)\<rparr>),
                   (r, close_process ws t)))"

section \<open>The server\<close>

text \<open>One connection: receive a request, generate, send the response. The value is the exit code.\<close>

definition serve_connection ::
    "'w winsock \<Rightarrow> 's llm_generate \<Rightarrow> 'w tcp_byte_transport \<Rightarrow> 's \<Rightarrow> console \<Rightarrow>
     (cpp_exception + int) \<times> 'w tcp_byte_transport \<times> 's \<times> console" where
  "serve_connection ws gen t s c =
     (case framed_receive (tcp_receive_bytes ws) t of
        (None, t) \<Rightarrow> (Inr 1, t, s, complain ''[llm-server] failed to receive message'' c)
      | (Some received, t) \<Rightarrow>
        let c = print_line (''[llm-server] received event: '' @ e_name (m_event received)) c
        in if e_name (m_event received) \<noteq> ''LLM_REQUEST''
           then (Inr 1, t, s, complain ''[llm-server] expected LLM_REQUEST'' c)
           else case decode_request received of
             Inl e \<Rightarrow> (Inl e, t, s, c)
           | Inr request \<Rightarrow>
             let c = print_line (''[llm-server] request id: '' @ rq_request_id request) c;
                 c = print_line ''[llm-server] prompt:'' c;
                 c = print_line (prompt_to_string (rq_prompt request)) c
             in case gen (rq_prompt request) (rq_config request) s of
               (Inl e, s) \<Rightarrow> (Inl e, t, s, c)
             | (Inr result, s) \<Rightarrow>
               let response = \<lparr>rp_request_id = rq_request_id request, rp_result = result\<rparr>;
                   message = encode_response response ''llm.server'' (m_source received)
               in case framed_send (tcp_send_bytes ws) message t of (sent, t) \<Rightarrow>
                 if \<not> sent then (Inr 1, t, s, complain ''[llm-server] failed to send response'' c)
                 else (Inr 0, t, s, print_line (''[llm-server] response sent: '' @ lr_text result) c))"

definition llm_server_response_text :: string where
  "llm_server_response_text = ''tool=turn_on_light'' @ [newline] @
     ''reason=motion detected near door'' @ [newline] @ ''confidence=0.82'' @ [newline]"

definition llm_server_main ::
    "'w winsock \<Rightarrow> ('s \<Rightarrow> int \<times> 's) \<Rightarrow> 'w process \<Rightarrow> 's \<Rightarrow>
     (cpp_exception + int) \<times> 'w process \<times> 's \<times> console" where
  "llm_server_main ws clock pr s =
     (let c = print_line (''[llm-server] listening on port '' @ show_nat 39200) empty_console
      in case listen_once ws 39200 pr of
        (None, pr) \<Rightarrow> (Inr 1, pr, s, complain ''[llm-server] failed to listen'' c)
      | (Some t, _) \<Rightarrow>
        case serve_connection ws (mock_generate clock llm_server_response_text) t s
               (print_line ''[llm-server] client connected'' c) of
          (code, t, s, c) \<Rightarrow> (code, close_process ws t, s, c))"

section \<open>Messages over a TCP connection\<close>

definition tcp_fits :: "message \<Rightarrow> bool" where
  "tcp_fits m \<longleftrightarrow> length (protocol_encode m) < 2147483636"

lemma tcp_fits_wire: "tcp_fits m \<Longrightarrow> wire_fits m"
  by (simp add: tcp_fits_def wire_fits_def fits32_def)

abbreviation os :: "'w tcp_byte_transport \<Rightarrow> 'w" where
  "os t \<equiv> ps_os (tcp_process t)"

lemma tcp_framed_send:
  assumes "stream_sender ws (tcp_handle t) sent invar" "invar (os t)" "tcp_handle t \<noteq> 0" "tcp_fits m"
  shows "\<exists>w. framed_send (tcp_send_bytes ws) m t = (True, t\<lparr>tcp_process := (tcp_process t)\<lparr>ps_os := w\<rparr>\<rparr>) \<and>
    invar w \<and> sent w = sent (os t) @ wire_encode m"
proof -
  have "wire_encode m \<noteq> []" "length (wire_encode m) < 2147483648"
    using assms(4) by (auto simp: wire_encode_def frame_encode_layout be32_bytes tcp_fits_def)
  from tcp_send_stream [OF assms(1,2) this assms(3)] show ?thesis by (simp add: framed_send_eq)
qed

lemma tcp_framed_receive:
  assumes "stream_receiver ws (tcp_handle t) pending invar" "invar (os t)" "tcp_handle t \<noteq> 0" "tcp_fits m"
    and "pending (os t) = wire_encode m @ rest"
  shows "\<exists>w. framed_receive (tcp_receive_bytes ws) t =
      (Some m, t\<lparr>tcp_process := (tcp_process t)\<lparr>ps_os := w\<rparr>\<rparr>) \<and> invar w \<and> pending w = rest"
proof -
  have "length (protocol_encode m) < 2147483644" using assms(4) by (simp add: tcp_fits_def)
  with tcp_receive_frame [OF assms(1,2), of "protocol_encode m" rest] assms(3,5)
  obtain w where "tcp_receive_bytes ws t = (Some (wire_encode m), t\<lparr>tcp_process := (tcp_process t)\<lparr>ps_os := w\<rparr>\<rparr>)"
    "invar w" "pending w = rest" by (auto simp: wire_encode_def)
  then show ?thesis
    by (intro exI [of _ w]) (simp add: framed_receive_eq wire_round_trip [OF tcp_fits_wire [OF assms(4)]])
qed

lemma tcp_framed_receive_truncated:
  assumes "stream_receiver ws (tcp_handle t) pending invar" "invar (os t)" "tcp_fits m"
    and "pending (os t) = take k (wire_encode m)" "k < length (wire_encode m)"
  shows "fst (framed_receive (tcp_receive_bytes ws) t) = None"
proof (cases "tcp_handle t = 0")
  case True
  then show ?thesis by (simp add: framed_receive_eq tcp_receive_bytes_def)
next
  case False
  have "fst (tcp_receive_bytes ws t) = None"
    using tcp_receive_truncated [OF assms(1,2) _ _ _ False, of k "protocol_encode m"] assms(3-5)
    by (simp add: wire_encode_def tcp_fits_def)
  then show ?thesis by (simp add: framed_receive_eq case_prod_unfold)
qed

lemma request_message_event [simp]:
  "e_name (m_event (encode_request rq s t)) = ''LLM_REQUEST''"
  "m_source (encode_request rq s t) = s"
  "e_name (m_event (encode_response rp s t)) = ''LLM_RESPONSE''"
  by (simp_all add: encode_request_def encode_response_def)

text \<open>A connected socket in both directions: receiving leaves what was sent alone.\<close>

definition duplex_socket ::
    "'w winsock \<Rightarrow> u64 \<Rightarrow> ('w \<Rightarrow> bytes) \<Rightarrow> ('w \<Rightarrow> bytes) \<Rightarrow> ('w \<Rightarrow> bool) \<Rightarrow> bool" where
  "duplex_socket ws h sent pending invar \<longleftrightarrow> h \<noteq> 0 \<and> stream_sender ws h sent invar \<and>
     (\<forall>out. stream_receiver ws h pending (\<lambda>w. invar w \<and> sent w = out))"

lemma duplexD:
  "duplex_socket ws h sent pending invar \<Longrightarrow> h \<noteq> 0"
  "duplex_socket ws h sent pending invar \<Longrightarrow> stream_sender ws h sent invar"
  "duplex_socket ws h sent pending invar \<Longrightarrow> stream_receiver ws h pending (\<lambda>w. invar w \<and> sent w = out)"
  by (simp_all add: duplex_socket_def)

text \<open>The response the server sends to a request whose generation gave a result.\<close>

definition response_message :: "llm_request \<Rightarrow> llm_result \<Rightarrow> string \<Rightarrow> message" where
  "response_message rq result client =
     encode_response \<lparr>rp_request_id = rq_request_id rq, rp_result = result\<rparr> ''llm.server'' client"

text \<open>What the server prints about a request it answers.\<close>

definition served_lines :: "llm_request \<Rightarrow> llm_result \<Rightarrow> string" where
  "served_lines rq result = as_lines [''[llm-server] received event: LLM_REQUEST'',
     ''[llm-server] request id: '' @ rq_request_id rq, ''[llm-server] prompt:'', prompt_to_string (rq_prompt rq),
     ''[llm-server] response sent: '' @ lr_text result]"

lemma serve_connection_answers:
  assumes d: "duplex_socket ws (tcp_handle t) sent pending invar" "invar (os t)"
    and rq: "request_small rq" "tcp_fits (encode_request rq source target)"
    and p: "pending (os t) = wire_encode (encode_request rq source target) @ rest"
    and g: "gen (rq_prompt rq) (rq_config rq) s = (Inr result, s')"
    and rp: "tcp_fits (response_message rq result source)"
  shows "\<exists>t' c'. serve_connection ws gen t s c = (Inr 0, t', s', c') \<and>
    sent (os t') = sent (os t) @ wire_encode (response_message rq result source) \<and>
    con_err c' = con_err c \<and> con_out c' = con_out c @ served_lines rq result"
proof -
  obtain w where w: "framed_receive (tcp_receive_bytes ws) t =
      (Some (encode_request rq source target), t\<lparr>tcp_process := (tcp_process t)\<lparr>ps_os := w\<rparr>\<rparr>)"
    "invar w" "sent w = sent (os t)"
    using tcp_framed_receive [OF duplexD(3) [OF d(1), of "sent (os t)"] _ duplexD(1) [OF d(1)] rq(2) p] d(2) by auto
  let ?t = "t\<lparr>tcp_process := (tcp_process t)\<lparr>ps_os := w\<rparr>\<rparr>"
  have "stream_sender ws (tcp_handle ?t) sent invar" "invar (os ?t)" "tcp_handle ?t \<noteq> 0"
    using duplexD(1,2) [OF d(1)] w(2) by simp_all
  from tcp_framed_send [OF this rp] obtain t' where
    "framed_send (tcp_send_bytes ws) (response_message rq result source) ?t = (True, t')"
    "sent (os t') = sent w @ wire_encode (response_message rq result source)" by force
  with w g decode_encode_request [OF rq(1)] show ?thesis
    by (simp add: serve_connection_def Let_def response_message_def served_lines_def)
qed

lemma connect_to_handle:
  "connect_to ws host port pr = (Some t, q) \<Longrightarrow> ps_winsock_started (tcp_process t)"
  by (auto simp: connect_to_def Let_def new_tcp_byte_transport_def winsock_runtime_def split: prod.splits if_splits)

text \<open>The request of the next call, and the message that carries it.\<close>

definition next_request :: "remote_llm \<Rightarrow> prompt \<Rightarrow> generation_config \<Rightarrow> llm_request" where
  "next_request r p c = \<lparr>rq_request_id = fst (next_request_id r), rq_prompt = p, rq_config = c\<rparr>"

definition request_message :: "remote_llm \<Rightarrow> prompt \<Rightarrow> generation_config \<Rightarrow> message" where
  "request_message r p c = encode_request (next_request r p c) (rl_source r) (rl_target r)"

lemma remote_generate_unfold:
  assumes "clock (ps_os pr) = (start, w)" "connect_to ws (rl_host r) (rl_port r) (pr\<lparr>ps_os := w\<rparr>) = (Some t, q)"
    and "framed_send (tcp_send_bytes ws) (request_message r p c) t = (True, t1)"
    and "framed_receive (tcp_receive_bytes ws) t1 = (received, t2)"
  shows "fst (remote_generate ws clock p c (r, pr)) =
    (case received of
       None \<Rightarrow> Inr (llm_failure Timeout ''Failed to receive LLM_RESPONSE'')
     | Some m \<Rightarrow>
        if e_name (m_event m) \<noteq> ''LLM_RESPONSE''
        then Inr (llm_failure BackendError (''Received unexpected event: '' @ e_name (m_event m)))
        else case decode_response m of
          Inl e \<Rightarrow> Inl e
        | Inr response \<Rightarrow> Inr ((rp_result response)
            \<lparr>lr_elapsed_ms := word_of_int ((fst (clock (os t2)) - start) sdiv 1000000)\<rparr>))"
proof -
  obtain i r' where i: "next_request_id r = (i, r')" "rl_source r' = rl_source r" "rl_target r' = rl_target r"
    by (auto simp: next_request_id_def Let_def)
  have "request_message r p c = encode_request \<lparr>rq_request_id = i, rq_prompt = p, rq_config = c\<rparr> (rl_source r') (rl_target r')"
    by (simp add: request_message_def next_request_def i)
  with assms i(1) show ?thesis
    by (cases received) (auto simp: remote_generate_def Let_def tcp_clock_def case_prod_unfold
        split: sum.split)
qed

text \<open>Whatever response the peer sends is returned, whichever request it answers.\<close>

lemma remote_returns_reply:
  assumes conn: "clock (ps_os pr) = (start, w)"
      "connect_to ws (rl_host r) (rl_port r) (pr\<lparr>ps_os := w\<rparr>) = (Some t, q)"
    and client: "duplex_socket ws (tcp_handle t) sent pending invar" "invar (os t)"
    and small: "tcp_fits (request_message r p c)" "response_fits rp" "tcp_fits (encode_response rp a b)"
    and linked: "\<And>t1. framed_send (tcp_send_bytes ws) (request_message r p c) t = (True, t1) \<Longrightarrow>
      pending (os t1) = wire_encode (encode_response rp a b) @ rest"
  shows "\<exists>elapsed. fst (remote_generate ws clock p c (r, pr)) = Inr ((rp_result rp)\<lparr>lr_elapsed_ms := elapsed\<rparr>)"
proof -
  let ?m = "request_message r p c"
  obtain w1 where w1: "framed_send (tcp_send_bytes ws) ?m t = (True, t\<lparr>tcp_process := (tcp_process t)\<lparr>ps_os := w1\<rparr>\<rparr>)"
    "invar w1"
    using tcp_framed_send [OF duplexD(2) [OF client(1)] client(2) duplexD(1) [OF client(1)] small(1)] by auto
  let ?t1 = "t\<lparr>tcp_process := (tcp_process t)\<lparr>ps_os := w1\<rparr>\<rparr>"
  have d1: "stream_receiver ws (tcp_handle ?t1) pending (\<lambda>w. invar w \<and> sent w = sent w1)"
    "invar (os ?t1) \<and> sent (os ?t1) = sent w1" "tcp_handle ?t1 \<noteq> 0"
    "pending (os ?t1) = wire_encode (encode_response rp a b) @ rest"
    using duplexD(1,3) [OF client(1)] w1 linked [OF w1(1)] by simp_all
  from tcp_framed_receive [OF d1(1) _ d1(3) small(3) d1(4)] d1(2) obtain t4 where
    t4: "framed_receive (tcp_receive_bytes ws) ?t1 = (Some (encode_response rp a b), t4)" by auto
  have "decode_response (encode_response rp a b) = Inr rp" by (rule decode_encode_response [OF small(2)])
  with remote_generate_unfold [where ws = ws and clock = clock and pr = pr and start = start and w = w
      and r = r and t = t and p = p and c = c, OF conn w1(1) t4] show ?thesis by auto
qed

lemma remote_server_compose:
  assumes conn: "clock (ps_os pr) = (start, w)"
      "connect_to ws (rl_host r) (rl_port r) (pr\<lparr>ps_os := w\<rparr>) = (Some t, q)"
    and client: "duplex_socket ws (tcp_handle t) sent pending invar" "invar (os t)"
    and server: "duplex_socket ws2 (tcp_handle t2) sent2 pending2 invar2" "invar2 (os t2)" "sent2 (os t2) = []"
    and small: "request_small (next_request r p c)" "tcp_fits (request_message r p c)"
      "response_fits \<lparr>rp_request_id = fst (next_request_id r), rp_result = result\<rparr>"
      "tcp_fits (response_message (next_request r p c) result (rl_source r))"
    and serve: "pending2 (os t2) = wire_encode (request_message r p c)" "gen p c s = (Inr result, s')"
      "serve_connection ws2 gen t2 s con = (code, t3, s3, con3)"
    and linked: "\<And>t1. framed_send (tcp_send_bytes ws) (request_message r p c) t = (True, t1) \<Longrightarrow>
      pending (os t1) = sent2 (os t3)"
  shows "code = Inr 0 \<and> con_err con3 = con_err con \<and> con_out con3 = con_out con @ served_lines (next_request r p c) result \<and>
    (\<exists>elapsed. fst (remote_generate ws clock p c (r, pr)) = Inr (result\<lparr>lr_elapsed_ms := elapsed\<rparr>))"
proof -
  let ?rq = "next_request r p c"
  let ?rp = "\<lparr>rp_request_id = fst (next_request_id r), rp_result = result\<rparr>"
  have m: "response_message ?rq result (rl_source r) = encode_response ?rp ''llm.server'' (rl_source r)"
    by (simp add: response_message_def next_request_def)
  have "gen (rq_prompt ?rq) (rq_config ?rq) s = (Inr result, s')"
    "pending2 (os t2) = wire_encode (encode_request ?rq (rl_source r) (rl_target r)) @ []"
    using serve(1,2) by (simp_all add: next_request_def request_message_def)
  from serve_connection_answers [where rest = "[]" and gen = gen, OF server(1,2) small(1) small(2) [unfolded request_message_def]
      this(2,1) small(4), of con] serve(3) server(3)
  have s: "code = Inr 0" "con_err con3 = con_err con" "con_out con3 = con_out con @ served_lines ?rq result" "sent2 (os t3) = wire_encode (encode_response ?rp ''llm.server'' (rl_source r)) @ []"
    by (auto simp: m)
  from remote_returns_reply [where rest = "[]" and clock = clock and pr = pr and r = r and p = p and c = c, OF conn client small(2,3) small(4) [unfolded m] linked [unfolded s(4)]]
  show ?thesis using s(1-3) by simp
qed

section \<open>Request ids\<close>

definition digits_value :: "string \<Rightarrow> nat" where
  "digits_value s = foldl (\<lambda>a c. 10 * a + (of_char c - 48)) 0 s"

lemma digits_value_show [simp]: "digits_value (show_nat n) = n"
proof (induction n rule: show_nat.induct)
  case (1 n)
  have d: "of_char (char_of (48 + k) :: char) = 48 + (k :: nat)" if "k < 10" for k
    using that by simp
  show ?case
  proof (cases "n < 10")
    case True
    then show ?thesis using d [of n] by (simp add: show_nat.simps [of n] digits_value_def)
  next
    case False
    with 1 d [of "n mod 10"] show ?thesis by (simp add: show_nat.simps [of n] digits_value_def)
  qed
qed

fun request_ids :: "nat \<Rightarrow> remote_llm \<Rightarrow> string list" where
  "request_ids 0 r = []"
| "request_ids (Suc n) r = (case next_request_id r of (i, r) \<Rightarrow> i # request_ids n r)"

lemma request_ids_nth:
  "k < n \<Longrightarrow> request_ids n r ! k = ''remote-llm-req-'' @ show_nat (unat (rl_request_counter r + of_nat (Suc k)))"
proof (induction n arbitrary: r k)
  case (Suc n)
  then show ?case by (cases k) (simp_all add: next_request_id_def Let_def ac_simps)
qed simp

lemma length_request_ids [simp]: "length (request_ids n r) = n"
  by (induction n arbitrary: r) (simp_all add: case_prod_unfold)

section \<open>A socket with an inbox and an outbox\<close>

definition boxes :: "nat \<Rightarrow> (bytes \<times> bytes) winsock" where
  "boxes k = \<lparr>ws_startup = (\<lambda>w. w), ws_socket = (\<lambda>w. (1, w)), ws_inet_pton = (\<lambda>_. (1, 0)),
     ws_connect = (\<lambda>_ _ _ w. (0, w)), ws_bind = (\<lambda>_ _ w. (0, w)), ws_listen = (\<lambda>_ _ w. (0, w)),
     ws_accept = (\<lambda>_ w. (1, w)), ws_closesocket = (\<lambda>_ w. w),
     ws_send = (\<lambda>_ data w. (int (min k (length data)), (fst w @ take k data, snd w))),
     ws_recv = (\<lambda>_ len w. (int (min (min k (nat len)) (length (snd w))), take (min k (nat len)) (snd w),
                           (fst w, drop (min k (nat len)) (snd w)))),
     ws_select_read = (\<lambda>_ w. if snd w = [] then 0 else 1)\<rparr>"

lemma boxes_duplex: "0 < k \<Longrightarrow> duplex_socket (boxes k) 1 fst snd (\<lambda>_. True)"
  by (auto simp: duplex_socket_def stream_sender_def stream_receiver_def boxes_def min_def)

lemma send_all_from_step:
  "n < sz \<Longrightarrow> ws_send ws h (take (nat (sz - n)) (drop (nat n) data)) w = (m, w1) \<Longrightarrow>
   send_all_from ws h data sz n w = (if m \<le> 0 then (False, w1) else send_all_from ws h data sz (n + m) w1)"
  by (subst send_all_from.simps) simp

lemma send_all_from_keeps:
  assumes "\<And>data w n w'. ws_send ws h data w = (n, w') \<Longrightarrow> f w' = f w"
  shows "f (snd (send_all_from ws h data sz n w)) = f w"
proof (induction "nat (sz - n)" arbitrary: n w rule: less_induct)
  case less
  show ?case
  proof (cases "n < sz")
    case False
    then show ?thesis by (simp add: send_all_from_done)
  next
    case True
    obtain m w1 where 1: "ws_send ws h (take (nat (sz - n)) (drop (nat n) data)) w = (m, w1)" by fastforce
    have fw: "f w1 = f w" by (rule assms [OF 1])
    show ?thesis
    proof (cases "m \<le> 0")
      case True
      with fw show ?thesis by (simp add: send_all_from_step [OF \<open>n < sz\<close> 1])
    next
      case False
      with True have "nat (sz - (n + m)) < nat (sz - n)" by simp
      from less [OF this, of w1] False fw show ?thesis by (simp add: send_all_from_step [OF True 1])
    qed
  qed
qed

lemma boxes_send_keeps:
  "framed_send (tcp_send_bytes (boxes k)) m t = (b, t1) \<Longrightarrow> snd (os t1) = snd (os t)"
proof -
  assume a: "framed_send (tcp_send_bytes (boxes k)) m t = (b, t1)"
  have "snd (snd (send_all (boxes k) h data sz w)) = snd w" for h data sz w
    unfolding send_all_def by (rule send_all_from_keeps) (auto simp: boxes_def)
  from this [of "tcp_handle t" "wire_encode m" "int_of_size (length (wire_encode m))" "os t"] a
  show ?thesis
    by (auto simp: framed_send_eq tcp_send_bytes_def split: if_splits prod.splits)
qed

section \<open>Properties\<close>

text \<open>C3: Over sockets that carry bytes in order, however the calls split them, and for prompts and
  results whose fields fit the 32-bit lengths of the payload and whose frames are shorter than \<open>2 ^ 31\<close>,
  \<open>RemoteLLM::generate\<close> returns exactly what the server's own runtime returned for the same
  prompt and configuration, the elapsed time apart, and the server exits with 0, having
  printed the request and the answer: the two TCP transports, the frames, the packets and the payload codec compose to the identity.\<close>

theorem remote_generate_is_server_generate:
  assumes conn: "clock (ps_os pr) = (start, w)"
      "connect_to ws (rl_host r) (rl_port r) (pr\<lparr>ps_os := w\<rparr>) = (Some t, q)"
    and client: "duplex_socket ws (tcp_handle t) sent pending invar" "invar (os t)"
    and server: "duplex_socket ws2 (tcp_handle t2) sent2 pending2 invar2" "invar2 (os t2)" "sent2 (os t2) = []"
    and small: "request_small (next_request r p c)" "tcp_fits (request_message r p c)"
      "response_fits \<lparr>rp_request_id = fst (next_request_id r), rp_result = result\<rparr>"
      "tcp_fits (response_message (next_request r p c) result (rl_source r))"
    and serve: "pending2 (os t2) = wire_encode (request_message r p c)" "gen p c s = (Inr result, s')"
      "serve_connection ws2 gen t2 s con = (code, t3, s3, con3)"
    and linked: "\<And>t1. framed_send (tcp_send_bytes ws) (request_message r p c) t = (True, t1) \<Longrightarrow>
      pending (os t1) = sent2 (os t3)"
  shows "code = Inr 0 \<and> con_err con3 = con_err con \<and> con_out con3 = con_out con @ served_lines (next_request r p c) result \<and>
    (\<exists>elapsed. fst (remote_generate ws clock p c (r, pr)) = Inr (result\<lparr>lr_elapsed_ms := elapsed\<rparr>))"
  by (rule remote_server_compose [where ws = ws and clock = clock and pr = pr and t = t and gen = gen,
        OF conn client server small serve linked])

definition sample_remote :: remote_llm where
  "sample_remote = new_remote_llm ''127.0.0.1'' 39200 default_source default_target"

definition sample_prompt :: prompt where
  "sample_prompt = add_user ''hi'' empty_prompt"

definition sample_request_message :: message where
  "sample_request_message = request_message sample_remote sample_prompt default_generation_config"

definition sample_process :: "bytes \<Rightarrow> (bytes \<times> bytes) process" where
  "sample_process inbox = \<lparr>ps_winsock_started = True, ps_os = ([], inbox)\<rparr>"

lemma sample_remote_id:
  "fst (next_request_id sample_remote) = ''remote-llm-req-1''"
  "length (rl_source sample_remote) = 17" "length (rl_target sample_remote) = 17"
  by (simp_all add: next_request_id_def sample_remote_def new_remote_llm_def show_one default_source_def default_target_def)

lemma sample_request_fits:
  "request_small (next_request sample_remote sample_prompt default_generation_config)"
  "tcp_fits (request_message sample_remote sample_prompt default_generation_config)"
proof -
  show "request_small (next_request sample_remote sample_prompt default_generation_config)"
    by (simp add: request_small_def request_fits_def prompt_fits_def fits32_def next_request_def sample_remote_id
        sample_prompt_def add_user_def add_message_def empty_prompt_def vec_ok_def encode_request_payload_eq
        request_bytes_def message_bytes_def)
  show "tcp_fits (request_message sample_remote sample_prompt default_generation_config)"
    by (simp add: tcp_fits_def request_message_def next_request_def sample_remote_id
        length_protocol_encode encode_request_def encode_request_payload_eq request_bytes_def
        sample_prompt_def add_user_def add_message_def empty_prompt_def message_bytes_def)
qed

lemma sample_connect:
  "connect_to (boxes k) (rl_host sample_remote) (rl_port sample_remote) ((sample_process inbox)\<lparr>ps_os := ([], inbox)\<rparr>) =
     (Some \<lparr>tcp_handle = 1, tcp_process = sample_process inbox\<rparr>, sample_process inbox)"
  by (simp add: connect_to_def Let_def boxes_def winsock_runtime_def sample_process_def new_tcp_byte_transport_def
      invalid_socket_def socket_error_def)

lemma sample_link:
  "framed_send (tcp_send_bytes (boxes k)) m \<lparr>tcp_handle = h, tcp_process = sample_process inbox\<rparr> = (b, t1) \<Longrightarrow>
     snd (os t1) = inbox"
  using boxes_send_keeps [of k m _ b t1] by (fastforce simp: sample_process_def)

theorem remote_generate_is_server_generate_witness:
  "\<exists>t3 con elapsed. serve_connection (boxes 3) (mock_generate (\<lambda>s. (0, s)) ''ok'')
       \<lparr>tcp_handle = 1, tcp_process = sample_process (wire_encode sample_request_message)\<rparr> () empty_console = (Inr 0, t3, (), con) \<and>
     fst (remote_generate (boxes 2) (\<lambda>w. (0, w)) sample_prompt default_generation_config
       (sample_remote, sample_process (fst (os t3)))) =
     Inr (default_llm_result\<lparr>lr_text := ''ok'', lr_prompt_tokens := 2, lr_completion_tokens := 1,
            lr_elapsed_ms := elapsed\<rparr>)"
proof -
  let ?gen = "mock_generate (\<lambda>s :: unit. (0, s)) ''ok''"
  let ?c = default_generation_config
  let ?t2 = "\<lparr>tcp_handle = 1, tcp_process = sample_process (wire_encode sample_request_message)\<rparr>"
  let ?r = "default_llm_result\<lparr>lr_text := ''ok'', lr_prompt_tokens := 2, lr_completion_tokens := 1\<rparr>"
  obtain code t3 s3 con where sv: "serve_connection (boxes 3) ?gen ?t2 () empty_console = (code, t3, s3, con)" by (metis prod_cases4)
  let ?inbox = "fst (os t3)"
  have g: "?gen sample_prompt ?c () = (Inr ?r, ())"
    by (simp add: mock_generate_def sample_prompt_def add_user_def add_message_def empty_prompt_def
        Let_def default_llm_result_def count_words_def count_words_loop.simps next_word_def is_space_def
        prompt_to_string_def role_to_string_def newline_def)
  have f: "response_fits \<lparr>rp_request_id = fst (next_request_id sample_remote), rp_result = ?r\<rparr>"
    by (simp add: response_fits_def fits32_def sample_remote_id default_llm_result_def)
  have f2: "tcp_fits (response_message (next_request sample_remote sample_prompt ?c) ?r (rl_source sample_remote))"
    by (simp add: tcp_fits_def response_message_def next_request_def sample_remote_id
        length_protocol_encode encode_response_def length_response default_llm_result_def)
  have "code = Inr 0 \<and> con_err con = con_err empty_console \<and>
      con_out con = con_out empty_console @ served_lines (next_request sample_remote sample_prompt ?c) ?r \<and>
      (\<exists>elapsed. fst (remote_generate (boxes 2) (\<lambda>w. (0, w)) sample_prompt ?c
      (sample_remote, sample_process ?inbox)) = Inr (?r\<lparr>lr_elapsed_ms := elapsed\<rparr>))"
    by (rule remote_generate_is_server_generate [where sent = fst and pending = snd and invar = "\<lambda>_. True"
          and ?sent2.0 = fst and ?pending2.0 = snd and ?invar2.0 = "\<lambda>_. True" and w = "([], ?inbox)" and start = 0,
        OF _ sample_connect _ _ _ _ _ sample_request_fits f f2 _ g sv sample_link])
      (simp_all add: boxes_duplex sample_process_def sample_request_message_def)
  with sv show ?thesis by (intro exI [of _ t3]) (auto simp: default_llm_result_def)
qed

text \<open>\<open>RemoteLLM\<close> does not check what a response answers: whatever well-formed response the
  peer has sent, to any request id and with any source and target, its result is returned as the
  result of this call.\<close>

theorem remote_accepts_any_response:
  assumes "clock (ps_os pr) = (start, w)"
    and "connect_to ws (rl_host r) (rl_port r) (pr\<lparr>ps_os := w\<rparr>) = (Some t, q)"
    and "duplex_socket ws (tcp_handle t) sent pending invar" "invar (os t)"
    and "tcp_fits (request_message r p c)" "response_fits rp" "tcp_fits (encode_response rp a b)"
    and "\<And>t1. framed_send (tcp_send_bytes ws) (request_message r p c) t = (True, t1) \<Longrightarrow>
      pending (os t1) = wire_encode (encode_response rp a b) @ rest"
  shows "\<exists>elapsed. fst (remote_generate ws clock p c (r, pr)) = Inr ((rp_result rp)\<lparr>lr_elapsed_ms := elapsed\<rparr>)"
  by (rule remote_returns_reply [where clock = clock and pr = pr and r = r and p = p and c = c, OF assms])

lemma sample_response_tcp_fits: "tcp_fits (encode_response sample_response ''eve'' ''x'')"
  by (simp add: tcp_fits_def length_protocol_encode encode_response_def length_response sample_response_def
      default_llm_result_def)

theorem remote_accepts_any_response_witness:
  "rp_request_id sample_response \<noteq> fst (next_request_id sample_remote) \<and>
   (\<exists>elapsed. fst (remote_generate (boxes 2) (\<lambda>w. (0, w)) sample_prompt default_generation_config
      (sample_remote, sample_process (wire_encode (encode_response sample_response ''eve'' ''x'')))) =
    Inr ((rp_result sample_response)\<lparr>lr_elapsed_ms := elapsed\<rparr>))"
proof -
  let ?inbox = "wire_encode (encode_response sample_response ''eve'' ''x'')"
  have "\<exists>elapsed. fst (remote_generate (boxes 2) (\<lambda>w. (0, w)) sample_prompt default_generation_config
      (sample_remote, sample_process ?inbox)) = Inr ((rp_result sample_response)\<lparr>lr_elapsed_ms := elapsed\<rparr>)"
    by (rule remote_accepts_any_response [where sent = fst and pending = snd and invar = "\<lambda>_. True"
          and w = "([], ?inbox)" and start = 0 and rest = "[]",
        OF _ sample_connect _ _ sample_request_fits(2) sample_response_fits sample_response_tcp_fits])
      (simp_all add: boxes_duplex sample_process_def sample_link [unfolded sample_process_def])
  then show ?thesis by (simp add: sample_remote_id sample_response_def)
qed

text \<open>When the peer closes the connection before the whole of its reply has arrived, wherever
  the reply is cut, \<open>RemoteLLM::generate\<close> returns the status \<open>Timeout\<close> with no text, and it
  has used up one request id.\<close>

theorem remote_truncated_reply_times_out:
  assumes "clock (ps_os pr) = (start, w)"
    and "connect_to ws (rl_host r) (rl_port r) (pr\<lparr>ps_os := w\<rparr>) = (Some t, q)"
    and "duplex_socket ws (tcp_handle t) sent pending invar" "invar (os t)"
    and "tcp_fits (request_message r p c)" "tcp_fits reply" "k < length (wire_encode reply)"
    and "\<And>t1. framed_send (tcp_send_bytes ws) (request_message r p c) t = (True, t1) \<Longrightarrow>
      pending (os t1) = take k (wire_encode reply)"
  shows "fst (remote_generate ws clock p c (r, pr)) = Inr (llm_failure Timeout ''Failed to receive LLM_RESPONSE'') \<and>
    rl_request_counter (fst (snd (remote_generate ws clock p c (r, pr)))) = rl_request_counter r + 1"
proof -
  obtain w1 where w1: "framed_send (tcp_send_bytes ws) (request_message r p c) t =
      (True, t\<lparr>tcp_process := (tcp_process t)\<lparr>ps_os := w1\<rparr>\<rparr>)" "invar w1"
    using tcp_framed_send [OF duplexD(2) [OF assms(3)] assms(4) duplexD(1) [OF assms(3)] assms(5)] by auto
  let ?t1 = "t\<lparr>tcp_process := (tcp_process t)\<lparr>ps_os := w1\<rparr>\<rparr>"
  have h: "stream_receiver ws (tcp_handle ?t1) pending (\<lambda>w. invar w \<and> sent w = sent w1)"
    "invar (os ?t1) \<and> sent (os ?t1) = sent w1" "pending (os ?t1) = take k (wire_encode reply)"
    using duplexD(3) [OF assms(3)] w1(2) assms(8) [OF w1(1)] by simp_all
  obtain t2 where t2: "framed_receive (tcp_receive_bytes ws) ?t1 = (None, t2)"
    using tcp_framed_receive_truncated [OF h(1,2) assms(6) h(3) assms(7)] by (metis prod.collapse)
  have "fst (remote_generate ws clock p c (r, pr)) = Inr (llm_failure Timeout ''Failed to receive LLM_RESPONSE'')"
    using remote_generate_unfold [where ws = ws and clock = clock and pr = pr and start = start and w = w
        and r = r and t = t and p = p and c = c, OF assms(1,2) w1(1) t2] by simp
  moreover have "rl_request_counter (fst (snd (remote_generate ws clock p c (r, pr)))) = rl_request_counter r + 1"
    using assms(1,2) w1(1) t2
    by (simp add: remote_generate_def Let_def next_request_id_def request_message_def next_request_def)
  ultimately show ?thesis ..
qed

theorem remote_truncated_reply_times_out_witness:
  "fst (remote_generate (boxes 2) (\<lambda>w. (0, w)) sample_prompt default_generation_config
      (sample_remote, sample_process (take 30 (wire_encode (encode_response sample_response ''eve'' ''x''))))) =
   Inr (llm_failure Timeout ''Failed to receive LLM_RESPONSE'')"
proof -
  let ?m = "encode_response sample_response ''eve'' ''x''"
  let ?inbox = "take 30 (wire_encode ?m)"
  have "30 < length (wire_encode ?m)"
    by (simp add: wire_encode_def length_protocol_encode encode_response_def length_response sample_response_def
        default_llm_result_def)
  from remote_truncated_reply_times_out [where sent = fst and pending = snd and invar = "\<lambda>_. True"
      and w = "([], ?inbox)" and start = 0 and clock = "\<lambda>w. (0, w)" and pr = "sample_process ?inbox" and ws = "boxes 2",
      OF _ sample_connect _ _ sample_request_fits(2) sample_response_tcp_fits this]
  show ?thesis by (simp add: boxes_duplex sample_process_def sample_link [unfolded sample_process_def])
qed

text \<open>The request ids of up to \<open>2 ^ 64\<close> consecutive calls of one \<open>RemoteLLM\<close> are all
  different, whatever its counter was: the decimal numeral of the counter is injective and the
  counter does not repeat before it wraps.\<close>

theorem request_ids_distinct:
  assumes "n \<le> 2 ^ 64"
  shows "distinct (request_ids n r)"
  unfolding distinct_conv_nth
proof (intro allI impI notI)
  fix i j
  assume ij: "i < length (request_ids n r)" "j < length (request_ids n r)" "i \<noteq> j"
    "request_ids n r ! i = request_ids n r ! j"
  let ?k = "\<lambda>i. rl_request_counter r + of_nat (Suc i)"
  from ij have "show_nat (unat (?k i)) = show_nat (unat (?k j))" by (simp add: request_ids_nth)
  then have "unat (?k i) = unat (?k j)" by (metis digits_value_show)
  then have "?k i = ?k j" by (rule word_unat_eq_iff [THEN iffD2])
  then have "unat (of_nat i :: u64) = unat (of_nat j :: u64)" by simp
  then show False using ij(1-3) assms by (simp add: unat_of_nat)
qed

theorem request_ids_distinct_witness:
  "distinct (request_ids 3 (sample_remote\<lparr>rl_request_counter := - 2\<rparr>))"
  by (rule request_ids_distinct) simp

end
