(* ===== verification/Socket_Safety.thy ===== *)
theory Socket_Safety
  imports LLM_Remote "HOL-Library.Multiset"
begin

text \<open>
  The life of sockets. \<open>tracked\<close> instruments any implementation of the Winsock calls with the
  multiset of the handles that are open and a flag that is set by a call on a handle that is
  not. Nothing is assumed of the calls, which may fail or move any number of bytes, except that
  no new handle is 0: the destructor of \<open>TcpByteTransport\<close> takes 0 for a closed transport.
\<close>

section \<open>Instrumented sockets\<close>

record 'w tracked_os =
  sk_os :: 'w
  sk_open :: "u64 multiset"
  sk_bad :: bool

definition use_handle :: "u64 \<Rightarrow> 'w tracked_os \<Rightarrow> 'w tracked_os" where
  "use_handle h w = w\<lparr>sk_bad := sk_bad w \<or> h \<notin># sk_open w\<rparr>"

definition tracked :: "'w winsock \<Rightarrow> 'w tracked_os winsock" where
  "tracked ws = \<lparr>
     ws_startup = (\<lambda>w. w\<lparr>sk_os := ws_startup ws (sk_os w)\<rparr>),
     ws_socket = (\<lambda>w. case ws_socket ws (sk_os w) of (h, w') \<Rightarrow>
        (h, w\<lparr>sk_os := w', sk_open := (if h = invalid_socket then sk_open w else add_mset h (sk_open w))\<rparr>)),
     ws_inet_pton = ws_inet_pton ws,
     ws_connect = (\<lambda>h a p w. case ws_connect ws h a p (sk_os w) of (n, w') \<Rightarrow> (n, (use_handle h w)\<lparr>sk_os := w'\<rparr>)),
     ws_bind = (\<lambda>h p w. case ws_bind ws h p (sk_os w) of (n, w') \<Rightarrow> (n, (use_handle h w)\<lparr>sk_os := w'\<rparr>)),
     ws_listen = (\<lambda>h b w. case ws_listen ws h b (sk_os w) of (n, w') \<Rightarrow> (n, (use_handle h w)\<lparr>sk_os := w'\<rparr>)),
     ws_accept = (\<lambda>h w. case ws_accept ws h (sk_os w) of (a, w') \<Rightarrow>
        (a, (use_handle h w)\<lparr>sk_os := w', sk_open := (if a = invalid_socket then sk_open w else add_mset a (sk_open w))\<rparr>)),
     ws_closesocket = (\<lambda>h w. (use_handle h w)\<lparr>sk_os := ws_closesocket ws h (sk_os w), sk_open := sk_open w - {#h#}\<rparr>),
     ws_send = (\<lambda>h data w. case ws_send ws h data (sk_os w) of (n, w') \<Rightarrow> (n, (use_handle h w)\<lparr>sk_os := w'\<rparr>)),
     ws_recv = (\<lambda>h len w. case ws_recv ws h len (sk_os w) of (n, bs, w') \<Rightarrow> (n, bs, (use_handle h w)\<lparr>sk_os := w'\<rparr>)),
     ws_select_read = (\<lambda>h w. ws_select_read ws h (sk_os w))\<rparr>"

definition tracked_clock :: "('w \<Rightarrow> int \<times> 'w) \<Rightarrow> 'w tracked_os \<Rightarrow> int \<times> 'w tracked_os" where
  "tracked_clock clock w = (case clock (sk_os w) of (now, w') \<Rightarrow> (now, w\<lparr>sk_os := w'\<rparr>))"

text \<open>What a transfer on \<open>h\<close> leaves alone.\<close>

definition footprint :: "u64 \<Rightarrow> 'w tracked_os \<Rightarrow> u64 multiset \<times> bool" where
  "footprint h w = (sk_open w, sk_bad w \<or> h \<notin># sk_open w)"

definition no_zero_handles :: "'w winsock \<Rightarrow> bool" where
  "no_zero_handles ws \<longleftrightarrow> (\<forall>w. fst (ws_socket ws w) \<noteq> 0) \<and> (\<forall>h w. fst (ws_accept ws h w) \<noteq> 0)"

section \<open>Transfers\<close>

lemma recv_all_from_keeps:
  assumes "\<And>len w n bs w'. ws_recv ws h len w = (n, bs, w') \<Longrightarrow> f w' = f w"
  shows "f (snd (snd (recv_all_from ws h data sz n w))) = f w"
proof (induction "nat (sz - n)" arbitrary: n w data rule: less_induct)
  case less
  show ?case
  proof (cases "n < sz")
    case False
    then show ?thesis by (simp add: recv_all_from_done)
  next
    case True
    obtain m bs w1 where 1: "ws_recv ws h (sz - n) w = (m, bs, w1)" by (metis prod_cases3)
    have fw: "f w1 = f w" by (rule assms [OF 1])
    have step: "recv_all_from ws h data sz n w =
        (if m \<le> 0 then (False, data, w1) else recv_all_from ws h (store_at data (nat n) bs) sz (n + m) w1)"
      using True 1 by (subst recv_all_from.simps) simp
    show ?thesis
    proof (cases "m \<le> 0")
      case True
      with fw show ?thesis by (simp add: step)
    next
      case False
      with True have "nat (sz - (n + m)) < nat (sz - n)" by simp
      from less [OF this, of "store_at data (nat n) bs" w1] False fw show ?thesis by (simp add: step)
    qed
  qed
qed

lemma send_footprint: "ws_send (tracked ws) h data w = (n, w') \<Longrightarrow> footprint h w' = footprint h w"
  by (auto simp: tracked_def footprint_def use_handle_def split: prod.splits)

lemma recv_footprint: "ws_recv (tracked ws) h len w = (n, bs, w') \<Longrightarrow> footprint h w' = footprint h w"
  by (auto simp: tracked_def footprint_def use_handle_def split: prod.splits)

lemma tcp_send_footprint:
  "framed_send (tcp_send_bytes (tracked ws)) m t = (b, t') \<Longrightarrow>
    tcp_handle t' = tcp_handle t \<and> footprint (tcp_handle t) (os t') = footprint (tcp_handle t) (os t)"
  using send_all_from_keeps [where ws = "tracked ws" and h = "tcp_handle t" and f = "footprint (tcp_handle t)"
      and data = "wire_encode m" and n = 0 and sz = "int_of_size (length (wire_encode m))" and w = "os t"]
    send_footprint [of ws "tcp_handle t"]
  by (auto simp: framed_send_eq tcp_send_bytes_def send_all_def split: if_splits prod.splits)

lemma tcp_receive_bytes_footprint:
  "tcp_receive_bytes (tracked ws) t = (x, t') \<Longrightarrow>
    tcp_handle t' = tcp_handle t \<and> footprint (tcp_handle t) (os t') = footprint (tcp_handle t) (os t)"
proof -
  assume a: "tcp_receive_bytes (tracked ws) t = (x, t')"
  have k: "footprint (tcp_handle t) (snd (snd (recv_all (tracked ws) (tcp_handle t) data sz w))) =
      footprint (tcp_handle t) w" for data sz w
    unfolding recv_all_def by (rule recv_all_from_keeps) (rule recv_footprint)
  have k': "recv_all (tracked ws) (tcp_handle t) data sz w = (ok, d, w') \<Longrightarrow>
      footprint (tcp_handle t) w' = footprint (tcp_handle t) w" for data sz w ok d w'
    using k [of data sz w] by simp
  show ?thesis using a
    by (auto simp: tcp_receive_bytes_def Let_def dest!: k' split: if_splits prod.splits)
qed

lemma tcp_receive_footprint:
  "framed_receive (tcp_receive_bytes (tracked ws)) t = (x, t') \<Longrightarrow>
    tcp_handle t' = tcp_handle t \<and> footprint (tcp_handle t) (os t') = footprint (tcp_handle t) (os t)"
  using tcp_receive_bytes_footprint by (auto simp: framed_receive_eq split: prod.splits)

section \<open>Opening and closing\<close>

text \<open>The handles and the flag of a process.\<close>

abbreviation handles :: "'w tracked_os process \<Rightarrow> u64 multiset \<times> bool" where
  "handles p \<equiv> (sk_open (ps_os p), sk_bad (ps_os p))"

lemma runtime_handles: "handles (winsock_runtime (tracked ws) p) = handles p"
  by (simp add: winsock_runtime_def tracked_def)

text \<open>A transport that owns its socket, opened in a process with handles \<open>H\<close>.\<close>

definition owns_socket :: "u64 multiset \<times> bool \<Rightarrow> 'w tracked_os tcp_byte_transport \<Rightarrow> bool" where
  "owns_socket H t \<longleftrightarrow> tcp_handle t \<noteq> 0 \<and> handles (tcp_process t) = (add_mset (tcp_handle t) (fst H), snd H)"

lemma connect_owns:
  assumes "no_zero_handles ws" "connect_to (tracked ws) host port p = (t, q)"
  shows "case t of None \<Rightarrow> handles q = handles p | Some t \<Rightarrow> owns_socket (handles p) t"
proof -
  let ?p = "winsock_runtime (tracked ws) p"
  have p: "handles ?p = handles p" by (rule runtime_handles)
  obtain h w where h: "ws_socket ws (sk_os (ps_os ?p)) = (h, w)" by fastforce
  have nz: "h \<noteq> 0" using assms(1) h by (metis fst_conv no_zero_handles_def)
  have r: "handles (winsock_runtime (tracked ws) p') = handles p'" for p' :: "'a tracked_os process"
    by (rule runtime_handles)
  show ?thesis
    using assms(2) p nz h
    by (auto simp: connect_to_def Let_def tracked_def use_handle_def owns_socket_def new_tcp_byte_transport_def
        winsock_runtime_def split: if_splits prod.splits)
qed

lemma listen_owns:
  assumes "no_zero_handles ws" "listen_once (tracked ws) port p = (t, q)"
  shows "case t of None \<Rightarrow> handles q = handles p | Some t \<Rightarrow> owns_socket (handles p) t"
proof -
  let ?p = "winsock_runtime (tracked ws) p"
  have p: "handles ?p = handles p" by (rule runtime_handles)
  obtain h w where h: "ws_socket ws (sk_os (ps_os ?p)) = (h, w)" by fastforce
  have nz: "\<And>h w a w'. ws_accept ws h w = (a, w') \<Longrightarrow> a \<noteq> 0" using assms(1) by (metis fst_conv no_zero_handles_def)
  show ?thesis
    using assms(2) p h
    by (auto simp: listen_once_def Let_def tracked_def use_handle_def owns_socket_def new_tcp_byte_transport_def
        winsock_runtime_def dest: nz split: if_splits prod.splits)
qed

lemma owns_kept:
  "owns_socket H t \<Longrightarrow> tcp_handle t' = tcp_handle t \<Longrightarrow>
     footprint (tcp_handle t) (os t') = footprint (tcp_handle t) (os t) \<Longrightarrow> owns_socket H t'"
  by (auto simp: owns_socket_def footprint_def)

lemma owns_send: "owns_socket H t \<Longrightarrow> framed_send (tcp_send_bytes (tracked ws)) m t = (b, t') \<Longrightarrow> owns_socket H t'"
  using tcp_send_footprint owns_kept by metis

lemma owns_receive:
  "owns_socket H t \<Longrightarrow> framed_receive (tcp_receive_bytes (tracked ws)) t = (x, t') \<Longrightarrow> owns_socket H t'"
  using tcp_receive_footprint owns_kept by metis

lemma owns_clock: "owns_socket H t \<Longrightarrow> tcp_clock (tracked_clock clock) t = (n, t') \<Longrightarrow> owns_socket H t'"
  by (auto simp: tcp_clock_def tracked_clock_def owns_socket_def split: prod.splits)

lemma owns_close: "owns_socket H t \<Longrightarrow> handles (close_process (tracked ws) t) = H"
  by (cases H) (simp add: owns_socket_def close_process_def tcp_close_def tracked_def use_handle_def)

lemma remote_generate_handles:
  assumes "no_zero_handles ws" "remote_generate (tracked ws) (tracked_clock clock) p c (r, pr) = (x, (r', pr'))"
  shows "handles pr' = handles pr"
proof -
  obtain n w where n: "tracked_clock clock (ps_os pr) = (n, w)" by fastforce
  then have pw: "handles (pr\<lparr>ps_os := w\<rparr>) = handles pr" by (auto simp: tracked_clock_def split: prod.splits)
  obtain t q where t: "connect_to (tracked ws) (rl_host r) (rl_port r) (pr\<lparr>ps_os := w\<rparr>) = (t, q)" by fastforce
  from connect_owns [OF assms(1) t] have own: "case t of None \<Rightarrow> handles q = handles pr | Some t \<Rightarrow> owns_socket (handles pr) t"
    unfolding pw .
  show ?thesis
  proof (cases t)
    case None
    with assms(2) n t own show ?thesis by (simp add: remote_generate_def)
  next
    case (Some u)
    obtain rid r1 where rid: "next_request_id r = (rid, r1)" by fastforce
    let ?m = "encode_request \<lparr>rq_request_id = rid, rq_prompt = p, rq_config = c\<rparr> (rl_source r1) (rl_target r1)"
    obtain b u1 where u1: "framed_send (tcp_send_bytes (tracked ws)) ?m u = (b, u1)" by fastforce
    have o1: "owns_socket (handles pr) u1" using own Some owns_send [OF _ u1] by simp
    obtain y u2 where u2: "framed_receive (tcp_receive_bytes (tracked ws)) u1 = (y, u2)" by fastforce
    have o2: "owns_socket (handles pr) u2" by (rule owns_receive [OF o1 u2])
    obtain n' u3 where u3: "tcp_clock (tracked_clock clock) u2 = (n', u3)" by fastforce
    have o3: "owns_socket (handles pr) u3" by (rule owns_clock [OF o2 u3])
    have "pr' = close_process (tracked ws) u1 \<or> pr' = close_process (tracked ws) u2 \<or> pr' = close_process (tracked ws) u3"
      using assms(2) n t Some rid u1 u2 u3
      by (auto simp: remote_generate_def Let_def split: if_splits option.splits sum.splits)
    then show ?thesis
      by (elim disjE) (simp_all only: owns_close [OF o1] owns_close [OF o2] owns_close [OF o3])
  qed
qed

lemma serve_connection_owns:
  assumes "owns_socket H t" "serve_connection (tracked ws) gen t s c = (code, t', s', c')"
  shows "owns_socket H t'"
proof -
  obtain y u1 where u1: "framed_receive (tcp_receive_bytes (tracked ws)) t = (y, u1)" by fastforce
  have o1: "owns_socket H u1" by (rule owns_receive [OF assms(1) u1])
  then have o2: "owns_socket H u2" if "framed_send (tcp_send_bytes (tracked ws)) m u1 = (b, u2)" for m b u2
    using owns_send that by blast
  show ?thesis using assms(2) u1 o1
    by (auto simp: serve_connection_def Let_def dest: o2 split: option.splits if_splits sum.splits prod.splits)
qed

section \<open>Properties\<close>

text \<open>C16: Whatever the network and the peer do, every call of \<open>RemoteLLM::generate\<close>, whether it
  returns or throws, leaves exactly the sockets open that were open before it, and makes no
  call on a socket that is not open: nothing leaks, nothing is closed twice or used after it
  is closed. The system must not hand out the handle 0, which the destructor takes for a
  closed transport.\<close>

theorem remote_sockets_balanced:
  assumes "\<And>w. fst (ws_socket ws w) \<noteq> 0" "\<And>h w. fst (ws_accept ws h w) \<noteq> 0"
    and "remote_generate (tracked ws) (tracked_clock clock) p c (r, pr) = (x, (r', pr'))"
  shows "sk_open (ps_os pr') = sk_open (ps_os pr) \<and> sk_bad (ps_os pr') = sk_bad (ps_os pr)"
proof -
  have "no_zero_handles ws" using assms(1,2) by (simp add: no_zero_handles_def)
  from remote_generate_handles [OF this assms(3)] show ?thesis by simp
qed

definition fresh_process :: "'w \<Rightarrow> 'w tracked_os process" where
  "fresh_process w = \<lparr>ps_winsock_started = False, ps_os = \<lparr>sk_os = w, sk_open = {#}, sk_bad = False\<rparr>\<rparr>"

theorem remote_sockets_balanced_witness:
  "\<exists>x r' pr'. remote_generate (tracked (boxes 2)) (tracked_clock (\<lambda>w. (0, w))) sample_prompt default_generation_config
      (sample_remote, fresh_process ([], [1, 2, 3])) = (x, (r', pr')) \<and>
    sk_open (ps_os pr') = {#} \<and> \<not> sk_bad (ps_os pr')"
proof -
  obtain x r' pr' where 1: "remote_generate (tracked (boxes 2)) (tracked_clock (\<lambda>w. (0, w))) sample_prompt
    default_generation_config (sample_remote, fresh_process ([], [1, 2, 3])) = (x, (r', pr'))" by (metis prod_cases3)
  have "sk_open (ps_os pr') = {#} \<and> \<not> sk_bad (ps_os pr')"
    using remote_sockets_balanced [OF _ _ 1] by (simp add: boxes_def fresh_process_def)
  with 1 show ?thesis by blast
qed

text \<open>The same holds of the program \<open>llm_server\<close>, from start to exit.\<close>

theorem server_sockets_balanced:
  assumes "\<And>w. fst (ws_socket ws w) \<noteq> 0" "\<And>h w. fst (ws_accept ws h w) \<noteq> 0"
    and "llm_server_main (tracked ws) clock pr s = (code, pr', s', out)"
  shows "sk_open (ps_os pr') = sk_open (ps_os pr) \<and> sk_bad (ps_os pr') = sk_bad (ps_os pr)"
proof -
  have nz: "no_zero_handles ws" using assms(1,2) by (simp add: no_zero_handles_def)
  obtain t q where t: "listen_once (tracked ws) 39200 pr = (t, q)" by fastforce
  note own = listen_owns [OF nz t]
  have "handles pr' = handles pr"
  proof (cases t)
    case None
    with assms(3) t own show ?thesis by (simp add: llm_server_main_def)
  next
    case (Some u)
    obtain e u' s2 c' where u: "serve_connection (tracked ws) (mock_generate clock llm_server_response_text) u s
        (print_line ''[llm-server] client connected''
          (print_line (''[llm-server] listening on port '' @ show_nat 39200) empty_console)) = (e, u', s2, c')"
      by (metis prod_cases3)
    have "owns_socket (handles pr) u" using own Some by simp
    from owns_close [OF serve_connection_owns [OF this u], of ws] assms(3) t u Some show ?thesis
      by (auto simp: llm_server_main_def)
  qed
  then show ?thesis by simp
qed

theorem server_sockets_balanced_witness:
  "\<exists>code pr' s' out. llm_server_main (tracked (boxes 2)) (\<lambda>s. (0, s)) (fresh_process ([], wire_encode sample_message)) () =
      (code, pr', s', out) \<and> sk_open (ps_os pr') = {#} \<and> \<not> sk_bad (ps_os pr')"
proof -
  obtain code pr' s' out where 1: "llm_server_main (tracked (boxes 2)) (\<lambda>s. (0, s))
    (fresh_process ([], wire_encode sample_message)) () = (code, pr', s', out)" by (metis prod_cases4)
  have "sk_open (ps_os pr') = {#} \<and> \<not> sk_bad (ps_os pr')"
    using server_sockets_balanced [OF _ _ 1] by (simp add: boxes_def fresh_process_def)
  with 1 show ?thesis by blast
qed

end
