(* ===== verification/Mem_Arena.thy ===== *)
theory Mem_Arena
  imports Galc_Prelude
begin

text \<open>
  \<open>MemoryBlock\<close>, \<open>MemoryStats\<close>, \<open>MemoryArena\<close> and \<open>ScratchBuffer\<close> of \<open>memory\<close>. Pointers and
  sizes are 64-bit words, so the sums of \<open>allocate\<close> wrap as in the code; the null pointer is
  0. \<open>arena_spec\<close> is the bump allocator over the natural numbers that \<open>allocate\<close> implements
  while its sums stay below \<open>2 ^ 64\<close>.
\<close>

section \<open>Blocks and statistics\<close>

record memory_block =
  mb_ptr :: u64
  mb_size :: u64

definition no_block :: memory_block where "no_block = \<lparr>mb_ptr = 0, mb_size = 0\<rparr>"

definition block_bool :: "memory_block \<Rightarrow> bool" where
  "block_bool b \<longleftrightarrow> mb_ptr b \<noteq> 0 \<and> mb_size b > 0"

record memory_stats =
  ms_capacity :: u64
  ms_used :: u64
  ms_free :: u64
  ms_peak_used :: u64

section \<open>The arena\<close>

record memory_arena =
  ma_buffer :: u64
  ma_capacity :: u64
  ma_offset :: u64
  ma_peak_used :: u64

definition new_memory_arena :: "u64 \<Rightarrow> u64 \<Rightarrow> memory_arena" where
  "new_memory_arena buffer capacity =
     \<lparr>ma_buffer = buffer, ma_capacity = capacity, ma_offset = 0, ma_peak_used = 0\<rparr>"

definition is_power_of_two :: "u64 \<Rightarrow> bool" where
  "is_power_of_two v \<longleftrightarrow> v \<noteq> 0 \<and> v AND (v - 1) = 0"

definition arena_allocate :: "u64 \<Rightarrow> u64 \<Rightarrow> memory_arena \<Rightarrow> memory_block \<times> memory_arena" where
  "arena_allocate sz alignment a =
     (if ma_buffer a = 0 \<or> sz = 0 then (no_block, a)
      else if alignment = 0 \<or> \<not> is_power_of_two alignment then (no_block, a)
      else
        let base = ma_buffer a;
            current = base + ma_offset a;
            aligned = (current + alignment - 1) AND NOT (alignment - 1);
            padding = aligned - current;
            new_offset = ma_offset a + padding + sz
        in if new_offset > ma_capacity a then (no_block, a)
           else (\<lparr>mb_ptr = aligned, mb_size = sz\<rparr>,
                 a\<lparr>ma_offset := new_offset, ma_peak_used := max (ma_peak_used a) new_offset\<rparr>))"

definition arena_reset :: "memory_arena \<Rightarrow> memory_arena" where
  "arena_reset a = a\<lparr>ma_offset := 0\<rparr>"

definition arena_stats :: "memory_arena \<Rightarrow> memory_stats" where
  "arena_stats a = \<lparr>ms_capacity = ma_capacity a, ms_used = ma_offset a,
     ms_free = ma_capacity a - ma_offset a, ms_peak_used = ma_peak_used a\<rparr>"

definition arena_free :: "memory_arena \<Rightarrow> u64" where
  "arena_free a = ma_capacity a - ma_offset a"

definition arena_capacity :: "memory_arena \<Rightarrow> u64" where "arena_capacity a = ma_capacity a"
definition arena_used :: "memory_arena \<Rightarrow> u64" where "arena_used a = ma_offset a"
definition arena_peak_used :: "memory_arena \<Rightarrow> u64" where "arena_peak_used a = ma_peak_used a"

text \<open>\<open>ScratchBuffer\<close> holds a reference to an arena and forwards to it.\<close>

definition scratch_allocate :: "u64 \<Rightarrow> u64 \<Rightarrow> memory_arena \<Rightarrow> memory_block \<times> memory_arena" where
  "scratch_allocate sz alignment arena = arena_allocate sz alignment arena"

definition scratch_reset :: "memory_arena \<Rightarrow> memory_arena" where
  "scratch_reset arena = arena_reset arena"

definition scratch_stats :: "memory_arena \<Rightarrow> memory_stats" where
  "scratch_stats arena = arena_stats arena"

section \<open>Powers of two and rounding up\<close>

lemma nat_and_pred_zero:
  "0 < n \<Longrightarrow> n AND (n - 1) = (0 :: nat) \<longleftrightarrow> (\<exists>k. n = 2 ^ k)"
proof (induction n rule: less_induct)
  case (less n)
  show ?case
  proof (cases "even n")
    case True
    with less.prems obtain m where m: "n = 2 * m" "0 < m" "m < n" by (auto elim!: evenE)
    have "n - 1 = 2 * (m - 1) + 1" using m by simp
    then have "n AND (n - 1) = 2 * (m AND (m - 1))"
      using m by (subst and_rec) simp
    moreover have "(\<exists>k. n = 2 ^ k) \<longleftrightarrow> (\<exists>k. m = 2 ^ k)"
    proof
      assume "\<exists>k. n = 2 ^ k"
      then obtain k where "n = 2 ^ k" by blast
      with m show "\<exists>k. m = 2 ^ k" by (cases k) auto
    next
      assume "\<exists>k. m = 2 ^ k"
      with m show "\<exists>k. n = 2 ^ k" by (metis power_Suc)
    qed
    ultimately show ?thesis using less.IH [OF m(3,2)] by simp
  next
    case False
    then obtain m where m: "n = 2 * m + 1" by (auto elim!: oddE)
    then have "n AND (n - 1) = 2 * m" by (subst and_rec) simp
    moreover have "(\<exists>k. n = 2 ^ k) \<longleftrightarrow> m = 0"
    proof
      assume "\<exists>k. n = 2 ^ k"
      then obtain k where "n = 2 ^ k" by blast
      with m show "m = 0" by (cases k) (simp_all, presburger)
    next
      assume "m = 0"
      with m show "\<exists>k. n = 2 ^ k" by (intro exI [of _ 0]) simp
    qed
    ultimately show ?thesis by simp
  qed
qed

lemma unat_pow2: "k < 64 \<Longrightarrow> unat (2 ^ k :: u64) = 2 ^ k"
proof -
  assume "k < 64"
  then have "(2 :: nat) ^ k < 2 ^ 64" by (intro power_strict_increasing) simp_all
  then have "unat (of_nat (2 ^ k) :: u64) = 2 ^ k" by (intro unat_u64_of_nat) simp
  then show ?thesis by simp
qed

lemma is_power_of_two_iff: "is_power_of_two v \<longleftrightarrow> (\<exists>k < 64. v = 2 ^ k)"
proof (cases "v = 0")
  case True
  have "2 ^ k \<noteq> (0 :: u64)" if "k < 64" for k
    using unat_pow2 [OF that] by (metis power_not_zero unsigned_0 zero_neq_numeral)
  with True show ?thesis unfolding is_power_of_two_def by metis
next
  case False
  then have v: "0 < unat v" by (simp add: unat_gt_0)
  have "v AND (v - 1) = 0 \<longleftrightarrow> unat v AND (unat v - 1) = 0"
    using False by (simp add: word_unat_eq_iff unsigned_and_eq unat_minus_one)
  also have "\<dots> \<longleftrightarrow> (\<exists>k. unat v = 2 ^ k)" by (rule nat_and_pred_zero [OF v])
  also have "\<dots> \<longleftrightarrow> (\<exists>k < 64. v = 2 ^ k)"
  proof
    assume "\<exists>k. unat v = 2 ^ k"
    then obtain k where k: "unat v = 2 ^ k" by blast
    then have "(2 :: nat) ^ k < 2 ^ 64" using unat_u64_lt [of v] by simp
    then have "k < 64" by (rule power_less_imp_less_exp [rotated]) simp
    with k show "\<exists>k < 64. v = 2 ^ k" by (auto simp: word_unat_eq_iff unat_pow2)
  next
    assume "\<exists>k < 64. v = 2 ^ k"
    then show "\<exists>k. unat v = 2 ^ k" by (auto simp: unat_pow2)
  qed
  finally show ?thesis using False by (simp add: is_power_of_two_def)
qed

definition align_up :: "nat \<Rightarrow> nat \<Rightarrow> nat" where
  "align_up c a = (c + a - 1) div a * a"

lemma align_up_bounds:
  assumes "0 < a"
  shows "c \<le> align_up c a" "align_up c a < c + a" "a dvd align_up c a"
proof -
  let ?r = "(c + a - 1) mod a"
  have "align_up c a + ?r = c + a - 1" by (simp add: align_up_def)
  moreover have "?r < a" using assms by simp
  ultimately show "c \<le> align_up c a" "align_up c a < c + a" using assms by linarith+
  show "a dvd align_up c a" by (simp add: align_up_def)
qed

lemma align_up_least:
  assumes "0 < a" "a dvd d" "c \<le> d"
  shows "align_up c a \<le> d"
proof -
  obtain p q where pq: "align_up c a = a * p" "d = a * q"
    using assms(2) align_up_bounds(3) [OF assms(1)] by (metis dvdE)
  have "align_up c a < d + a" using align_up_bounds(2) [OF assms(1), of c] assms(3) by linarith
  then have "a * p < a * (q + 1)" by (simp add: pq)
  then have "p \<le> q" using assms(1) by (simp only: mult_less_cancel1) simp
  then show ?thesis by (simp add: pq)
qed

lemma unat_take_bit: "unat (take_bit k x :: u64) = unat x mod 2 ^ k"
  unfolding unsigned_take_bit_eq by (simp add: take_bit_eq_mod)

lemma unat_and_not_mask: "unat (x AND NOT (mask k) :: u64) = unat x - unat x mod 2 ^ k"
proof -
  have "x AND NOT (mask k) = x AND NOT (take_bit k x)"
    by (rule bit_eqI) (auto simp: bit_simps)
  also have "\<dots> = x - take_bit k x"
    by (rule disjunctive_diff_eq_and_not [symmetric]) (rule bit_eqI, auto simp: bit_simps)
  finally have "x AND NOT (mask k) = x - take_bit k x" .
  moreover have "unat (take_bit k x) \<le> unat x" by (simp add: unat_take_bit)
  ultimately show ?thesis by (simp add: unat_sub_if_size unat_take_bit)
qed

lemma round_up_word:
  assumes "is_power_of_two a" "unat c + unat a \<le> 18446744073709551616"
  shows "unat ((c + a - 1) AND NOT (a - 1)) = align_up (unat c) (unat a)"
proof -
  from assms(1) obtain k where k: "k < 64" "a = 2 ^ k" by (auto simp: is_power_of_two_iff)
  have a: "unat a = 2 ^ k" "1 \<le> unat a" using k by (simp_all add: unat_pow2)
  have "a - 1 = mask k" by (simp add: mask_eq_exp_minus_1 k(2))
  have "unat (a - 1) = unat a - 1" using a(2) by (metis unat_0 not_one_le_zero unat_minus_one)
  then have "unat (c + (a - 1)) = unat c + unat a - 1"
    using a(2) assms(2) by (simp add: unat_word_ariths(1))
  then have u: "unat (c + a - 1) = unat c + unat a - 1" by (simp add: add_diff_eq)
  show ?thesis
    unfolding \<open>a - 1 = mask k\<close> unat_and_not_mask u align_up_def a(1)
    by (simp add: minus_mod_eq_div_mult)
qed

section \<open>The bump allocator over the natural numbers\<close>

definition arena_spec :: "nat \<Rightarrow> nat \<Rightarrow> nat \<Rightarrow> nat \<Rightarrow> nat \<Rightarrow> (nat \<times> nat) option" where
  "arena_spec base cap off sz al =
     (let start = align_up (base + off) al; new_off = start - base + sz
      in if new_off \<le> cap then Some (start, new_off) else None)"

text \<open>An arena whose buffer lies in the lower \<open>2 ^ 62\<close> addresses, as on every platform.\<close>

definition arena_ok :: "memory_arena \<Rightarrow> bool" where
  "arena_ok a \<longleftrightarrow> 0 < unat (ma_buffer a) \<and>
     unat (ma_buffer a) + unat (ma_capacity a) < 4611686018427387904 \<and>
     ma_offset a \<le> ma_peak_used a \<and> ma_peak_used a \<le> ma_capacity a"

definition arena_bounded :: "memory_arena \<Rightarrow> bool" where
  "arena_bounded a \<longleftrightarrow> unat (ma_buffer a) + unat (ma_capacity a) < 4611686018427387904 \<and>
     ma_offset a \<le> ma_peak_used a \<and> ma_peak_used a \<le> ma_capacity a"

lemma arena_ok_bounded: "arena_ok a \<longleftrightarrow> ma_buffer a \<noteq> 0 \<and> arena_bounded a"
  by (auto simp: arena_ok_def arena_bounded_def unat_gt_0)

lemma unat_sum3: "unat x + unat y + unat z < 18446744073709551616 \<Longrightarrow>
    unat (x + y + z :: u64) = unat x + unat y + unat z"
  by (simp add: unat_word_ariths(1))

lemma arena_allocate_spec:
  assumes "arena_ok a" "0 < sz" "unat sz < 4611686018427387904" "is_power_of_two al"
  shows "arena_allocate sz al a =
    (case arena_spec (unat (ma_buffer a)) (unat (ma_capacity a)) (unat (ma_offset a)) (unat sz) (unat al) of
       None \<Rightarrow> (no_block, a)
     | Some (p, off) \<Rightarrow> (\<lparr>mb_ptr = of_nat p, mb_size = sz\<rparr>,
         a\<lparr>ma_offset := of_nat off, ma_peak_used := max (ma_peak_used a) (of_nat off)\<rparr>))"
proof -
  let ?c = "ma_buffer a + ma_offset a" and ?b = "unat (ma_buffer a)" and ?o = "unat (ma_offset a)"
  let ?al = "(?c + al - 1) AND NOT (al - 1)"
  let ?new = "ma_offset a + (?al - ?c) + sz"
  from assms(1) have o: "?o \<le> unat (ma_capacity a)" "?b + unat (ma_capacity a) < 4611686018427387904"
    "ma_buffer a \<noteq> 0" by (auto simp: arena_ok_def word_le_nat_alt)
  from assms(4) obtain k where k: "k < 64" "al = 2 ^ k" by (auto simp: is_power_of_two_iff)
  then have "(2 :: nat) ^ k \<le> 2 ^ 63" by (intro power_increasing) simp_all
  with k have al: "0 < unat al" "unat al \<le> 9223372036854775808" by (simp_all add: unat_pow2)
  have c: "unat ?c = ?b + ?o" using o by (simp add: unat_word_ariths(1))
  have up: "unat ?al = align_up (?b + ?o) (unat al)"
    using round_up_word [OF assms(4), of ?c] c al o by simp
  note bounds = align_up_bounds(1,2) [OF al(1), of "?b + ?o"]
  have pad: "unat (?al - ?c) = align_up (?b + ?o) (unat al) - (?b + ?o)"
    using bounds(1) c up by (simp add: unat_sub_if_size)
  have "unat ?new = ?o + (align_up (?b + ?o) (unat al) - (?b + ?o)) + unat sz"
    using bounds al o assms(3) unat_sum3 [of "ma_offset a" "?al - ?c" sz] unfolding pad by linarith
  also have "\<dots> = align_up (?b + ?o) (unat al) - ?b + unat sz" using bounds(1) by simp
  finally have new: "unat ?new = align_up (?b + ?o) (unat al) - ?b + unat sz" .
  obtain p n where pn: "p = align_up (?b + ?o) (unat al)" "n = p - ?b + unat sz" by blast
  have u: "unat ?al = p" "unat ?new = n" by (simp_all only: up new pn)
  have words: "?al = of_nat p" "?new = of_nat n"
    unfolding u [symmetric] by (simp_all only: of_nat_unat ucast_id)
  have le: "ma_capacity a < ?new \<longleftrightarrow> unat (ma_capacity a) < n"
    by (simp only: word_less_nat_alt u)
  have "sz \<noteq> 0" "al \<noteq> 0" using assms(2) al by auto
  then have "arena_allocate sz al a = (if unat (ma_capacity a) < n then (no_block, a)
      else (\<lparr>mb_ptr = of_nat p, mb_size = sz\<rparr>,
            a\<lparr>ma_offset := of_nat n, ma_peak_used := max (ma_peak_used a) (of_nat n)\<rparr>))"
    using o(3) assms(4) unfolding arena_allocate_def Let_def le
    unfolding words(2) unfolding words(1) by simp
  moreover have "arena_spec ?b (unat (ma_capacity a)) ?o (unat sz) (unat al) =
      (if n \<le> unat (ma_capacity a) then Some (p, n) else None)"
    by (simp add: arena_spec_def Let_def pn)
  ultimately show ?thesis by simp
qed

lemma arena_ok_step:
  assumes "arena_ok a" "unat sz < 4611686018427387904" "arena_allocate sz al a = (b, a')"
  shows "arena_ok a' \<and> ma_buffer a' = ma_buffer a \<and> ma_capacity a' = ma_capacity a \<and>
    unat (ma_offset a) \<le> unat (ma_offset a') \<and>
    (if block_bool b then mb_size b = sz \<and> unat al dvd unat (mb_ptr b) \<and>
       unat (ma_buffer a) + unat (ma_offset a) \<le> unat (mb_ptr b) \<and>
       unat (mb_ptr b) + unat sz = unat (ma_buffer a) + unat (ma_offset a')
     else b = no_block \<and> a' = a)"
proof (cases "0 < sz \<and> is_power_of_two al")
  case False
  then have "sz = 0 \<or> \<not> is_power_of_two al" by (simp add: word_gt_0)
  then have "arena_allocate sz al a = (no_block, a)"
    by (elim disjE) (simp_all only: arena_allocate_def simp_thms if_True if_cancel split: if_split)
  with assms show ?thesis by (auto simp: block_bool_def no_block_def)
next
  case True
  let ?b = "unat (ma_buffer a)" and ?o = "unat (ma_offset a)"
  from True have sz: "0 < sz" and pow: "is_power_of_two al" by simp_all
  note spec = arena_allocate_spec [OF assms(1) sz assms(2) pow]
  show ?thesis
  proof (cases "arena_spec ?b (unat (ma_capacity a)) ?o (unat sz) (unat al)")
    case None
    with assms spec show ?thesis by (auto simp: block_bool_def no_block_def)
  next
    case (Some r)
    then obtain p n where r: "r = (p, n)" "p = align_up (?b + ?o) (unat al)" "n = p - ?b + unat sz"
      "n \<le> unat (ma_capacity a)" by (auto simp: arena_spec_def Let_def split: if_splits)
    have "0 < unat al" using pow by (auto simp: is_power_of_two_iff unat_pow2)
    note up = align_up_bounds [OF this, of "?b + ?o", folded r(2)]
    have ok: "?b + unat (ma_capacity a) < 4611686018427387904" "0 < ?b" using assms(1) by (simp_all add: arena_ok_def)
    have n: "unat (of_nat n :: u64) = n" using r(4) ok by (intro unat_u64_of_nat) simp
    have "p + unat sz = ?b + n" using r(3) up(1) by simp
    then have "p < 18446744073709551616" using r(4) ok by simp
    then have p: "unat (of_nat p :: u64) = p" by (rule unat_u64_of_nat)
    have "?o \<le> n" using r(3) up(1) by simp
    have a': "b = \<lparr>mb_ptr = of_nat p, mb_size = sz\<rparr>"
      "a' = a\<lparr>ma_offset := of_nat n, ma_peak_used := max (ma_peak_used a) (of_nat n)\<rparr>"
      using spec assms(3) Some r(1) by simp_all
    have "block_bool b" using a'(1) p up(1) ok(2) sz by (auto simp: block_bool_def word_unat_eq_iff)
    moreover have "arena_ok a'" using assms(1) n r(4) unfolding a'
      by (simp add: arena_ok_def word_le_nat_alt max_def)
    ultimately show ?thesis
      using a' n p up \<open>p + unat sz = ?b + n\<close> \<open>?o \<le> n\<close> by simp
  qed
qed

text \<open>A client that makes a list of requests, without a reset in between; the result has a block,
  or \<open>no_block\<close>, for each.\<close>

fun arena_run :: "(u64 \<times> u64) list \<Rightarrow> memory_arena \<Rightarrow> memory_block list \<times> memory_arena" where
  "arena_run [] a = ([], a)"
| "arena_run ((sz, al) # reqs) a =
     (case arena_allocate sz al a of (b, a) \<Rightarrow>
        case arena_run reqs a of (bs, a) \<Rightarrow> (b # bs, a))"

definition block_end :: "memory_block \<Rightarrow> nat" where
  "block_end b = unat (mb_ptr b) + unat (mb_size b)"

text \<open>The block that answers a request has its size and alignment.\<close>

definition answers_request :: "u64 \<times> u64 \<Rightarrow> memory_block \<Rightarrow> bool" where
  "answers_request req b =
     (if block_bool b then mb_size b = fst req \<and> unat (snd req) dvd unat (mb_ptr b) else b = no_block)"

definition granted_requests :: "(u64 \<times> u64) list \<Rightarrow> memory_block list \<Rightarrow> (u64 \<times> u64) list" where
  "granted_requests reqs bs = map fst (filter (\<lambda>(req, b). block_bool b) (zip reqs bs))"

lemma arena_run_blocks:
  "arena_ok a \<Longrightarrow> \<forall>(sz, al) \<in> set reqs. unat sz < 4611686018427387904 \<Longrightarrow>
   arena_run reqs a = (bs, a') \<Longrightarrow>
   arena_ok a' \<and> ma_buffer a' = ma_buffer a \<and> ma_capacity a' = ma_capacity a \<and>
   unat (ma_offset a) \<le> unat (ma_offset a') \<and>
   list_all2 answers_request reqs bs \<and>
   arena_run (granted_requests reqs bs) a = (filter block_bool bs, a') \<and>
   sorted_wrt (\<lambda>b c. block_end b \<le> unat (mb_ptr c)) (filter block_bool bs) \<and>
   (\<forall>b \<in> set (filter block_bool bs). unat (ma_buffer a) + unat (ma_offset a) \<le> unat (mb_ptr b) \<and>
      block_end b \<le> unat (ma_buffer a) + unat (ma_offset a'))"
proof (induction reqs arbitrary: a bs a')
  case (Cons req reqs)
  obtain sz al where req: "req = (sz, al)" by fastforce
  obtain b a1 where 1: "arena_allocate sz al a = (b, a1)" by fastforce
  obtain bs2 a2 where 2: "arena_run reqs a1 = (bs2, a2)" by fastforce
  have "unat sz < 4611686018427387904" using Cons.prems(2) req by auto
  note s = arena_ok_step [OF Cons.prems(1) this 1]
  have "\<forall>(sz, al) \<in> set reqs. unat sz < 4611686018427387904" using Cons.prems(2) by auto
  note r = Cons.IH [OF s [THEN conjunct1] this 2]
  have e: "bs = b # bs2" "a' = a2" using Cons.prems(3) req 1 2 by simp_all
  show ?case
  proof (cases "block_bool b")
    case True
    with s r 1 req show ?thesis unfolding e by (auto simp: block_end_def answers_request_def granted_requests_def)
  next
    case False
    with s r 1 req show ?thesis unfolding e by (auto simp: answers_request_def granted_requests_def)
  qed
qed (simp add: granted_requests_def)

section \<open>Properties\<close>

text \<open>\<open>is_power_of_two\<close> is exact: the bit trick accepts the 64 powers of two a
  \<open>size_t\<close> can hold and nothing else, not even 0.\<close>

lemma power_of_two_values: "is_power_of_two v \<longleftrightarrow> unat v \<in> {2 ^ k | k. k < 64}"
proof -
  have "v = 2 ^ k \<longleftrightarrow> unat v = 2 ^ k" if "k < 64" for k
    using that by (simp add: word_unat_eq_iff unat_pow2)
  then show ?thesis unfolding is_power_of_two_iff by auto
qed

text \<open>C9: For every arena that ends below address \<open>2 ^ 62\<close> with used at most peak at most capacity,
  and for every request of less than \<open>2 ^ 62\<close> bytes with any alignment, \<open>MemoryArena::allocate\<close>
  is the bump allocator over the natural numbers. It fails, changing nothing, if the arena has
  no buffer, the size is 0, the alignment is not one of the 64 powers of two, or the rounded-up
  start plus the size exceeds the capacity; otherwise, and only then, it returns that start and
  moves the offset and the peak. The masks and sums never wrap.\<close>

theorem arena_allocate_refines:
  assumes "arena_bounded a" "unat sz < 4611686018427387904"
  shows "arena_allocate sz al a =
    (if ma_buffer a = 0 \<or> sz = 0 \<or> unat al \<notin> {2 ^ k | k. k < 64} then (no_block, a)
     else case arena_spec (unat (ma_buffer a)) (unat (ma_capacity a)) (unat (ma_offset a)) (unat sz) (unat al) of
       None \<Rightarrow> (no_block, a)
     | Some (p, off) \<Rightarrow> (\<lparr>mb_ptr = of_nat p, mb_size = sz\<rparr>,
         a\<lparr>ma_offset := of_nat off, ma_peak_used := max (ma_peak_used a) (of_nat off)\<rparr>))"
proof (cases "ma_buffer a = 0 \<or> sz = 0 \<or> unat al \<notin> {2 ^ k | k. k < 64}")
  case True
  then have "ma_buffer a = 0 \<or> sz = 0 \<or> \<not> is_power_of_two al" by (simp only: power_of_two_values)
  then have "arena_allocate sz al a = (no_block, a)"
    by (elim disjE) (simp_all only: arena_allocate_def simp_thms if_True if_cancel split: if_split)
  with True show ?thesis by (simp only: if_True)
next
  case False
  then have "arena_ok a" "0 < sz" "is_power_of_two al"
    using assms(1) by (simp_all only: arena_ok_bounded power_of_two_values word_gt_0) simp_all
  from arena_allocate_spec [OF this(1,2) assms(2) this(3)] False show ?thesis by (simp only: if_False)
qed

lemma sample_arena_ok: "arena_ok \<lparr>ma_buffer = 0x1003, ma_capacity = 64, ma_offset = 5, ma_peak_used = 9\<rparr>"
  by (simp add: arena_ok_def)

theorem arena_allocate_refines_witness:
  "arena_allocate 20 16 \<lparr>ma_buffer = 0x1003, ma_capacity = 64, ma_offset = 5, ma_peak_used = 9\<rparr> =
     (\<lparr>mb_ptr = 0x1010, mb_size = 20\<rparr>,
      \<lparr>ma_buffer = 0x1003, ma_capacity = 64, ma_offset = 33, ma_peak_used = 33\<rparr>)"
proof -
  let ?a = "\<lparr>ma_buffer = 0x1003, ma_capacity = 64, ma_offset = 5, ma_peak_used = 9\<rparr>"
  have "\<exists>k. (16 :: nat) = 2 ^ k \<and> k < 64" by (rule exI [of _ 4]) simp
  moreover have "arena_bounded ?a" using sample_arena_ok by (simp add: arena_ok_bounded)
  ultimately show ?thesis
    using arena_allocate_refines [of ?a 20 16] by (simp add: arena_spec_def align_up_def)
qed

text \<open>C33: Between two resets, an arena with a buffer that ends below address \<open>2 ^ 62\<close>, and with used
  at most peak at most capacity at first, answers any list of requests
  of less than \<open>2 ^ 62\<close> bytes each as follows: a request gets a block of its size at an address
  that its alignment divides, or nothing; the blocks lie inside the buffer and behind what was
  handed out before, follow each other and never overlap; used never exceeds peak nor peak the
  capacity. Requests that fail change nothing: without them the other requests get the same
  blocks and leave the same arena.\<close>

theorem arena_blocks_disjoint:
  assumes "arena_ok a" and "\<forall>(sz, al) \<in> set reqs. unat sz < 4611686018427387904"
    and "arena_run reqs a = (bs, a')"
  shows "arena_ok a' \<and> list_all2 answers_request reqs bs \<and>
    sorted_wrt (\<lambda>b c. block_end b \<le> unat (mb_ptr c)) (filter block_bool bs) \<and>
    (\<forall>b \<in> set (filter block_bool bs). unat (ma_buffer a) + unat (ma_offset a) \<le> unat (mb_ptr b) \<and>
       block_end b \<le> unat (ma_buffer a) + unat (ma_capacity a)) \<and>
    arena_run (granted_requests reqs bs) a = (filter block_bool bs, a')"
proof -
  note r = arena_run_blocks [OF assms]
  then have "unat (ma_offset a') \<le> unat (ma_capacity a)"
    by (auto simp: arena_ok_def word_le_nat_alt)
  with r show ?thesis by fastforce
qed

theorem arena_blocks_disjoint_witness:
  "\<exists>bs a'. arena_run [(20, 16), (1, 3), (8, 8), (4096, 1)]
      \<lparr>ma_buffer = 0x1003, ma_capacity = 64, ma_offset = 5, ma_peak_used = 9\<rparr> = (bs, a') \<and>
     sorted_wrt (\<lambda>b c. block_end b \<le> unat (mb_ptr c)) (filter block_bool bs) \<and>
     bs = [\<lparr>mb_ptr = 0x1010, mb_size = 20\<rparr>, no_block, \<lparr>mb_ptr = 0x1028, mb_size = 8\<rparr>, no_block]"
proof -
  let ?a = "\<lparr>ma_buffer = 0x1003, ma_capacity = 64, ma_offset = 5, ma_peak_used = 9\<rparr>"
  obtain bs a' where 1: "arena_run [(20, 16), (1, 3), (8, 8), (4096, 1)] ?a = (bs, a')" by (metis surj_pair)
  have "\<forall>(sz, al) \<in> set [(20 :: u64, 16 :: u64), (1, 3), (8, 8), (4096, 1)]. unat sz < 4611686018427387904" by simp
  from arena_blocks_disjoint [OF sample_arena_ok this 1]
  have "sorted_wrt (\<lambda>b c. block_end b \<le> unat (mb_ptr c)) (filter block_bool bs)" by blast
  moreover have "bs = [\<lparr>mb_ptr = 0x1010, mb_size = 20\<rparr>, no_block, \<lparr>mb_ptr = 0x1028, mb_size = 8\<rparr>, no_block]"
    using 1 by (simp add: arena_allocate_def is_power_of_two_def no_block_def Let_def)
  ultimately show ?thesis using 1 by blast
qed

text \<open>Outside these bounds the sum wraps: with a non-zero offset, a request for \<open>2 ^ 64\<close> minus
  the offset bytes (alignment 1) is granted whatever the capacity, and sets the offset back to 0,
  so that the next request is given memory that is still in use.\<close>

theorem arena_allocate_wraps:
  assumes "ma_buffer a \<noteq> 0" "ma_offset a \<noteq> 0" "next_size \<noteq> 0" "next_size \<le> ma_capacity a"
    and "arena_allocate (- ma_offset a) 1 a = (b, a')"
  shows "b = \<lparr>mb_ptr = ma_buffer a + ma_offset a, mb_size = - ma_offset a\<rparr> \<and> ma_offset a' = 0 \<and>
    fst (arena_allocate next_size 1 a') = \<lparr>mb_ptr = ma_buffer a, mb_size = next_size\<rparr>"
proof -
  have "b = \<lparr>mb_ptr = ma_buffer a + ma_offset a, mb_size = - ma_offset a\<rparr>" "a' = a\<lparr>ma_offset := 0\<rparr>"
    using assms(1,2,5) by (auto simp: arena_allocate_def is_power_of_two_def Let_def not_less max_def)
  with assms show ?thesis by (simp add: arena_allocate_def is_power_of_two_def Let_def not_less)
qed

theorem arena_allocate_wraps_witness:
  "\<exists>b a'. arena_allocate (- 16) 1 \<lparr>ma_buffer = 0x1000, ma_capacity = 64, ma_offset = 16, ma_peak_used = 16\<rparr> =
     (b, a') \<and> mb_size b = 0xFFFFFFFFFFFFFFF0 \<and> ma_offset a' = 0 \<and>
     fst (arena_allocate 16 1 a') = \<lparr>mb_ptr = 0x1000, mb_size = 16\<rparr>"
proof -
  let ?a = "\<lparr>ma_buffer = 0x1000, ma_capacity = 64, ma_offset = 16, ma_peak_used = 16\<rparr>"
  obtain b a' where 1: "arena_allocate (- ma_offset ?a) 1 ?a = (b, a')" by (metis surj_pair)
  from arena_allocate_wraps [OF _ _ _ _ this, of 16] 1 show ?thesis by auto
qed

end
