(* ===== verification/Block_Pool.thy ===== *)
theory Block_Pool
  imports Mem_Arena
begin

text \<open>
  \<open>FixedBlockPool\<close> of \<open>memory\<close>: a vector cut into blocks of one size, with a stack of free
  indices and a flag per block. Where the vector lies is a parameter (the address \<open>new\<close>
  returned). The contract of a block allocator, over the set of live block addresses, is the
  locale \<open>block_allocator\<close>; the pool provides it while the storage size does not wrap.
\<close>

section \<open>The contract of a block allocator\<close>

locale block_allocator =
  fixes alloc :: "'s \<Rightarrow> memory_block \<times> 's"
    and dealloc :: "u64 \<Rightarrow> 's \<Rightarrow> bool \<times> 's"
    and live :: "'s \<Rightarrow> u64 set"
    and slots :: "'s \<Rightarrow> nat"
    and invar :: "'s \<Rightarrow> bool"
  assumes finite_live: "invar s \<Longrightarrow> finite (live s)"
    and alloc_law: "invar s \<Longrightarrow> alloc s = (b, s') \<Longrightarrow> invar s' \<and> slots s' = slots s \<and>
      (if card (live s) < slots s
       then block_bool b \<and> mb_ptr b \<notin> live s \<and> live s' = insert (mb_ptr b) (live s)
       else b = no_block \<and> s' = s)"
    and dealloc_law: "invar s \<Longrightarrow> dealloc p s = (ok, s') \<Longrightarrow> invar s' \<and> slots s' = slots s \<and>
      (ok \<longleftrightarrow> p \<in> live s) \<and> live s' = live s - {p}"

text \<open>Clients: allocating a number of blocks, giving back a list of them.\<close>

fun alloc_n :: "('s \<Rightarrow> memory_block \<times> 's) \<Rightarrow> nat \<Rightarrow> 's \<Rightarrow> memory_block list \<times> 's" where
  "alloc_n alloc 0 s = ([], s)"
| "alloc_n alloc (Suc n) s =
     (case alloc s of (b, s) \<Rightarrow> case alloc_n alloc n s of (bs, s) \<Rightarrow> (b # bs, s))"

fun dealloc_list :: "(u64 \<Rightarrow> 's \<Rightarrow> bool \<times> 's) \<Rightarrow> u64 list \<Rightarrow> 's \<Rightarrow> bool list \<times> 's" where
  "dealloc_list dealloc [] s = ([], s)"
| "dealloc_list dealloc (p # ps) s =
     (case dealloc p s of (ok, s) \<Rightarrow> case dealloc_list dealloc ps s of (oks, s) \<Rightarrow> (ok # oks, s))"

context block_allocator begin

lemma alloc_n_fresh:
  "invar s \<Longrightarrow> card (live s) + n \<le> slots s \<Longrightarrow> alloc_n alloc n s = (bs, s') \<Longrightarrow>
   invar s' \<and> slots s' = slots s \<and> length bs = n \<and> list_all block_bool bs \<and>
   distinct (map mb_ptr bs) \<and> set (map mb_ptr bs) \<inter> live s = {} \<and>
   live s' = live s \<union> set (map mb_ptr bs)"
proof (induction n arbitrary: s bs s')
  case (Suc n)
  obtain b s1 where 1: "alloc s = (b, s1)" by fastforce
  obtain bs2 s2 where 2: "alloc_n alloc n s1 = (bs2, s2)" by fastforce
  from alloc_law [OF Suc.prems(1) 1] Suc.prems(2)
  have a: "invar s1" "slots s1 = slots s" "block_bool b" "mb_ptr b \<notin> live s"
    "live s1 = insert (mb_ptr b) (live s)" by (auto split: if_splits)
  have "card (live s1) + n \<le> slots s1"
    using a Suc.prems(2) finite_live [OF Suc.prems(1)] by simp
  note r = Suc.IH [OF a(1) this 2]
  have "bs = b # bs2" "s' = s2" using 1 2 Suc.prems(3) by simp_all
  moreover have "set (map mb_ptr bs2) \<inter> live s = {}" "mb_ptr b \<notin> set (map mb_ptr bs2)"
    using r a(5) by blast+
  ultimately show ?case using r a by simp
qed simp

lemma dealloc_list_live:
  "invar s \<Longrightarrow> distinct ps \<Longrightarrow> dealloc_list dealloc ps s = (oks, s') \<Longrightarrow>
   invar s' \<and> slots s' = slots s \<and> oks = map (\<lambda>p. p \<in> live s) ps \<and> live s' = live s - set ps"
proof (induction ps arbitrary: s oks s')
  case (Cons p ps)
  obtain ok s1 where 1: "dealloc p s = (ok, s1)" by fastforce
  obtain oks2 s2 where 2: "dealloc_list dealloc ps s1 = (oks2, s2)" by fastforce
  from dealloc_law [OF Cons.prems(1) 1] have d: "invar s1" "slots s1 = slots s"
    "ok \<longleftrightarrow> p \<in> live s" "live s1 = live s - {p}" by simp_all
  have "oks = ok # oks2" "s' = s2" "p \<notin> set ps" "distinct ps" using 1 2 Cons.prems(2,3) by simp_all
  moreover from this have "map (\<lambda>q. q \<in> live s1) ps = map (\<lambda>q. q \<in> live s) ps"
    by (intro map_cong) (use d(4) in auto)
  moreover have "live s1 - set ps = live s - set (p # ps)" using d(4) by auto
  ultimately show ?case using Cons.IH [OF d(1) _ 2] d(2,3) by simp
qed simp

lemma alloc_then_dealloc:
  assumes "invar s" "card (live s) + n \<le> slots s" "alloc_n alloc n s = (bs, s1)"
    and "set ps = set (map mb_ptr bs)" "distinct ps" "dealloc_list dealloc ps s1 = (oks, s2)"
  shows "list_all block_bool bs \<and> distinct (map mb_ptr bs) \<and> oks = replicate (length ps) True \<and>
    live s2 = live s \<and> invar s2"
proof -
  note a = alloc_n_fresh [OF assms(1-3)]
  from dealloc_list_live [OF _ assms(5,6)] a
  have d: "oks = map (\<lambda>p. p \<in> live s1) ps" "live s2 = live s1 - set ps" "invar s2" by simp_all
  have "\<forall>p \<in> set ps. p \<in> live s1" using a assms(4) by auto
  then have "oks = replicate (length ps) True" unfolding d(1) by (induction ps) simp_all
  moreover have "live s2 = live s" using a assms(4) d(2) by auto
  ultimately show ?thesis using a d(3) by simp
qed

lemma double_dealloc:
  assumes "invar s" "dealloc p s = (ok, s1)"
  shows "\<not> fst (dealloc p s1) \<and> live (snd (dealloc p s1)) = live s1"
proof -
  obtain ok2 s2 where 2: "dealloc p s1 = (ok2, s2)" by fastforce
  from dealloc_law [OF assms] dealloc_law [OF _ 2] show ?thesis by (simp add: 2)
qed

end

section \<open>The pool\<close>

record fixed_block_pool =
  bp_block_size :: u64
  bp_block_count :: u64
  bp_storage_data :: u64
  bp_storage_size :: u64
  bp_free_indices :: "u64 list"
  bp_allocated :: "bool list"
  bp_used_blocks :: u64
  bp_peak_used_blocks :: u64

definition new_fixed_block_pool :: "u64 \<Rightarrow> u64 \<Rightarrow> u64 \<Rightarrow> fixed_block_pool" where
  "new_fixed_block_pool storage_data block_size block_count =
     \<lparr>bp_block_size = block_size, bp_block_count = block_count,
      bp_storage_data = storage_data, bp_storage_size = block_size * block_count,
      bp_free_indices = map (\<lambda>i. block_count - 1 - of_nat i) [0..<unat block_count],
      bp_allocated = replicate (unat block_count) False,
      bp_used_blocks = 0, bp_peak_used_blocks = 0\<rparr>"

definition pool_allocate :: "fixed_block_pool \<Rightarrow> memory_block \<times> fixed_block_pool" where
  "pool_allocate p =
     (if bp_block_size p = 0 \<or> bp_block_count p = 0 \<or> bp_free_indices p = [] then (no_block, p)
      else
        let index = last (bp_free_indices p);
            p = p\<lparr>bp_free_indices := butlast (bp_free_indices p)\<rparr>;
            p = p\<lparr>bp_allocated := (bp_allocated p)[unat index := True]\<rparr>;
            p = p\<lparr>bp_used_blocks := bp_used_blocks p + 1\<rparr>;
            p = p\<lparr>bp_peak_used_blocks := max (bp_peak_used_blocks p) (bp_used_blocks p)\<rparr>
        in (\<lparr>mb_ptr = bp_storage_data p + index * bp_block_size p, mb_size = bp_block_size p\<rparr>, p))"

definition owns_pointer :: "u64 \<Rightarrow> fixed_block_pool \<Rightarrow> bool" where
  "owns_pointer ptr p \<longleftrightarrow>
     (if ptr = 0 \<or> bp_storage_size p = 0 then False
      else ptr \<ge> bp_storage_data p \<and> ptr < bp_storage_data p + bp_storage_size p)"

definition pool_free_block :: "u64 \<Rightarrow> fixed_block_pool \<Rightarrow> bool \<times> fixed_block_pool" where
  "pool_free_block ptr p =
     (if \<not> owns_pointer ptr p then (False, p)
      else
        let offset = ptr - bp_storage_data p
        in if offset mod bp_block_size p \<noteq> 0 then (False, p)
           else
             let index = offset div bp_block_size p
             in if index \<ge> bp_block_count p \<or> \<not> bp_allocated p ! unat index then (False, p)
                else (True, p\<lparr>bp_allocated := (bp_allocated p)[unat index := False],
                               bp_free_indices := bp_free_indices p @ [index],
                               bp_used_blocks := bp_used_blocks p - 1\<rparr>))"

definition pool_stats :: "fixed_block_pool \<Rightarrow> memory_stats" where
  "pool_stats p =
     (let capacity_bytes = bp_block_size p * bp_block_count p;
          used_bytes = bp_block_size p * bp_used_blocks p;
          peak_bytes = bp_block_size p * bp_peak_used_blocks p
      in \<lparr>ms_capacity = capacity_bytes, ms_used = used_bytes,
          ms_free = capacity_bytes - used_bytes, ms_peak_used = peak_bytes\<rparr>)"

definition pool_free_blocks :: "fixed_block_pool \<Rightarrow> u64" where
  "pool_free_blocks p = bp_block_count p - bp_used_blocks p"

definition pool_block_size :: "fixed_block_pool \<Rightarrow> u64" where "pool_block_size p = bp_block_size p"
definition pool_block_count :: "fixed_block_pool \<Rightarrow> u64" where "pool_block_count p = bp_block_count p"
definition pool_used_blocks :: "fixed_block_pool \<Rightarrow> u64" where "pool_used_blocks p = bp_used_blocks p"

section \<open>The pool's invariant\<close>

definition live_indices :: "fixed_block_pool \<Rightarrow> nat set" where
  "live_indices p = {i. i < length (bp_allocated p) \<and> bp_allocated p ! i}"

definition block_addr :: "fixed_block_pool \<Rightarrow> nat \<Rightarrow> u64" where
  "block_addr p i = bp_storage_data p + of_nat i * bp_block_size p"

definition pool_live :: "fixed_block_pool \<Rightarrow> u64 set" where
  "pool_live p = block_addr p ` live_indices p"

definition pool_slots :: "fixed_block_pool \<Rightarrow> nat" where
  "pool_slots p = unat (bp_block_count p)"

definition pool_shape :: "fixed_block_pool \<Rightarrow> bool" where
  "pool_shape p \<longleftrightarrow> 0 < unat (bp_block_size p) \<and> 0 < unat (bp_block_count p) \<and>
     unat (bp_block_size p) * unat (bp_block_count p) = unat (bp_storage_size p) \<and>
     0 < unat (bp_storage_data p) \<and>
     unat (bp_storage_data p) + unat (bp_storage_size p) < 18446744073709551616 \<and>
     length (bp_allocated p) = unat (bp_block_count p)"

definition pool_ok :: "fixed_block_pool \<Rightarrow> bool" where
  "pool_ok p \<longleftrightarrow> pool_shape p \<and> distinct (bp_free_indices p) \<and>
     unat ` set (bp_free_indices p) = {..<unat (bp_block_count p)} - live_indices p \<and>
     unat (bp_used_blocks p) = card (live_indices p) \<and>
     bp_used_blocks p \<le> bp_peak_used_blocks p \<and> bp_peak_used_blocks p \<le> bp_block_count p"

lemma live_indices_subset: "pool_shape p \<Longrightarrow> live_indices p \<subseteq> {..<unat (bp_block_count p)}"
  by (auto simp: live_indices_def pool_shape_def)

lemma finite_live_indices [simp]: "finite (live_indices p)"
  by (simp add: live_indices_def)

lemma unat_block_addr:
  assumes "pool_shape p" "i < unat (bp_block_count p)"
  shows "unat (block_addr p i) = unat (bp_storage_data p) + i * unat (bp_block_size p) \<and>
    i * unat (bp_block_size p) + unat (bp_block_size p) \<le> unat (bp_storage_size p)"
proof -
  have "(i + 1) * unat (bp_block_size p) \<le> unat (bp_block_count p) * unat (bp_block_size p)"
    using assms(2) by (intro mult_le_mono1) simp
  then have le: "i * unat (bp_block_size p) + unat (bp_block_size p) \<le> unat (bp_storage_size p)"
    using assms(1) by (simp add: pool_shape_def mult.commute)
  have i: "unat (of_nat i :: u64) = i"
    using assms(2) unat_u64_lt [of "bp_block_count p"] by (intro unat_u64_of_nat) linarith
  have s: "unat (bp_storage_data p) + unat (bp_storage_size p) < 18446744073709551616"
    using assms(1) by (simp add: pool_shape_def)
  have "unat (of_nat i * bp_block_size p) = i * unat (bp_block_size p)"
    using le s by (simp add: unat_word_ariths(2) i)
  with le s show ?thesis by (simp add: block_addr_def unat_word_ariths(1))
qed

lemma block_addr_inject:
  assumes "pool_shape p" "i < unat (bp_block_count p)" "j < unat (bp_block_count p)"
  shows "block_addr p i = block_addr p j \<longleftrightarrow> i = j"
proof
  assume "block_addr p i = block_addr p j"
  with unat_block_addr [OF assms(1,2)] unat_block_addr [OF assms(1,3)]
  have "i * unat (bp_block_size p) = j * unat (bp_block_size p)" by (metis add_left_cancel)
  moreover have "0 < unat (bp_block_size p)" using assms(1) by (simp add: pool_shape_def)
  ultimately show "i = j" by (metis mult_cancel2 less_numeral_extra(3))
qed simp

lemma block_addr_live:
  "pool_shape p \<Longrightarrow> i < unat (bp_block_count p) \<Longrightarrow> block_addr p i \<in> pool_live p \<longleftrightarrow> i \<in> live_indices p"
  using live_indices_subset [of p] block_addr_inject [of p i] unfolding pool_live_def by blast

lemma card_pool_live:
  assumes "pool_shape p"
  shows "card (pool_live p) = card (live_indices p)"
  unfolding pool_live_def
  using live_indices_subset [OF assms] block_addr_inject [OF assms]
  by (intro card_image inj_onI) blast

text \<open>\<open>free_block\<close> finds the index of a block address, and only of one.\<close>

lemma pool_free_block_index:
  assumes "pool_shape p"
  shows "pool_free_block ptr p =
    (if ptr \<in> pool_live p
     then (True, let i = (unat ptr - unat (bp_storage_data p)) div unat (bp_block_size p)
        in p\<lparr>bp_allocated := (bp_allocated p)[i := False],
             bp_free_indices := bp_free_indices p @ [of_nat i], bp_used_blocks := bp_used_blocks p - 1\<rparr>)
     else (False, p))"
proof (cases "unat (bp_storage_data p) \<le> unat ptr \<and>
    unat ptr < unat (bp_storage_data p) + unat (bp_storage_size p)")
  case False
  have "unat (bp_storage_data p + bp_storage_size p) = unat (bp_storage_data p) + unat (bp_storage_size p)"
    using assms by (simp add: pool_shape_def unat_word_ariths(1))
  with False have "\<not> owns_pointer ptr p"
    by (auto simp: owns_pointer_def word_le_nat_alt word_less_nat_alt)
  moreover have "ptr \<notin> pool_live p"
  proof
    assume "ptr \<in> pool_live p"
    then obtain i where i: "i \<in> live_indices p" "ptr = block_addr p i" by (auto simp: pool_live_def)
    then have "i < unat (bp_block_count p)" using live_indices_subset [OF assms] by blast
    from unat_block_addr [OF assms this] False i(2) assms show False by (auto simp: pool_shape_def)
  qed
  ultimately show ?thesis by (simp add: pool_free_block_def)
next
  case True
  let ?o = "unat ptr - unat (bp_storage_data p)" and ?bs = "unat (bp_block_size p)"
  have shape: "0 < ?bs" "?bs * unat (bp_block_count p) = unat (bp_storage_size p)"
    "0 < unat (bp_storage_data p)"
    using assms by (simp_all add: pool_shape_def)
  have "0 < unat (bp_storage_size p)" using True by linarith
  note shape = shape this
  have "unat (bp_storage_data p + bp_storage_size p) = unat (bp_storage_data p) + unat (bp_storage_size p)"
    using assms by (simp add: pool_shape_def unat_word_ariths(1))
  with True shape have owns: "owns_pointer ptr p"
    by (auto simp: owns_pointer_def word_le_nat_alt word_less_nat_alt)
  have off: "unat (ptr - bp_storage_data p) = ?o" using True by (simp add: unat_sub_if_size)
  then have md: "(ptr - bp_storage_data p) mod bp_block_size p = 0 \<longleftrightarrow> ?o mod ?bs = 0"
    and dv: "(ptr - bp_storage_data p) div bp_block_size p = of_nat (?o div ?bs)"
    by (simp_all add: word_unat_eq_iff unat_mod unat_div word_arith_nat_div)
  have "?o < ?bs * unat (bp_block_count p)" using True shape(2) by linarith
  then have i: "?o div ?bs < unat (bp_block_count p)" by (simp add: less_mult_imp_div_less mult.commute)
  then have ui: "unat (of_nat (?o div ?bs) :: u64) = ?o div ?bs"
    using unat_u64_lt [of "bp_block_count p"] by (intro unat_u64_of_nat) linarith
  show ?thesis
  proof (cases "?o mod ?bs = 0")
    case False
    have "ptr \<notin> pool_live p"
    proof
      assume "ptr \<in> pool_live p"
      then obtain j where j: "j \<in> live_indices p" "ptr = block_addr p j" by (auto simp: pool_live_def)
      then have "j < unat (bp_block_count p)" using live_indices_subset [OF assms] by blast
      from unat_block_addr [OF assms this] j(2) False show False by simp
    qed
    with False owns show ?thesis by (simp add: pool_free_block_def Let_def md)
  next
    case dvd: True
    have "unat ptr = unat (block_addr p (?o div ?bs))"
      using unat_block_addr [OF assms i] dvd True by auto
    then have "ptr \<in> pool_live p \<longleftrightarrow> ?o div ?bs \<in> live_indices p"
      using block_addr_live [OF assms i] by (simp add: word_unat_eq_iff [symmetric])
    also have "\<dots> \<longleftrightarrow> bp_allocated p ! (?o div ?bs)"
      using i assms by (simp add: live_indices_def pool_shape_def)
    finally have live: "ptr \<in> pool_live p \<longleftrightarrow> bp_allocated p ! (?o div ?bs)" .
    have "\<not> of_nat (?o div ?bs) \<ge> bp_block_count p" using i by (simp add: word_le_nat_alt ui)
    with live dvd owns show ?thesis by (simp add: pool_free_block_def Let_def md dv ui)
  qed
qed

lemma pool_okD:
  assumes "pool_ok p"
  shows "pool_shape p" "distinct (bp_free_indices p)"
    "unat ` set (bp_free_indices p) = {..<unat (bp_block_count p)} - live_indices p"
    "unat (bp_used_blocks p) = card (live_indices p)"
    "unat (bp_used_blocks p) \<le> unat (bp_peak_used_blocks p)"
    "unat (bp_peak_used_blocks p) \<le> unat (bp_block_count p)"
  using assms by (simp_all add: pool_ok_def word_le_nat_alt)

lemma live_indices_update:
  assumes "i < length (bp_allocated p)" "bp_allocated q = (bp_allocated p)[i := b]"
  shows "live_indices q = (if b then insert i (live_indices p) else live_indices p - {i})"
  using assms by (auto simp: live_indices_def nth_list_update)

lemma free_indices_empty_iff:
  assumes "pool_ok p"
  shows "bp_free_indices p = [] \<longleftrightarrow> \<not> card (live_indices p) < unat (bp_block_count p)"
proof -
  note p = pool_okD [OF assms]
  have sub: "live_indices p \<subseteq> {..<unat (bp_block_count p)}" by (rule live_indices_subset [OF p(1)])
  have "bp_free_indices p = [] \<longleftrightarrow> unat ` set (bp_free_indices p) = {}" by simp
  also have "\<dots> \<longleftrightarrow> {..<unat (bp_block_count p)} \<subseteq> live_indices p" unfolding p(3) by blast
  also have "\<dots> \<longleftrightarrow> \<not> card (live_indices p) < unat (bp_block_count p)"
    using sub card_mono [OF _ sub] card_subset_eq [OF _ sub] card_seteq [OF _ sub]
    by (metis card_lessThan finite_lessThan finite_live_indices card_mono not_less order_refl)
  finally show ?thesis .
qed

lemma pool_allocate_ok:
  assumes "pool_ok p" "bp_free_indices p = fs @ [x]" "pool_allocate p = (b, p')"
  shows "pool_ok p' \<and> bp_block_count p' = bp_block_count p \<and>
    b = \<lparr>mb_ptr = block_addr p (unat x), mb_size = bp_block_size p\<rparr> \<and>
    unat x < unat (bp_block_count p) \<and> unat x \<notin> live_indices p \<and>
    live_indices p' = insert (unat x) (live_indices p) \<and>
    bp_storage_data p' = bp_storage_data p \<and> bp_block_size p' = bp_block_size p"
proof -
  note p = pool_okD [OF assms(1)]
  have x: "unat x < unat (bp_block_count p)" "unat x \<notin> live_indices p" using p(3) assms(2) by auto
  have len: "unat x < length (bp_allocated p)" using x(1) p(1) by (simp add: pool_shape_def)
  have "bp_block_size p \<noteq> 0" "bp_block_count p \<noteq> 0" using p(1) by (auto simp: pool_shape_def)
  with assms(2,3) have b: "b = \<lparr>mb_ptr = block_addr p (unat x), mb_size = bp_block_size p\<rparr>"
    "p' = p\<lparr>bp_free_indices := fs, bp_allocated := (bp_allocated p)[unat x := True],
      bp_used_blocks := bp_used_blocks p + 1,
      bp_peak_used_blocks := max (bp_peak_used_blocks p) (bp_used_blocks p + 1)\<rparr>"
    by (simp_all add: pool_allocate_def Let_def block_addr_def)
  then have live: "live_indices p' = insert (unat x) (live_indices p)"
    using live_indices_update [OF len, of p' True] by simp
  have "insert (unat x) (live_indices p) \<subseteq> {..<unat (bp_block_count p)}"
    using x(1) live_indices_subset [OF p(1)] by simp
  then have "card (insert (unat x) (live_indices p)) \<le> unat (bp_block_count p)"
    by (metis card_lessThan card_mono finite_lessThan)
  then have card: "card (live_indices p) < unat (bp_block_count p)" using x(2) by simp
  then have "card (live_indices p) + 1 < 18446744073709551616"
    using unat_u64_lt [of "bp_block_count p"] by linarith
  then have used: "unat (bp_used_blocks p + 1) = card (live_indices p) + 1"
    by (simp add: unat_word_ariths(1) p(4))
  have "unat ` set fs = unat ` set (bp_free_indices p) - {unat x}"
    using p(2) assms(2) by (auto simp flip: word_unat_eq_iff)
  then have free: "unat ` set fs = {..<unat (bp_block_count p)} - live_indices p'"
    using p(3) live by auto
  have "pool_shape p'" using p(1) b(2) by (simp add: pool_shape_def)
  moreover have "unat (bp_used_blocks p') = card (live_indices p')" using live x(2) used b(2) by simp
  moreover have "bp_used_blocks p' \<le> bp_peak_used_blocks p'" using b(2) by simp
  moreover have "bp_peak_used_blocks p' \<le> bp_block_count p'"
    using b(2) p(6) used card by (simp add: word_le_nat_alt max_def)
  moreover have "distinct (bp_free_indices p')" using p(2) assms(2) b(2) by simp
  ultimately have "pool_ok p'" using free b(2) by (simp add: pool_ok_def)
  with b live x show ?thesis by simp
qed

lemma pool_free_ok:
  assumes "pool_ok p" "i \<in> live_indices p"
    and "p' = p\<lparr>bp_allocated := (bp_allocated p)[i := False],
             bp_free_indices := bp_free_indices p @ [of_nat i], bp_used_blocks := bp_used_blocks p - 1\<rparr>"
  shows "pool_ok p' \<and> live_indices p' = live_indices p - {i}"
proof -
  note p = pool_okD [OF assms(1)]
  have i: "i < unat (bp_block_count p)" using assms(2) live_indices_subset [OF p(1)] by blast
  then have len: "i < length (bp_allocated p)" using p(1) by (simp add: pool_shape_def)
  have ui: "unat (of_nat i :: u64) = i"
    using i unat_u64_lt [of "bp_block_count p"] by (intro unat_u64_of_nat) linarith
  have live: "live_indices p' = live_indices p - {i}"
    using live_indices_update [OF len, of p' False] assms(3) by simp
  have "0 < card (live_indices p)" using assms(2) by (auto simp: card_gt_0_iff)
  then have used: "unat (bp_used_blocks p - 1) = card (live_indices p) - 1"
    using p(4) by (metis less_numeral_extra(3) unat_0 unat_minus_one)
  have "of_nat i \<notin> set (bp_free_indices p)" using p(3) assms(2) ui by (metis DiffD2 imageI)
  then have "distinct (bp_free_indices p')" using p(2) assms(3) by simp
  moreover have "unat ` set (bp_free_indices p') = {..<unat (bp_block_count p')} - live_indices p'"
    using live p(3) ui i assms(3) by auto
  moreover have "unat (bp_used_blocks p') = card (live_indices p')"
    using live assms(2,3) used by simp
  moreover have "bp_used_blocks p' \<le> bp_peak_used_blocks p'"
    using p(4,5) used assms(3) by (simp add: word_le_nat_alt)
  moreover have "pool_shape p'" using p(1) assms(3) by (simp add: pool_shape_def)
  moreover have "bp_peak_used_blocks p' \<le> bp_block_count p'" using p(6) assms(3) by (simp add: word_le_nat_alt)
  ultimately show ?thesis using live by (simp add: pool_ok_def)
qed

lemma pool_alloc_law:
  assumes "pool_ok p" "pool_allocate p = (b, p')"
  shows "pool_ok p' \<and> pool_slots p' = pool_slots p \<and>
    (if card (pool_live p) < pool_slots p
     then block_bool b \<and> mb_ptr b \<notin> pool_live p \<and> pool_live p' = insert (mb_ptr b) (pool_live p)
     else b = no_block \<and> p' = p)"
proof (cases "bp_free_indices p" rule: rev_cases)
  case Nil
  with assms free_indices_empty_iff [OF assms(1)] card_pool_live [OF pool_okD(1) [OF assms(1)]]
  show ?thesis by (simp add: pool_allocate_def pool_slots_def)
next
  case (snoc fs x)
  note shape = pool_okD(1) [OF assms(1)]
  note a = pool_allocate_ok [OF assms(1) snoc assms(2)]
  have "card (pool_live p) < pool_slots p"
    using free_indices_empty_iff [OF assms(1)] card_pool_live [OF shape] snoc by (simp add: pool_slots_def)
  moreover have "mb_ptr b \<notin> pool_live p" using a block_addr_live [OF shape] by simp
  moreover have "block_bool b"
  proof -
    have "unat (block_addr p (unat x)) \<noteq> 0" "bp_block_size p \<noteq> 0"
      using a unat_block_addr [OF shape, of "unat x"] shape by (auto simp: pool_shape_def)
    then show ?thesis using a by (simp add: block_bool_def word_unat_eq_iff word_gt_0)
  qed
  moreover have "block_addr p' = block_addr p" using a by (simp add: block_addr_def fun_eq_iff)
  then have "pool_live p' = insert (mb_ptr b) (pool_live p)" using a by (simp add: pool_live_def)
  ultimately show ?thesis using a by (simp add: pool_slots_def)
qed

lemma pool_free_law:
  assumes "pool_ok p" "pool_free_block ptr p = (ok, p')"
  shows "pool_ok p' \<and> pool_slots p' = pool_slots p \<and> (ok \<longleftrightarrow> ptr \<in> pool_live p) \<and>
    pool_live p' = pool_live p - {ptr}"
proof (cases "ptr \<in> pool_live p")
  case False
  with assms pool_free_block_index [OF pool_okD(1) [OF assms(1)], of ptr] show ?thesis by simp
next
  case True
  note shape = pool_okD(1) [OF assms(1)]
  let ?i = "(unat ptr - unat (bp_storage_data p)) div unat (bp_block_size p)"
  from True obtain i where i: "i \<in> live_indices p" "ptr = block_addr p i" by (auto simp: pool_live_def)
  then have lt: "i < unat (bp_block_count p)" using live_indices_subset [OF shape] by blast
  have "0 < unat (bp_block_size p)" using shape by (simp add: pool_shape_def)
  then have "?i = i" using unat_block_addr [OF shape lt] i(2) by simp
  with assms(2) True pool_free_block_index [OF shape, of ptr]
  have p': "ok" "p' = p\<lparr>bp_allocated := (bp_allocated p)[i := False],
      bp_free_indices := bp_free_indices p @ [of_nat i], bp_used_blocks := bp_used_blocks p - 1\<rparr>"
    by simp_all
  note f = pool_free_ok [OF assms(1) i(1) p'(2)]
  have "block_addr p' = block_addr p" using p'(2) by (simp add: block_addr_def fun_eq_iff)
  then have "pool_live p' = pool_live p - {ptr}"
    using f i(2) lt live_indices_subset [OF shape] block_addr_inject [OF shape]
    unfolding pool_live_def by auto
  with f p' True show ?thesis by (simp add: pool_slots_def)
qed

interpretation pool: block_allocator pool_allocate pool_free_block pool_live pool_slots pool_ok
proof
  show "finite (pool_live p)" for p by (simp add: pool_live_def)
qed (rule pool_alloc_law pool_free_law; assumption)+

lemma new_pool_ok:
  assumes "0 < unat bs" "0 < unat n" "0 < unat data" "unat data + unat bs * unat n < 18446744073709551616"
  shows "pool_ok (new_fixed_block_pool data bs n) \<and> pool_live (new_fixed_block_pool data bs n) = {}"
proof -
  let ?p = "new_fixed_block_pool data bs n"
  have live: "live_indices ?p = {}" by (auto simp: live_indices_def new_fixed_block_pool_def)
  have pr: "unat (bs * n) = unat bs * unat n" using assms(4) by (simp add: unat_word_ariths(2))
  have u: "unat (n - 1 - of_nat i) = unat n - 1 - i" if "i < unat n" for i
  proof -
    have "unat (of_nat i :: u64) = i" using that unat_u64_lt [of n] by (intro unat_u64_of_nat) linarith
    moreover have "unat (n - 1) = unat n - 1" using assms(2) by (metis less_numeral_extra(3) unat_0 unat_minus_one)
    ultimately show ?thesis using that by (simp add: unat_sub_if_size)
  qed
  have map_u: "map unat (bp_free_indices ?p) = map (\<lambda>i. unat n - 1 - i) [0..<unat n]"
    by (simp add: new_fixed_block_pool_def u)
  have "(\<lambda>i. unat n - 1 - i) ` {..<unat n} = {..<unat n}"
  proof (rule card_subset_eq)
    have "inj_on (\<lambda>i. unat n - 1 - i) {..<unat n}" by (rule inj_onI) auto
    then show "card ((\<lambda>i. unat n - 1 - i) ` {..<unat n}) = card {..<unat n}" by (rule card_image)
  qed (use assms(2) in auto)
  then have "unat ` set (bp_free_indices ?p) = {..<unat n}"
    using arg_cong [OF map_u, of set] by (simp add: atLeast_upt lessThan_atLeast0 image_image)
  moreover have "distinct (map unat (bp_free_indices ?p))"
    unfolding map_u by (simp add: distinct_map) (rule inj_onI, auto)
  then have "distinct (bp_free_indices ?p)" by (simp add: distinct_map)
  ultimately have "pool_ok ?p"
    using assms live pr unfolding pool_ok_def pool_shape_def by (simp add: new_fixed_block_pool_def)
  with live show ?thesis by (simp add: pool_live_def)
qed

datatype pool_op = Pool_Allocate | Pool_Free u64

definition pool_op_step :: "pool_op \<Rightarrow> fixed_block_pool \<Rightarrow> fixed_block_pool" where
  "pool_op_step op p = (case op of Pool_Allocate \<Rightarrow> snd (pool_allocate p) | Pool_Free ptr \<Rightarrow> snd (pool_free_block ptr p))"

lemma pool_free_sizes:
  "bp_block_size (snd (pool_free_block ptr p)) = bp_block_size p \<and>
   bp_storage_data (snd (pool_free_block ptr p)) = bp_storage_data p \<and>
   bp_block_count (snd (pool_free_block ptr p)) = bp_block_count p"
  by (simp add: pool_free_block_def Let_def)

lemma pool_allocate_sizes:
  "bp_block_size (snd (pool_allocate p)) = bp_block_size p \<and>
   bp_storage_data (snd (pool_allocate p)) = bp_storage_data p \<and>
   bp_block_count (snd (pool_allocate p)) = bp_block_count p"
  by (simp add: pool_allocate_def Let_def)

lemma pool_ops_ok:
  "pool_ok p \<Longrightarrow> pool_ok (fold pool_op_step ops p) \<and>
     bp_block_size (fold pool_op_step ops p) = bp_block_size p \<and>
     bp_block_count (fold pool_op_step ops p) = bp_block_count p"
proof (induction ops arbitrary: p)
  case (Cons op ops)
  have "pool_ok (pool_op_step op p) \<and> bp_block_size (pool_op_step op p) = bp_block_size p \<and>
      bp_block_count (pool_op_step op p) = bp_block_count p"
  proof (cases op)
    case Pool_Allocate
    with pool_alloc_law [OF Cons.prems, of "fst (pool_allocate p)" "snd (pool_allocate p)"]
      pool_allocate_sizes [of p] show ?thesis by (simp add: pool_op_step_def)
  next
    case (Pool_Free ptr)
    with pool_free_law [OF Cons.prems, of ptr "fst (pool_free_block ptr p)" "snd (pool_free_block ptr p)"]
      pool_free_sizes [of ptr p] show ?thesis by (simp add: pool_op_step_def)
  qed
  with Cons.IH show ?case by simp
qed simp

lemma alloc_n_2: "alloc_n alloc 2 s = alloc_n alloc (Suc (Suc 0)) s"
  by (simp add: numeral_2_eq_2)

lemma pool_stats_exact:
  assumes "pool_ok p"
  shows "unat (ms_used (pool_stats p)) = unat (bp_block_size p) * card (pool_live p) \<and>
    ms_used (pool_stats p) \<le> ms_peak_used (pool_stats p) \<and>
    ms_peak_used (pool_stats p) \<le> ms_capacity (pool_stats p) \<and>
    unat (ms_free (pool_stats p)) = unat (bp_block_size p) * (unat (bp_block_count p) - card (pool_live p))"
proof -
  note p = pool_okD [OF assms]
  let ?bs = "unat (bp_block_size p)"
  have cap: "?bs * unat (bp_block_count p) < 18446744073709551616" using p(1) by (simp add: pool_shape_def)
  have u: "unat (bp_block_size p * x) = ?bs * unat x" if "unat x \<le> unat (bp_block_count p)" for x
  proof -
    have "?bs * unat x \<le> ?bs * unat (bp_block_count p)" using that by (intro mult_le_mono2)
    with cap have "?bs * unat x < 18446744073709551616" by linarith
    then show ?thesis by (simp add: unat_word_ariths(2))
  qed
  have used: "unat (bp_block_size p * bp_used_blocks p) = ?bs * card (pool_live p)"
    using u [of "bp_used_blocks p"] p(4-6) card_pool_live [OF p(1)] by simp
  have "?bs * card (pool_live p) \<le> ?bs * unat (bp_block_count p)"
    using p(4-6) card_pool_live [OF p(1)] by (intro mult_le_mono2) simp
  then have fr: "unat (bp_block_size p * bp_block_count p - bp_block_size p * bp_used_blocks p) =
      ?bs * (unat (bp_block_count p) - card (pool_live p))"
    using u [of "bp_block_count p"] used by (simp add: unat_sub_if_size diff_mult_distrib2)
  show ?thesis
    using used fr u [of "bp_used_blocks p"] u [of "bp_peak_used_blocks p"] u [of "bp_block_count p"] p(5,6)
    by (simp add: pool_stats_def Let_def word_le_nat_alt)
qed

section \<open>Properties\<close>

text \<open>C8: A pool whose storage does not wrap stays well-formed under every sequence of
  \<open>allocate\<close> and \<open>free_block\<close> calls, whatever pointers are freed: the free list holds exactly
  the indices not in use, once each, and the statistics report exactly the live blocks, used
  below peak below capacity.\<close>

theorem pool_invariant:
  assumes "0 < unat bs" "0 < unat n" "0 < unat data" "unat data + unat bs * unat n < 18446744073709551616"
    and "p = fold pool_op_step ops (new_fixed_block_pool data bs n)"
  shows "pool_ok p \<and> unat (ms_used (pool_stats p)) = unat bs * card (pool_live p) \<and>
    ms_used (pool_stats p) \<le> ms_peak_used (pool_stats p) \<and>
    ms_peak_used (pool_stats p) \<le> ms_capacity (pool_stats p) \<and>
    unat (ms_free (pool_stats p)) = unat bs * (unat n - card (pool_live p))"
proof -
  have new: "pool_ok (new_fixed_block_pool data bs n)" using new_pool_ok [OF assms(1-4)] by blast
  have "bp_block_size p = bs" "bp_block_count p = n" "pool_ok p"
    using pool_ops_ok [OF new, of ops] assms(5) by (simp_all add: new_fixed_block_pool_def)
  with pool_stats_exact [of p] show ?thesis by simp
qed

theorem pool_invariant_witness:
  "ms_peak_used (pool_stats (fold pool_op_step [Pool_Allocate, Pool_Free 0x1000, Pool_Free 0x1000, Pool_Free 7]
       (new_fixed_block_pool 0x1000 16 2))) \<le>
   ms_capacity (pool_stats (fold pool_op_step [Pool_Allocate, Pool_Free 0x1000, Pool_Free 0x1000, Pool_Free 7]
       (new_fixed_block_pool 0x1000 16 2)))"
  using pool_invariant [OF _ _ _ _ refl, of 16 2 "0x1000"
      "[Pool_Allocate, Pool_Free 0x1000, Pool_Free 0x1000, Pool_Free 7]"] by simp

text \<open>\<open>free_block\<close> succeeds exactly for the address of a block that is allocated now, and
  then takes it out of the live blocks; a foreign, misaligned, null or already freed pointer is
  refused and changes nothing.\<close>

theorem pool_free_exact:
  assumes "pool_ok p"
  shows "fst (pool_free_block ptr p) = (ptr \<in> pool_live p) \<and>
    pool_live (snd (pool_free_block ptr p)) = pool_live p - {ptr} \<and>
    (if fst (pool_free_block ptr p)
     then \<not> fst (pool_free_block ptr (snd (pool_free_block ptr p)))
     else snd (pool_free_block ptr p) = p)"
proof -
  obtain ok q where q: "pool_free_block ptr p = (ok, q)" by fastforce
  have "q = p" if "\<not> ok"
    using that q pool_free_block_index [OF pool_okD(1) [OF assms], of ptr] by (simp split: if_split_asm)
  with pool_free_law [OF assms q] pool.double_dealloc [OF assms q] show ?thesis by (simp add: q)
qed

theorem pool_free_exact_witness:
  "fst (pool_free_block 0x1010 (new_fixed_block_pool 0x1000 16 2)) =
     (0x1010 \<in> pool_live (new_fixed_block_pool 0x1000 16 2))"
  using pool_free_exact [of "new_fixed_block_pool 0x1000 16 2" "0x1010"] new_pool_ok [of 16 2 "0x1000"] by simp

text \<open>As many blocks as the pool has free can be allocated, at distinct addresses; freeing
  them in any order succeeds every time and brings the pool's live blocks back to what they were.\<close>

theorem pool_allocate_then_free:
  assumes "pool_ok p" "card (pool_live p) + k \<le> unat (bp_block_count p)"
    and "alloc_n pool_allocate k p = (bs, p1)"
    and "set ptrs = set (map mb_ptr bs)" "distinct ptrs"
    and "dealloc_list pool_free_block ptrs p1 = (oks, p2)"
  shows "list_all block_bool bs \<and> distinct (map mb_ptr bs) \<and> oks = replicate (length ptrs) True \<and>
    pool_live p2 = pool_live p \<and> pool_ok p2"
  by (rule pool.alloc_then_dealloc [OF assms(1) _ assms(3-6)]) (simp add: pool_slots_def assms(2))

theorem pool_allocate_then_free_witness:
  "\<exists>bs p1 oks p2. alloc_n pool_allocate 2 (new_fixed_block_pool 0x1000 16 2) = (bs, p1) \<and>
     map mb_ptr bs = [0x1000, 0x1010] \<and>
     dealloc_list pool_free_block [0x1010, 0x1000] p1 = (oks, p2) \<and> oks = [True, True]"
proof -
  let ?p = "new_fixed_block_pool 0x1000 16 2"
  obtain bs p1 where 1: "alloc_n pool_allocate 2 ?p = (bs, p1)" by (metis surj_pair)
  obtain oks p2 where 2: "dealloc_list pool_free_block [0x1010, 0x1000] p1 = (oks, p2)" by (metis surj_pair)
  have bs: "map mb_ptr bs = [0x1000, 0x1010]"
    using 1 by (auto simp: alloc_n_2 pool_allocate_def new_fixed_block_pool_def Let_def upt_rec)
  have "pool_ok ?p" "pool_live ?p = {}" using new_pool_ok [of 16 2 "0x1000"] by simp_all
  moreover have "set [0x1010, 0x1000] = set (map mb_ptr bs)" unfolding bs by auto
  moreover have "card (pool_live ?p) + 2 \<le> unat (bp_block_count ?p)"
    unfolding \<open>pool_live ?p = {}\<close> by (simp add: new_fixed_block_pool_def)
  ultimately have "oks = replicate (length [0x1010 :: u64, 0x1000]) True"
    using pool_allocate_then_free [OF _ _ 1 _ _ 2] by simp
  then have oks: "oks = [True, True]" by simp
  show ?thesis
    by (intro exI [of _ bs] exI [of _ p1] exI [of _ oks] exI [of _ p2] conjI 1 2 bs oks)
qed

text \<open>When block size times block count wraps to 0 the pool's storage is empty, and still
  \<open>allocate\<close> hands out a block of the full size, which \<open>free_block\<close> then refuses to take back.\<close>

theorem pool_storage_wraps:
  assumes "bs * n = 0" "bs \<noteq> 0" "n \<noteq> 0" "data \<noteq> 0"
  shows "\<exists>p. pool_allocate (new_fixed_block_pool data bs n) = (\<lparr>mb_ptr = data, mb_size = bs\<rparr>, p) \<and>
    bp_storage_size p = 0 \<and> pool_free_block data p = (False, p)"
proof -
  have "0 < unat n" using assms(3) by (simp add: unat_gt_0)
  then obtain m where m: "unat n = Suc m" by (cases "unat n") auto
  then have "of_nat m = n - 1" by (metis add_diff_cancel_left' of_nat_Suc of_nat_unat ucast_id)
  then have "last (bp_free_indices (new_fixed_block_pool data bs n)) = 0"
    "bp_free_indices (new_fixed_block_pool data bs n) \<noteq> []"
    by (simp_all add: new_fixed_block_pool_def m)
  with assms show ?thesis
    by (simp add: pool_allocate_def pool_free_block_def owns_pointer_def Let_def)
      (simp add: new_fixed_block_pool_def)
qed

theorem pool_storage_wraps_witness:
  "\<exists>p. pool_allocate (new_fixed_block_pool 0x1000 0x8000000000000000 2) =
     (\<lparr>mb_ptr = 0x1000, mb_size = 0x8000000000000000\<rparr>, p) \<and>
    bp_storage_size p = 0 \<and> pool_free_block 0x1000 p = (False, p)"
  by (rule pool_storage_wraps) simp_all

end
