(* ===== verification/Mem_Manager.thy ===== *)
theory Mem_Manager
  imports Block_Pool
begin

text \<open>
  \<open>AgentMemoryBudget\<close>, \<open>MemoryManager\<close> and \<open>ScopedMemoryReservation\<close> of \<open>memory\<close>. The manager
  owns two arenas, the message pool and a map of budgets; where its three vectors lie is a
  parameter of the constructor. A reservation is the pair of its constructor and its
  destructor, both acting on the manager it refers to.
\<close>

section \<open>The budget of an agent\<close>

record agent_memory_budget =
  ab_agent_id :: string
  ab_limit_bytes :: u64
  ab_used_bytes :: u64
  ab_peak_used_bytes :: u64

definition new_agent_memory_budget :: "string \<Rightarrow> u64 \<Rightarrow> agent_memory_budget" where
  "new_agent_memory_budget agent_id limit_bytes =
     \<lparr>ab_agent_id = agent_id, ab_limit_bytes = limit_bytes, ab_used_bytes = 0, ab_peak_used_bytes = 0\<rparr>"

definition budget_can_reserve :: "u64 \<Rightarrow> agent_memory_budget \<Rightarrow> bool" where
  "budget_can_reserve n b \<longleftrightarrow> ab_used_bytes b + n \<le> ab_limit_bytes b"

definition budget_reserve :: "u64 \<Rightarrow> agent_memory_budget \<Rightarrow> bool \<times> agent_memory_budget" where
  "budget_reserve n b =
     (if \<not> budget_can_reserve n b then (False, b)
      else let b = b\<lparr>ab_used_bytes := ab_used_bytes b + n\<rparr>
           in (True, b\<lparr>ab_peak_used_bytes := max (ab_peak_used_bytes b) (ab_used_bytes b)\<rparr>))"

definition budget_release :: "u64 \<Rightarrow> agent_memory_budget \<Rightarrow> agent_memory_budget" where
  "budget_release n b =
     (if n \<ge> ab_used_bytes b then b\<lparr>ab_used_bytes := 0\<rparr>
      else b\<lparr>ab_used_bytes := ab_used_bytes b - n\<rparr>)"

definition budget_stats :: "agent_memory_budget \<Rightarrow> memory_stats" where
  "budget_stats b = \<lparr>ms_capacity = ab_limit_bytes b, ms_used = ab_used_bytes b,
     ms_free = ab_limit_bytes b - ab_used_bytes b, ms_peak_used = ab_peak_used_bytes b\<rparr>"

definition budget_agent_id :: "agent_memory_budget \<Rightarrow> string" where "budget_agent_id b = ab_agent_id b"
definition budget_limit_bytes :: "agent_memory_budget \<Rightarrow> u64" where "budget_limit_bytes b = ab_limit_bytes b"
definition budget_used_bytes :: "agent_memory_budget \<Rightarrow> u64" where "budget_used_bytes b = ab_used_bytes b"
definition budget_peak_used_bytes :: "agent_memory_budget \<Rightarrow> u64" where "budget_peak_used_bytes b = ab_peak_used_bytes b"

section \<open>The manager\<close>

record memory_manager_config =
  mc_global_arena_size :: u64
  mc_scratch_arena_size :: u64
  mc_message_block_size :: u64
  mc_message_block_count :: u64

definition default_memory_manager_config :: memory_manager_config where
  "default_memory_manager_config = \<lparr>mc_global_arena_size = 64 * 1024, mc_scratch_arena_size = 16 * 1024,
     mc_message_block_size = 512, mc_message_block_count = 32\<rparr>"

record memory_manager =
  mm_config :: memory_manager_config
  mm_global_arena :: memory_arena
  mm_scratch_arena :: memory_arena
  mm_message_pool :: fixed_block_pool
  mm_agent_budgets :: "string \<rightharpoonup> agent_memory_budget"

definition new_memory_manager ::
    "u64 \<Rightarrow> u64 \<Rightarrow> u64 \<Rightarrow> memory_manager_config \<Rightarrow> memory_manager" where
  "new_memory_manager global_data scratch_data pool_data config =
     \<lparr>mm_config = config,
      mm_global_arena = new_memory_arena global_data (mc_global_arena_size config),
      mm_scratch_arena = new_memory_arena scratch_data (mc_scratch_arena_size config),
      mm_message_pool = new_fixed_block_pool pool_data (mc_message_block_size config)
        (mc_message_block_count config),
      mm_agent_budgets = Map.empty\<rparr>"

definition allocate_global :: "u64 \<Rightarrow> u64 \<Rightarrow> memory_manager \<Rightarrow> memory_block \<times> memory_manager" where
  "allocate_global sz alignment m =
     (case arena_allocate sz alignment (mm_global_arena m) of
        (b, a) \<Rightarrow> (b, m\<lparr>mm_global_arena := a\<rparr>))"

definition allocate_scratch :: "u64 \<Rightarrow> u64 \<Rightarrow> memory_manager \<Rightarrow> memory_block \<times> memory_manager" where
  "allocate_scratch sz alignment m =
     (case scratch_allocate sz alignment (mm_scratch_arena m) of
        (b, a) \<Rightarrow> (b, m\<lparr>mm_scratch_arena := a\<rparr>))"

definition reset_scratch :: "memory_manager \<Rightarrow> memory_manager" where
  "reset_scratch m = m\<lparr>mm_scratch_arena := scratch_reset (mm_scratch_arena m)\<rparr>"

definition allocate_message :: "memory_manager \<Rightarrow> memory_block \<times> memory_manager" where
  "allocate_message m =
     (case pool_allocate (mm_message_pool m) of (b, p) \<Rightarrow> (b, m\<lparr>mm_message_pool := p\<rparr>))"

definition free_message :: "u64 \<Rightarrow> memory_manager \<Rightarrow> bool \<times> memory_manager" where
  "free_message ptr m =
     (case pool_free_block ptr (mm_message_pool m) of (ok, p) \<Rightarrow> (ok, m\<lparr>mm_message_pool := p\<rparr>))"

definition set_agent_budget :: "string \<Rightarrow> u64 \<Rightarrow> memory_manager \<Rightarrow> memory_manager" where
  "set_agent_budget agent_id limit_bytes m =
     m\<lparr>mm_agent_budgets := (mm_agent_budgets m)(agent_id \<mapsto> new_agent_memory_budget agent_id limit_bytes)\<rparr>"

definition reserve_agent_memory :: "string \<Rightarrow> u64 \<Rightarrow> memory_manager \<Rightarrow> bool \<times> memory_manager" where
  "reserve_agent_memory agent_id n m =
     (case mm_agent_budgets m agent_id of
        None \<Rightarrow> (False, m)
      | Some b \<Rightarrow> case budget_reserve n b of
          (ok, b) \<Rightarrow> (ok, m\<lparr>mm_agent_budgets := (mm_agent_budgets m)(agent_id \<mapsto> b)\<rparr>))"

definition release_agent_memory :: "string \<Rightarrow> u64 \<Rightarrow> memory_manager \<Rightarrow> memory_manager" where
  "release_agent_memory agent_id n m =
     (case mm_agent_budgets m agent_id of
        None \<Rightarrow> m
      | Some b \<Rightarrow> m\<lparr>mm_agent_budgets := (mm_agent_budgets m)(agent_id \<mapsto> budget_release n b)\<rparr>)"

definition agent_budget :: "string \<Rightarrow> memory_manager \<Rightarrow> agent_memory_budget option" where
  "agent_budget agent_id m = mm_agent_budgets m agent_id"

definition global_stats :: "memory_manager \<Rightarrow> memory_stats" where
  "global_stats m = arena_stats (mm_global_arena m)"

definition manager_scratch_stats :: "memory_manager \<Rightarrow> memory_stats" where
  "manager_scratch_stats m = scratch_stats (mm_scratch_arena m)"

definition message_pool_stats :: "memory_manager \<Rightarrow> memory_stats" where
  "message_pool_stats m = pool_stats (mm_message_pool m)"

section \<open>Scoped reservations\<close>

record scoped_memory_reservation =
  sr_agent_id :: string
  sr_bytes :: u64
  sr_reserved :: bool

definition open_reservation ::
    "string \<Rightarrow> u64 \<Rightarrow> memory_manager \<Rightarrow> scoped_memory_reservation \<times> memory_manager" where
  "open_reservation agent_id n m =
     (case reserve_agent_memory agent_id n m of
        (reserved, m) \<Rightarrow> (\<lparr>sr_agent_id = agent_id, sr_bytes = n, sr_reserved = reserved\<rparr>, m))"

definition close_reservation :: "scoped_memory_reservation \<Rightarrow> memory_manager \<Rightarrow> memory_manager" where
  "close_reservation s m =
     (if sr_reserved s then release_agent_memory (sr_agent_id s) (sr_bytes s) m else m)"

definition reservation_ok :: "scoped_memory_reservation \<Rightarrow> bool" where
  "reservation_ok s = sr_reserved s"

section \<open>Invariants\<close>

definition budget_ok :: "string \<Rightarrow> agent_memory_budget \<Rightarrow> bool" where
  "budget_ok agent_id b \<longleftrightarrow> ab_agent_id b = agent_id \<and>
     ab_used_bytes b \<le> ab_peak_used_bytes b \<and> ab_peak_used_bytes b \<le> ab_limit_bytes b"

definition manager_ok :: "memory_manager \<Rightarrow> bool" where
  "manager_ok m \<longleftrightarrow> arena_ok (mm_global_arena m) \<and> arena_ok (mm_scratch_arena m) \<and>
     pool_ok (mm_message_pool m) \<and> (\<forall>(i, b) \<in> Map.graph (mm_agent_budgets m). budget_ok i b)"

datatype manager_op =
    Allocate_Global u64 u64 | Allocate_Scratch u64 u64 | Reset_Scratch | Allocate_Message
  | Free_Message u64 | Set_Agent_Budget string u64 | Reserve_Agent_Memory string u64
  | Release_Agent_Memory string u64

primrec manager_step :: "manager_op \<Rightarrow> memory_manager \<Rightarrow> memory_manager" where
  "manager_step (Allocate_Global sz al) m = snd (allocate_global sz al m)"
| "manager_step (Allocate_Scratch sz al) m = snd (allocate_scratch sz al m)"
| "manager_step Reset_Scratch m = reset_scratch m"
| "manager_step Allocate_Message m = snd (allocate_message m)"
| "manager_step (Free_Message ptr) m = snd (free_message ptr m)"
| "manager_step (Set_Agent_Budget i n) m = set_agent_budget i n m"
| "manager_step (Reserve_Agent_Memory i n) m = snd (reserve_agent_memory i n m)"
| "manager_step (Release_Agent_Memory i n) m = release_agent_memory i n m"

primrec op_small :: "manager_op \<Rightarrow> bool" where
  "op_small (Allocate_Global sz al) \<longleftrightarrow> unat sz < 4611686018427387904"
| "op_small (Allocate_Scratch sz al) \<longleftrightarrow> unat sz < 4611686018427387904"
| "op_small Reset_Scratch \<longleftrightarrow> True"
| "op_small Allocate_Message \<longleftrightarrow> True"
| "op_small (Free_Message ptr) \<longleftrightarrow> True"
| "op_small (Set_Agent_Budget i n) \<longleftrightarrow> True"
| "op_small (Reserve_Agent_Memory i n) \<longleftrightarrow> True"
| "op_small (Release_Agent_Memory i n) \<longleftrightarrow> True"

lemma manager_budget_ok: "manager_ok m \<Longrightarrow> mm_agent_budgets m i = Some b \<Longrightarrow> budget_ok i b"
  by (auto simp: manager_ok_def in_graphI)

lemma manager_ok_update:
  assumes "manager_ok m" "budget_ok i b"
  shows "manager_ok (m\<lparr>mm_agent_budgets := (mm_agent_budgets m)(i \<mapsto> b)\<rparr>)"
  using assms unfolding manager_ok_def
  by (auto simp: graph_def split: if_splits)

lemma budget_ok_reserve: "budget_ok i b \<Longrightarrow> budget_ok i (snd (budget_reserve n b))"
  by (auto simp: budget_ok_def budget_reserve_def budget_can_reserve_def Let_def max_def)

lemma budget_ok_release: "budget_ok i b \<Longrightarrow> budget_ok i (budget_release n b)"
  unfolding budget_ok_def budget_release_def
  by (auto simp: word_le_nat_alt unat_sub_if_size)

lemma arena_ok_allocate:
  "arena_ok a \<Longrightarrow> unat sz < 4611686018427387904 \<Longrightarrow> arena_ok (snd (arena_allocate sz al a))"
  using arena_ok_step [of a sz al "fst (arena_allocate sz al a)" "snd (arena_allocate sz al a)"] by simp

lemma manager_step_ok:
  assumes "manager_ok m" "op_small opn"
  shows "manager_ok (manager_step opn m)"
proof (cases opn)
  case (Allocate_Global sz al)
  with assms arena_ok_allocate [of "mm_global_arena m" sz al] show ?thesis
    by (simp add: allocate_global_def manager_ok_def case_prod_unfold)
next
  case (Allocate_Scratch sz al)
  with assms arena_ok_allocate [of "mm_scratch_arena m" sz al] show ?thesis
    by (simp add: allocate_scratch_def scratch_allocate_def manager_ok_def case_prod_unfold)
next
  case Reset_Scratch
  with assms show ?thesis
    by (auto simp: reset_scratch_def scratch_reset_def arena_reset_def manager_ok_def arena_ok_def)
next
  case Allocate_Message
  with assms pool_alloc_law [of "mm_message_pool m" "fst (pool_allocate (mm_message_pool m))"] show ?thesis
    by (simp add: allocate_message_def manager_ok_def case_prod_unfold)
next
  case (Free_Message ptr)
  with assms pool_free_law [of "mm_message_pool m" ptr "fst (pool_free_block ptr (mm_message_pool m))"]
  show ?thesis by (simp add: free_message_def manager_ok_def case_prod_unfold)
next
  case (Set_Agent_Budget i n)
  with manager_ok_update [OF assms(1), of i "new_agent_memory_budget i n"] show ?thesis
    by (simp add: set_agent_budget_def new_agent_memory_budget_def budget_ok_def)
next
  case (Reserve_Agent_Memory i n)
  with assms(1) manager_budget_ok [OF assms(1)] show ?thesis
    by (auto simp: reserve_agent_memory_def case_prod_unfold
        intro!: manager_ok_update budget_ok_reserve split: option.split)
next
  case (Release_Agent_Memory i n)
  with assms(1) manager_budget_ok [OF assms(1)] show ?thesis
    by (auto simp: release_agent_memory_def intro!: manager_ok_update budget_ok_release split: option.split)
qed

lemma manager_ops_ok:
  "manager_ok m \<Longrightarrow> list_all op_small ops \<Longrightarrow> manager_ok (fold manager_step ops m)"
  by (induction ops arbitrary: m) (simp_all add: manager_step_ok)

section \<open>What an agent has reserved\<close>

definition agent_used :: "memory_manager \<Rightarrow> string \<Rightarrow> nat option" where
  "agent_used m i = map_option (unat \<circ> ab_used_bytes) (mm_agent_budgets m i)"

text \<open>No limit reaches half of the address space, so that sums of what a request within
  these bounds adds do not wrap.\<close>

definition limits_sane :: "memory_manager \<Rightarrow> bool" where
  "limits_sane m \<longleftrightarrow> (\<forall>(i, b) \<in> Map.graph (mm_agent_budgets m).
     ab_used_bytes b \<le> ab_limit_bytes b \<and> unat (ab_limit_bytes b) < 9223372036854775808)"

lemma limits_saneD:
  "limits_sane m \<Longrightarrow> mm_agent_budgets m i = Some b \<Longrightarrow>
     unat (ab_used_bytes b) \<le> unat (ab_limit_bytes b) \<and> unat (ab_limit_bytes b) < 9223372036854775808"
  by (auto simp: limits_sane_def word_le_nat_alt dest: in_graphI)

lemma limits_sane_update:
  "limits_sane m \<Longrightarrow> mm_agent_budgets m i = Some b \<Longrightarrow> ab_limit_bytes b' = ab_limit_bytes b \<Longrightarrow>
     ab_used_bytes b' \<le> ab_limit_bytes b' \<Longrightarrow>
     limits_sane (m\<lparr>mm_agent_budgets := (mm_agent_budgets m)(i \<mapsto> b')\<rparr>)"
  unfolding limits_sane_def by (auto simp: graph_def split: if_splits)

lemma budget_reserve_exact:
  assumes "unat (ab_used_bytes b) + unat n < 18446744073709551616"
  shows "budget_reserve n b =
    (if unat (ab_used_bytes b) + unat n \<le> unat (ab_limit_bytes b)
     then (True, b\<lparr>ab_used_bytes := ab_used_bytes b + n,
       ab_peak_used_bytes := max (ab_peak_used_bytes b) (ab_used_bytes b + n)\<rparr>)
     else (False, b))"
  using assms
  by (simp add: budget_reserve_def budget_can_reserve_def word_le_nat_alt unat_word_ariths(1))

lemma reserve_agent_exact:
  assumes "limits_sane m" "unat n < 9223372036854775808" "reserve_agent_memory i n m = (ok, m')"
  shows "limits_sane m' \<and>
    (ok \<longleftrightarrow> (\<exists>b. mm_agent_budgets m i = Some b \<and> unat (ab_used_bytes b) + unat n \<le> unat (ab_limit_bytes b))) \<and>
    agent_used m' = (if ok then (agent_used m)(i \<mapsto> the (agent_used m i) + unat n) else agent_used m)"
proof (cases "mm_agent_budgets m i")
  case None
  with assms show ?thesis by (auto simp: reserve_agent_memory_def)
next
  case (Some b)
  note b = limits_saneD [OF assms(1) Some]
  then have nw: "unat (ab_used_bytes b) + unat n < 18446744073709551616" using assms(2) by linarith
  then have u: "unat (ab_used_bytes b + n) = unat (ab_used_bytes b) + unat n"
    by (simp add: unat_word_ariths(1))
  have "(mm_agent_budgets m)(i \<mapsto> b) = mm_agent_budgets m" using Some by (simp add: fun_upd_idem)
  with assms(1,3) Some u b show ?thesis unfolding reserve_agent_memory_def
    by (auto simp: budget_reserve_exact [OF nw] agent_used_def fun_eq_iff word_le_nat_alt
        intro!: limits_sane_update split: if_splits)
qed

lemma release_agent_exact:
  assumes "limits_sane m"
  shows "limits_sane (release_agent_memory i n m) \<and>
    agent_used (release_agent_memory i n m) =
      (case agent_used m i of None \<Rightarrow> agent_used m | Some u \<Rightarrow> (agent_used m)(i \<mapsto> u - unat n))"
proof (cases "mm_agent_budgets m i")
  case None
  with assms show ?thesis by (simp add: release_agent_memory_def agent_used_def)
next
  case (Some b)
  have u: "unat (ab_used_bytes (budget_release n b)) = unat (ab_used_bytes b) - unat n"
    by (auto simp: budget_release_def word_le_nat_alt unat_sub_if_size)
  have l: "ab_limit_bytes (budget_release n b) = ab_limit_bytes b" by (simp add: budget_release_def)
  have "ab_used_bytes (budget_release n b) \<le> ab_limit_bytes (budget_release n b)"
    using u limits_saneD [OF assms Some] unfolding l word_le_nat_alt by linarith
  with assms Some u l show ?thesis
    by (auto simp: release_agent_memory_def agent_used_def fun_eq_iff intro!: limits_sane_update)
qed

lemma close_restores:
  assumes "limits_sane m" "unat n < 9223372036854775808" "open_reservation i n m = (s, m1)"
    and "limits_sane m2" "agent_used m2 = agent_used m1"
  shows "limits_sane (close_reservation s m2) \<and> agent_used (close_reservation s m2) = agent_used m"
proof -
  obtain ok where r: "reserve_agent_memory i n m = (ok, m1)" "s = \<lparr>sr_agent_id = i, sr_bytes = n, sr_reserved = ok\<rparr>"
    using assms(3) by (auto simp: open_reservation_def split: prod.splits)
  note e = reserve_agent_exact [OF assms(1,2) r(1)]
  show ?thesis
  proof (cases ok)
    case False
    with e r assms(4,5) show ?thesis by (simp add: close_reservation_def)
  next
    case True
    with e obtain b where b: "mm_agent_budgets m i = Some b" by blast
    with True e have "agent_used m2 = (agent_used m)(i \<mapsto> unat (ab_used_bytes b) + unat n)"
      using assms(5) by (simp add: agent_used_def)
    with True r(2) release_agent_exact [OF assms(4), of i n] b show ?thesis
      by (auto simp: close_reservation_def agent_used_def fun_eq_iff)
  qed
qed

text \<open>A scope: the reservations opened in order around a body, closed in reverse order.\<close>

fun with_reservations ::
    "(string \<times> u64) list \<Rightarrow> (memory_manager \<Rightarrow> memory_manager) \<Rightarrow> memory_manager \<Rightarrow> memory_manager" where
  "with_reservations [] body m = body m"
| "with_reservations ((i, n) # rs) body m =
     (case open_reservation i n m of (s, m) \<Rightarrow> close_reservation s (with_reservations rs body m))"

lemma open_sane:
  "limits_sane m \<Longrightarrow> unat n < 9223372036854775808 \<Longrightarrow> open_reservation i n m = (s, m1) \<Longrightarrow> limits_sane m1"
  using reserve_agent_exact [of m n i "fst (reserve_agent_memory i n m)" "snd (reserve_agent_memory i n m)"]
  by (auto simp: open_reservation_def case_prod_unfold)

lemma with_reservations_restores:
  assumes body: "\<And>m. limits_sane m \<Longrightarrow> limits_sane (body m) \<and> agent_used (body m) = agent_used m"
  shows "limits_sane m \<Longrightarrow> \<forall>(i, n) \<in> set rs. unat n < 9223372036854775808 \<Longrightarrow>
    limits_sane (with_reservations rs body m) \<and> agent_used (with_reservations rs body m) = agent_used m"
proof (induction rs arbitrary: m)
  case Nil
  then show ?case using body by simp
next
  case (Cons r rs)
  obtain i n where r: "r = (i, n)" by fastforce
  obtain s m1 where 1: "open_reservation i n m = (s, m1)" by fastforce
  have n: "unat n < 9223372036854775808" using Cons.prems(2) r by simp
  have m1: "limits_sane m1" by (rule open_sane [OF Cons.prems(1) n 1])
  with Cons.IH [of m1] Cons.prems(2)
  have "limits_sane (with_reservations rs body m1)" "agent_used (with_reservations rs body m1) = agent_used m1"
    by simp_all
  from close_restores [OF Cons.prems(1) n 1 this] r 1 show ?case by simp
qed

section \<open>Properties\<close>

text \<open>C28: Whatever sequence of the manager's operations runs (with block requests below
  \<open>2 ^ 62\<close> bytes; reservations, releases, limits and freed pointers of any value), the arenas and
  the pool stay well-formed and every budget keeps the id it is filed under and used at most
  peak at most limit.\<close>

theorem manager_invariant:
  assumes "manager_ok m" "list_all op_small ops"
  shows "manager_ok (fold manager_step ops m) \<and>
    (case agent_budget i (fold manager_step ops m) of
       None \<Rightarrow> True
     | Some b \<Rightarrow> ab_agent_id b = i \<and> ab_used_bytes b \<le> ab_peak_used_bytes b \<and>
         ab_peak_used_bytes b \<le> ab_limit_bytes b)"
  using manager_ops_ok [OF assms] manager_budget_ok [OF manager_ops_ok [OF assms], of i]
  by (auto simp: agent_budget_def budget_ok_def split: option.split)

definition sample_manager :: memory_manager where
  "sample_manager = new_memory_manager 0x10000 0x40000 0x50000 default_memory_manager_config"

lemma sample_manager_ok: "manager_ok sample_manager"
  using new_pool_ok [of 512 32 "0x50000"]
  by (simp add: manager_ok_def sample_manager_def new_memory_manager_def default_memory_manager_config_def
      arena_ok_def new_memory_arena_def)

theorem manager_invariant_witness:
  "manager_ok (fold manager_step
     [Set_Agent_Budget ''a'' 100, Reserve_Agent_Memory ''a'' 60, Allocate_Scratch 10 8, Allocate_Message,
      Reserve_Agent_Memory ''a'' (- 1), Free_Message 3, Release_Agent_Memory ''a'' 70, Reset_Scratch]
     sample_manager)"
  using manager_invariant [OF sample_manager_ok, of "[Set_Agent_Budget ''a'' 100, Reserve_Agent_Memory ''a'' 60,
      Allocate_Scratch 10 8, Allocate_Message, Reserve_Agent_Memory ''a'' (- 1), Free_Message 3,
      Release_Agent_Memory ''a'' 70, Reset_Scratch]"] by simp

text \<open>Reserving is exact while nothing wraps: it succeeds if and only if the agent has a
  budget and used plus request is within its limit, then adds exactly the request to this
  agent's use, and otherwise changes no agent's use; releasing subtracts, at most down to 0.\<close>

theorem reserve_release_exact:
  assumes "limits_sane m" "unat n < 9223372036854775808" "reserve_agent_memory i n m = (ok, m')"
  shows "(ok \<longleftrightarrow> (\<exists>b. agent_budget i m = Some b \<and> unat (ab_used_bytes b) + unat n \<le> unat (ab_limit_bytes b))) \<and>
    agent_used m' = (if ok then (agent_used m)(i \<mapsto> the (agent_used m i) + unat n) else agent_used m) \<and>
    agent_used (release_agent_memory i k m') =
      (case agent_used m' i of None \<Rightarrow> agent_used m' | Some u \<Rightarrow> (agent_used m')(i \<mapsto> u - unat k))"
  using reserve_agent_exact [OF assms] release_agent_exact [of m' i k] by (simp add: agent_budget_def)

lemma sample_limits_sane: "limits_sane (set_agent_budget ''a'' 100 sample_manager)"
  by (simp add: limits_sane_def set_agent_budget_def sample_manager_def new_memory_manager_def
      new_agent_memory_budget_def graph_def)

theorem reserve_release_exact_witness:
  "\<exists>ok m'. reserve_agent_memory ''a'' 60 (set_agent_budget ''a'' 100 sample_manager) = (ok, m') \<and> ok \<and>
     agent_used m' ''a'' = Some 60"
proof -
  obtain ok m' where 1: "reserve_agent_memory ''a'' 60 (set_agent_budget ''a'' 100 sample_manager) = (ok, m')"
    by (metis surj_pair)
  have b: "agent_budget ''a'' (set_agent_budget ''a'' 100 sample_manager) = Some (new_agent_memory_budget ''a'' 100)"
    by (simp add: agent_budget_def set_agent_budget_def)
  then have "agent_used (set_agent_budget ''a'' 100 sample_manager) ''a'' = Some 0"
    by (simp add: agent_used_def agent_budget_def new_agent_memory_budget_def)
  with reserve_release_exact [OF sample_limits_sane _ 1] b have "ok" "agent_used m' ''a'' = Some 60"
    by (simp_all add: new_agent_memory_budget_def)
  with 1 show ?thesis by blast
qed

text \<open>C34: While no agent's limit reaches \<open>2 ^ 63\<close> and none uses more than its limit, and for sizes
  below \<open>2 ^ 63\<close>, \<open>ScopedMemoryReservation\<close>s, nested to any depth and on any agents, whether or
  not each of them was granted, leave every agent's use as it was if the innermost body does,
  without raising a limit or a use beyond these bounds.\<close>

theorem scoped_reservations_restore:
  assumes "\<And>m. limits_sane m \<Longrightarrow> limits_sane (body m) \<and> agent_used (body m) = agent_used m"
    and "limits_sane m" "\<forall>(i, n) \<in> set rs. unat n < 9223372036854775808"
  shows "agent_used (with_reservations rs body m) = agent_used m"
  using with_reservations_restores [OF assms] by simp

theorem scoped_reservations_restore_witness:
  "agent_used (with_reservations [(''a'', 60), (''a'', 60), (''b'', 1), (''a'', 40)] reset_scratch
      (set_agent_budget ''a'' 100 sample_manager)) =
   agent_used (set_agent_budget ''a'' 100 sample_manager)"
  by (rule scoped_reservations_restore [OF _ sample_limits_sane])
    (simp_all add: reset_scratch_def limits_sane_def agent_used_def fun_eq_iff)

text \<open>Without these bounds \<open>can_reserve\<close> wraps: an agent that already uses memory is granted
  a reservation of \<open>2 ^ 64\<close> minus its use, far beyond its limit, and its recorded use drops to 0.\<close>

theorem budget_reserve_wraps:
  assumes "agent_budget i m = Some b" "ab_used_bytes b \<noteq> 0"
  shows "\<exists>m'. reserve_agent_memory i (- ab_used_bytes b) m = (True, m') \<and> agent_used m' i = Some 0"
  using assms
  by (simp add: agent_budget_def reserve_agent_memory_def budget_reserve_def budget_can_reserve_def
      agent_used_def)

theorem budget_reserve_wraps_witness:
  "\<exists>m'. reserve_agent_memory ''a'' 0xFFFFFFFFFFFFFFF6
      (snd (reserve_agent_memory ''a'' 10 (set_agent_budget ''a'' 100 sample_manager))) = (True, m') \<and>
     agent_used m' ''a'' = Some 0"
proof -
  let ?m = "snd (reserve_agent_memory ''a'' 10 (set_agent_budget ''a'' 100 sample_manager))"
  let ?b = "(new_agent_memory_budget ''a'' 100)\<lparr>ab_used_bytes := 10, ab_peak_used_bytes := 10\<rparr>"
  have "agent_budget ''a'' ?m = Some ?b"
    by (simp add: agent_budget_def reserve_agent_memory_def set_agent_budget_def new_agent_memory_budget_def
        budget_reserve_def budget_can_reserve_def)
  moreover have "- ab_used_bytes ?b = 0xFFFFFFFFFFFFFFF6" "ab_used_bytes ?b \<noteq> 0" by simp_all
  ultimately show ?thesis using budget_reserve_wraps by metis
qed

end
