(* ===== verification/LLM_Memory.thy ===== *)
theory LLM_Memory
  imports LLM_Core Mem_Manager
begin

text \<open>
  \<open>MemoryAwareLLMRuntime\<close> of \<open>llm_memory\<close>: an \<open>LLMRuntime\<close> around another one that reserves
  memory of its agent's budget for the duration of a call. The manager is shared, so the inner
  runtime works on it too; the locale \<open>memory_backend\<close> is the contract under which the
  reservation comes back, and wrapping a runtime keeps the contract.
\<close>

section \<open>Definitions\<close>

definition estimate_memory_bytes :: "prompt \<Rightarrow> generation_config \<Rightarrow> u64" where
  "estimate_memory_bytes p config =
     (let prompt_bytes = fold (\<lambda>msg n. n + of_nat (length (pm_content msg))) (pr_messages p) 0;
          completion_bytes = ucast (gc_max_tokens config) * 8;
          overhead_bytes = 1024
      in prompt_bytes + completion_bytes + overhead_bytes)"

definition memory_generate ::
    "(memory_manager \<times> 's) llm_generate \<Rightarrow> string \<Rightarrow> (memory_manager \<times> 's) llm_generate" where
  "memory_generate inner agent_id p config st =
     (case st of (m, s) \<Rightarrow>
      let required_bytes = estimate_memory_bytes p config
      in case open_reservation agent_id required_bytes m of (reservation, m) \<Rightarrow>
        if \<not> reservation_ok reservation
        then (Inr (default_llm_result\<lparr>lr_text := [],
                lr_error_message := ''memory budget exceeded for agent: '' @ agent_id\<rparr>),
              (close_reservation reservation m, s))
        else case inner p config (m, s) of
            (Inl e, (m, s)) \<Rightarrow> (Inl e, (close_reservation reservation m, s))
          | (Inr result, (m, s)) \<Rightarrow> (Inr result, (close_reservation reservation (reset_scratch m), s)))"

definition memory_aware_name :: "string \<Rightarrow> string" where
  "memory_aware_name inner_name = ''MemoryAwareLLMRuntime('' @ inner_name @ '')''"

text \<open>A runtime that does not use the manager.\<close>

definition beside_manager :: "'s llm_generate \<Rightarrow> (memory_manager \<times> 's) llm_generate" where
  "beside_manager gen p config st = (case gen p config (snd st) of (r, s) \<Rightarrow> (r, (fst st, s)))"

section \<open>The contract of an inner runtime\<close>

locale memory_backend =
  fixes inner :: "(memory_manager \<times> 's) llm_generate"
  assumes inner_law: "limits_sane m \<Longrightarrow> inner p c (m, s) = (r, (m', s')) \<Longrightarrow>
    limits_sane m' \<and> agent_used m' = agent_used m"

lemma reset_scratch_used [simp]:
  "limits_sane (reset_scratch m) = limits_sane m" "agent_used (reset_scratch m) = agent_used m"
  by (simp_all add: reset_scratch_def limits_sane_def agent_used_def fun_eq_iff)

lemma close_scratch [simp]: "mm_scratch_arena (close_reservation s m) = mm_scratch_arena m"
  by (simp add: close_reservation_def release_agent_memory_def split: option.split)

lemma open_scratch: "open_reservation i n m = (s, m1) \<Longrightarrow> mm_scratch_arena m1 = mm_scratch_arena m"
  by (auto simp: open_reservation_def reserve_agent_memory_def split: option.splits prod.splits)

context memory_backend begin

lemma memory_generate_law:
  assumes "limits_sane m" "unat (estimate_memory_bytes p c) < 9223372036854775808"
    and "memory_generate inner agent p c (m, s) = (r, (m', s'))"
  shows "limits_sane m' \<and> agent_used m' = agent_used m"
proof -
  let ?n = "estimate_memory_bytes p c"
  obtain res m1 where o: "open_reservation agent ?n m = (res, m1)" by fastforce
  have m1: "limits_sane m1" by (rule open_sane [OF assms(1,2) o])
  note restore = close_restores [OF assms(1,2) o]
  show ?thesis
  proof (cases "reservation_ok res")
    case False
    with assms(3) o have "m' = close_reservation res m1" by (simp add: memory_generate_def)
    with restore [OF m1 refl] show ?thesis by simp
  next
    case True
    obtain x m2 s2 where i: "inner p c (m1, s) = (x, (m2, s2))" by (metis prod_cases3)
    from inner_law [OF m1 i] have m2: "limits_sane m2" "agent_used m2 = agent_used m1" by simp_all
    have "m' = close_reservation res m2 \<or> m' = close_reservation res (reset_scratch m2)"
      using assms(3) o i True by (cases x) (simp_all add: memory_generate_def)
    with restore [OF m2] restore [of "reset_scratch m2"] m2 show ?thesis by auto
  qed
qed

end

lemma beside_manager_law: "beside_manager gen p c (m, s) = (r, (m', s')) \<Longrightarrow> m' = m"
  by (simp add: beside_manager_def split: prod.splits)

interpretation mock_backend: memory_backend "beside_manager (mock_generate clock response)" for clock response
  by unfold_locales (auto dest: beside_manager_law)

text \<open>Two wrapped runtimes can share a manager, one inside the other: prompts are bounded by
  the address space.\<close>

definition bounded_prompt :: "prompt \<Rightarrow> generation_config \<Rightarrow> bool" where
  "bounded_prompt p c \<longleftrightarrow> unat (estimate_memory_bytes p c) < 9223372036854775808"

lemma estimate_memory_bytes_eq:
  assumes "(\<Sum>msg \<leftarrow> pr_messages p. length (pm_content msg)) < 9223372002495036416"
  shows "unat (estimate_memory_bytes p c) =
    (\<Sum>msg \<leftarrow> pr_messages p. length (pm_content msg)) + 8 * unat (gc_max_tokens c) + 1024 \<and> bounded_prompt p c"
proof -
  have f: "fold (\<lambda>msg n. n + of_nat (length (pm_content msg))) ms (a :: u64) =
      a + of_nat (\<Sum>msg \<leftarrow> ms. length (pm_content msg))" for ms a
    by (induction ms arbitrary: a) (simp_all add: ac_simps)
  have u: "unat (ucast (gc_max_tokens c) :: u64) = unat (gc_max_tokens c)"
    unfolding unsigned_ucast_eq
    by (intro take_bit_nat_eq_self) (rule less_trans [OF unat_u32_lt], simp)
  have n: "unat (of_nat (\<Sum>msg \<leftarrow> pr_messages p. length (pm_content msg)) :: u64) =
      (\<Sum>msg \<leftarrow> pr_messages p. length (pm_content msg))"
    using assms by (intro unat_u64_of_nat) simp
  have g: "unat (gc_max_tokens c) < 4294967296" by simp
  have "unat (gc_max_tokens c) * 8 < 18446744073709551616" using g by linarith
  then have m8: "unat (ucast (gc_max_tokens c) * 8 :: u64) = unat (gc_max_tokens c) * 8"
    unfolding unat_word_ariths(2) u by simp
  have "unat (estimate_memory_bytes p c) =
      (\<Sum>msg \<leftarrow> pr_messages p. length (pm_content msg)) + 8 * unat (gc_max_tokens c) + 1024"
  proof -
    have "unat (of_nat (\<Sum>msg \<leftarrow> pr_messages p. length (pm_content msg)) :: u64) +
        unat (ucast (gc_max_tokens c) * 8 :: u64) + unat (1024 :: u64) < 18446744073709551616"
    proof -
      have "unat (1024 :: u64) = 1024" by simp
      then show ?thesis unfolding n m8 using assms g by linarith
    qed
    from unat_sum3 [OF this] show ?thesis
      unfolding n m8 by (simp add: estimate_memory_bytes_def f)
  qed
  moreover from this have "bounded_prompt p c"
    unfolding bounded_prompt_def using assms g by linarith
  ultimately show ?thesis by simp
qed

section \<open>Properties\<close>

text \<open>However a call ends, refused, with a result or with an exception, every agent's
  memory use is afterwards what it was before, if the inner runtime gives back what it takes.\<close>

theorem memory_generate_restores:
  assumes "\<And>p c m s r m' s'. limits_sane m \<Longrightarrow> inner p c (m, s) = (r, (m', s')) \<Longrightarrow>
      limits_sane m' \<and> agent_used m' = agent_used m"
    and "limits_sane m" "bounded_prompt p c"
    and "memory_generate inner agent p c (m, s) = (r, (m', s'))"
  shows "agent_used m' = agent_used m"
proof -
  have "memory_backend inner" by unfold_locales (rule assms(1))
  from memory_backend.memory_generate_law [OF this assms(2) _ assms(4)] assms(3) show ?thesis
    by (simp add: bounded_prompt_def)
qed

definition short_prompt :: prompt where
  "short_prompt = add_user ''hi'' empty_prompt"

lemma short_prompt_bounded: "bounded_prompt short_prompt default_generation_config"
  by (rule conjunct2 [OF estimate_memory_bytes_eq])
    (simp add: short_prompt_def add_user_def add_message_def empty_prompt_def)

theorem memory_generate_restores_witness:
  "\<exists>r m' s'. memory_generate (beside_manager (mock_generate (\<lambda>s. (0, s)) ''ok'')) ''a'' short_prompt
       default_generation_config (set_agent_budget ''a'' 100 sample_manager, ()) = (r, (m', s')) \<and>
     agent_used m' = agent_used (set_agent_budget ''a'' 100 sample_manager)"
proof -
  let ?inner = "beside_manager (mock_generate (\<lambda>s. (0, s)) ''ok'')"
  obtain r m' s' where 1: "memory_generate ?inner ''a'' short_prompt default_generation_config
    (set_agent_budget ''a'' 100 sample_manager, ()) = (r, (m', s'))" by (metis prod_cases3)
  have "agent_used m' = agent_used (set_agent_budget ''a'' 100 sample_manager)"
    by (rule memory_generate_restores [OF _ sample_limits_sane short_prompt_bounded 1])
      (rule mock_backend.inner_law)
  with 1 show ?thesis by blast
qed

text \<open>The inner runtime is called exactly if the agent has a budget and its use plus the
  estimate (content bytes, 8 bytes for each requested token and 1024 more) is within the limit.
  Otherwise the caller gets an empty text and an error message with status \<open>Ok\<close>, and neither
  the inner runtime's state nor any agent's use has changed.\<close>

theorem memory_generate_refuses:
  assumes "limits_sane m" "(\<Sum>msg \<leftarrow> pr_messages p. length (pm_content msg)) < 9223372002495036416"
    and "\<not> (\<exists>b. agent_budget agent m = Some b \<and> unat (ab_used_bytes b) +
      ((\<Sum>msg \<leftarrow> pr_messages p. length (pm_content msg)) + 8 * unat (gc_max_tokens c) + 1024) \<le>
        unat (ab_limit_bytes b))"
  shows "\<exists>m'. memory_generate inner agent p c (m, s) =
      (Inr (default_llm_result\<lparr>lr_error_message := ''memory budget exceeded for agent: '' @ agent\<rparr>), (m', s)) \<and>
    agent_used m' = agent_used m"
proof -
  note est = estimate_memory_bytes_eq [OF assms(2), of c]
  obtain ok m1 where r: "reserve_agent_memory agent (estimate_memory_bytes p c) m = (ok, m1)" by fastforce
  have n: "unat (estimate_memory_bytes p c) < 9223372036854775808" using est by (simp add: bounded_prompt_def)
  from reserve_agent_exact [OF assms(1) n r] est assms(3) have "\<not> ok" "agent_used m1 = agent_used m"
    by (auto simp: agent_budget_def)
  with r show ?thesis
    by (intro exI [of _ m1])
      (simp add: memory_generate_def open_reservation_def reservation_ok_def close_reservation_def default_llm_result_def)
qed

theorem memory_generate_refuses_witness:
  "\<exists>m'. memory_generate (beside_manager (mock_generate (\<lambda>s. (0, s)) ''ok'')) ''a'' short_prompt
      default_generation_config (set_agent_budget ''a'' 100 sample_manager, ()) =
    (Inr (default_llm_result\<lparr>lr_error_message := ''memory budget exceeded for agent: a''\<rparr>), (m', ()))"
proof -
  have "agent_budget ''a'' (set_agent_budget ''a'' 100 sample_manager) = Some (new_agent_memory_budget ''a'' 100)"
    by (simp add: agent_budget_def set_agent_budget_def)
  with memory_generate_refuses [OF sample_limits_sane, of short_prompt "''a''" default_generation_config
      "beside_manager (mock_generate (\<lambda>s. (0, s)) ''ok'')" "()"]
  show ?thesis by (auto simp: new_agent_memory_budget_def short_prompt_def add_user_def add_message_def empty_prompt_def)
qed

text \<open>When a granted call returns, the scratch arena is empty and the result is the inner
  runtime's; when it throws, the exception passes through and what was allocated in the scratch
  arena stays allocated.\<close>

theorem memory_generate_scratch:
  assumes "open_reservation agent (estimate_memory_bytes p c) m = (res, m1)" "reservation_ok res"
    and "inner p c (m1, s) = (x, (m2, s2))"
  shows "\<exists>m'. memory_generate inner agent p c (m, s) = (x, (m', s2)) \<and>
    mm_scratch_arena m' = (case x of
      Inl _ \<Rightarrow> mm_scratch_arena m2 | Inr _ \<Rightarrow> (mm_scratch_arena m2)\<lparr>ma_offset := 0\<rparr>)"
proof -
  have "mm_scratch_arena (reset_scratch m2) = (mm_scratch_arena m2)\<lparr>ma_offset := 0\<rparr>"
    by (simp add: reset_scratch_def scratch_reset_def arena_reset_def)
  with assms show ?thesis by (cases x) (simp_all add: memory_generate_def)
qed

theorem memory_generate_scratch_witness:
  "\<exists>m'. memory_generate (\<lambda>p c (m, s). (Inl (Runtime_Error ''x''), (snd (allocate_scratch 16 8 m), s))) ''a''
      short_prompt default_generation_config (set_agent_budget ''a'' 5000 sample_manager, ()) =
      (Inl (Runtime_Error ''x''), (m', ())) \<and>
    ma_offset (mm_scratch_arena m') = 16"
proof -
  let ?m = "set_agent_budget ''a'' 5000 sample_manager"
  let ?inner = "\<lambda>p c (m, s :: unit). (Inl (Runtime_Error ''x'') :: cpp_exception + llm_result, (snd (allocate_scratch 16 8 m), s))"
  obtain res m1 where o: "open_reservation ''a'' (estimate_memory_bytes short_prompt default_generation_config) ?m = (res, m1)"
    by fastforce
  have e: "estimate_memory_bytes short_prompt default_generation_config = 2050"
    by (simp add: estimate_memory_bytes_def short_prompt_def add_user_def add_message_def empty_prompt_def
        default_generation_config_def Let_def)
  have "reservation_ok res" using o unfolding e
    by (auto simp: open_reservation_def reserve_agent_memory_def set_agent_budget_def new_agent_memory_budget_def
        budget_reserve_def budget_can_reserve_def reservation_ok_def)
  from memory_generate_scratch [OF o this, of ?inner "()"] obtain m' where
    m': "memory_generate ?inner ''a'' short_prompt default_generation_config (?m, ()) = (Inl (Runtime_Error ''x''), (m', ()))"
    "mm_scratch_arena m' = mm_scratch_arena (snd (allocate_scratch 16 8 m1))" by auto
  have "mm_scratch_arena m1 = mm_scratch_arena ?m" by (rule open_scratch [OF o])
  then have "ma_offset (mm_scratch_arena m') = 16" unfolding m'(2)
    by (simp add: allocate_scratch_def scratch_allocate_def set_agent_budget_def sample_manager_def
        new_memory_manager_def default_memory_manager_config_def new_memory_arena_def arena_allocate_def
        is_power_of_two_def Let_def case_prod_unfold)
  with m'(1) show ?thesis by blast
qed

end
