(* ===== verification/Scheduler.thy ===== *)
theory Scheduler
  imports Galc_Prelude
begin

text \<open>
  \<open>TokenScheduler\<close> of \<open>scheduler\<close>: it grants completion tokens out of a budget, all in 32-bit
  arithmetic. \<open>schedule_spec\<close> is the decision over the natural numbers; the locale
  \<open>token_ledger\<close> is what a client relies on, that what is granted is taken from the budget.
\<close>

section \<open>Data\<close>

datatype schedule_decision_type = Allow | ReduceTokens | Reject | UseFallback

record schedule_decision =
  sd_type :: schedule_decision_type
  sd_allowed_completion_tokens :: u32
  sd_reason :: string

record token_budget =
  tb_max_prompt_tokens :: u32
  tb_max_completion_tokens :: u32
  tb_remaining_tokens :: u32

record scheduled_llm_task =
  tk_task_id :: string
  tk_estimated_prompt_tokens :: u32
  tk_requested_completion_tokens :: u32
  tk_deadline_ms :: u32
  tk_priority :: u8
  tk_allow_truncation :: bool
  tk_allow_fallback :: bool

definition default_task :: scheduled_llm_task where
  "default_task = \<lparr>tk_task_id = [], tk_estimated_prompt_tokens = 0, tk_requested_completion_tokens = 0,
     tk_deadline_ms = 0, tk_priority = 0, tk_allow_truncation = True, tk_allow_fallback = True\<rparr>"

text \<open>Decisions ordered by what they leave the client.\<close>

primrec decision_rank :: "schedule_decision_type \<Rightarrow> nat" where
  "decision_rank Reject = 0"
| "decision_rank UseFallback = 1"
| "decision_rank ReduceTokens = 2"
| "decision_rank Allow = 3"

lemma decision_rank_inject: "decision_rank a = decision_rank b \<Longrightarrow> a = b"
  by (cases a; cases b) simp_all

instantiation schedule_decision_type :: linorder
begin

definition less_eq_schedule_decision_type :: "schedule_decision_type \<Rightarrow> schedule_decision_type \<Rightarrow> bool" where
  "less_eq_schedule_decision_type a b \<longleftrightarrow> decision_rank a \<le> decision_rank b"

definition less_schedule_decision_type :: "schedule_decision_type \<Rightarrow> schedule_decision_type \<Rightarrow> bool" where
  "less_schedule_decision_type a b \<longleftrightarrow> decision_rank a < decision_rank b"

instance
  by standard
    (auto simp: less_eq_schedule_decision_type_def less_schedule_decision_type_def decision_rank_inject)

end

section \<open>The scheduler\<close>

definition decision :: "schedule_decision_type \<Rightarrow> u32 \<Rightarrow> string \<Rightarrow> schedule_decision" where
  "decision ty tokens reason =
     \<lparr>sd_type = ty, sd_allowed_completion_tokens = tokens, sd_reason = reason\<rparr>"

definition schedule :: "scheduled_llm_task \<Rightarrow> token_budget \<Rightarrow> schedule_decision \<times> token_budget" where
  "schedule task budget =
     (if tk_estimated_prompt_tokens task > tb_max_prompt_tokens budget
      then if tk_allow_fallback task
        then (decision UseFallback 0 ''prompt token estimate exceeds maximum prompt budget'', budget)
        else (decision Reject 0 ''prompt token estimate exceeds maximum prompt budget'', budget)
      else
        let requested_completion = min (tk_requested_completion_tokens task) (tb_max_completion_tokens budget)
        in if tk_requested_completion_tokens task > tb_max_completion_tokens budget \<and>
              \<not> tk_allow_truncation task
           then if tk_allow_fallback task
             then (decision UseFallback 0 ''requested completion exceeds maximum completion budget'', budget)
             else (decision Reject 0 ''requested completion exceeds maximum completion budget'', budget)
           else
             let total_requested = tk_estimated_prompt_tokens task + requested_completion
             in if total_requested \<le> tb_remaining_tokens budget
                then
                  let budget = budget\<lparr>tb_remaining_tokens := tb_remaining_tokens budget - total_requested\<rparr>
                  in if requested_completion < tk_requested_completion_tokens task
                     then (decision ReduceTokens requested_completion
                             ''completion tokens reduced to max completion budget'', budget)
                     else (decision Allow requested_completion ''task allowed'', budget)
                else if tb_remaining_tokens budget \<le> tk_estimated_prompt_tokens task
                then if tk_allow_fallback task
                  then (decision UseFallback 0 ''not enough remaining budget for prompt and completion'', budget)
                  else (decision Reject 0 ''not enough remaining budget for prompt and completion'', budget)
                else
                  let available_completion = tb_remaining_tokens budget - tk_estimated_prompt_tokens task
                  in if tk_allow_truncation task \<and> available_completion > 0
                     then (decision ReduceTokens available_completion
                             ''completion tokens reduced due to remaining token budget'',
                           budget\<lparr>tb_remaining_tokens := 0\<rparr>)
                     else if tk_allow_fallback task
                     then (decision UseFallback 0 ''token budget too low and truncation disabled'', budget)
                     else (decision Reject 0 ''token budget too low and truncation disabled'', budget))"

definition release :: "u32 \<Rightarrow> token_budget \<Rightarrow> token_budget" where
  "release used_tokens budget =
     budget\<lparr>tb_remaining_tokens :=
       min (tb_remaining_tokens budget + used_tokens)
           (tb_max_prompt_tokens budget + tb_max_completion_tokens budget)\<rparr>"

section \<open>What a client relies on\<close>

definition granted :: "schedule_decision \<Rightarrow> bool" where
  "granted d \<longleftrightarrow> sd_type d = Allow \<or> sd_type d = ReduceTokens"

definition decision_cost :: "scheduled_llm_task \<Rightarrow> schedule_decision \<Rightarrow> nat" where
  "decision_cost task d =
     (if granted d then unat (tk_estimated_prompt_tokens task) + unat (sd_allowed_completion_tokens d) else 0)"

locale token_ledger =
  fixes sched :: "scheduled_llm_task \<Rightarrow> 's \<Rightarrow> schedule_decision \<times> 's"
    and remaining :: "'s \<Rightarrow> nat"
    and invar :: "'s \<Rightarrow> bool"
  assumes sched_law: "invar s \<Longrightarrow> sched task s = (d, s') \<Longrightarrow>
    invar s' \<and> remaining s = remaining s' + decision_cost task d \<and>
    sd_allowed_completion_tokens d \<le> tk_requested_completion_tokens task"

fun schedule_all ::
    "(scheduled_llm_task \<Rightarrow> 's \<Rightarrow> schedule_decision \<times> 's) \<Rightarrow> scheduled_llm_task list \<Rightarrow> 's \<Rightarrow>
     schedule_decision list \<times> 's" where
  "schedule_all sched [] s = ([], s)"
| "schedule_all sched (task # tasks) s =
     (case sched task s of (d, s) \<Rightarrow> case schedule_all sched tasks s of (ds, s) \<Rightarrow> (d # ds, s))"

context token_ledger begin

lemma schedule_all_conserves:
  "invar s \<Longrightarrow> schedule_all sched tasks s = (ds, s') \<Longrightarrow>
     invar s' \<and> remaining s = remaining s' + sum_list (map2 decision_cost tasks ds) \<and>
     length ds = length tasks \<and>
     list_all2 (\<lambda>task d. sd_allowed_completion_tokens d \<le> tk_requested_completion_tokens task) tasks ds"
proof (induction tasks arbitrary: s ds s')
  case (Cons task tasks)
  obtain d s1 where 1: "sched task s = (d, s1)" by fastforce
  obtain ds2 s2 where 2: "schedule_all sched tasks s1 = (ds2, s2)" by fastforce
  note law = sched_law [OF Cons.prems(1) 1]
  note r = Cons.IH [OF law [THEN conjunct1] 2]
  have "ds = d # ds2" "s' = s2" using Cons.prems(2) 1 2 by simp_all
  with law r show ?case by simp
qed simp

end

section \<open>The decision over the natural numbers\<close>

text \<open>The tokens granted, or \<open>None\<close>.\<close>

definition schedule_spec ::
    "nat \<Rightarrow> nat \<Rightarrow> nat \<Rightarrow> nat \<Rightarrow> nat \<Rightarrow> bool \<Rightarrow> nat option" where
  "schedule_spec max_prompt max_completion remaining prompt requested trunc =
     (if max_prompt < prompt \<or> max_completion < requested \<and> \<not> trunc then None
      else if prompt + min requested max_completion \<le> remaining then Some (min requested max_completion)
      else if trunc \<and> prompt < remaining then Some (remaining - prompt)
      else None)"

definition spec_of :: "scheduled_llm_task \<Rightarrow> token_budget \<Rightarrow> nat option" where
  "spec_of task b = schedule_spec (unat (tb_max_prompt_tokens b)) (unat (tb_max_completion_tokens b))
     (unat (tb_remaining_tokens b)) (unat (tk_estimated_prompt_tokens task))
     (unat (tk_requested_completion_tokens task)) (tk_allow_truncation task)"

definition budget_sane :: "token_budget \<Rightarrow> bool" where
  "budget_sane b \<longleftrightarrow>
     unat (tb_max_prompt_tokens b) + unat (tb_max_completion_tokens b) < 4294967296"

lemma unat_min: "unat (min a b :: u32) = min (unat a) (unat b)"
  by (simp add: min_def word_le_nat_alt)

definition refused :: "scheduled_llm_task \<Rightarrow> schedule_decision \<Rightarrow> bool" where
  "refused task d \<longleftrightarrow> sd_type d = (if tk_allow_fallback task then UseFallback else Reject) \<and>
     sd_allowed_completion_tokens d = 0"

lemma schedule_cases:
  assumes "budget_sane b" "schedule task b = (d, b')"
  shows "case spec_of task b of
       None \<Rightarrow> b' = b \<and> refused task d
     | Some g \<Rightarrow> g \<le> unat (tk_requested_completion_tokens task) \<and>
         unat (tk_estimated_prompt_tokens task) + g \<le> unat (tb_remaining_tokens b) \<and>
         sd_allowed_completion_tokens d = of_nat g \<and>
         sd_type d = (if g = unat (tk_requested_completion_tokens task) then Allow else ReduceTokens) \<and>
         b' = b\<lparr>tb_remaining_tokens := tb_remaining_tokens b - (tk_estimated_prompt_tokens task + of_nat g)\<rparr>"
proof -
  let ?p = "tk_estimated_prompt_tokens task" and ?r = "tk_requested_completion_tokens task"
  let ?mc = "tb_max_completion_tokens b" and ?rem = "tb_remaining_tokens b"
  consider (prompt) "tb_max_prompt_tokens b < ?p"
    | (completion) "\<not> tb_max_prompt_tokens b < ?p" "?mc < ?r" "\<not> tk_allow_truncation task"
    | (rest) "\<not> tb_max_prompt_tokens b < ?p" "\<not> (?mc < ?r \<and> \<not> tk_allow_truncation task)" by blast
  then show ?thesis
  proof cases
    case prompt
    with assms(2) show ?thesis
      by (auto simp: schedule_def spec_of_def schedule_spec_def refused_def decision_def word_less_nat_alt
          split: if_splits)
  next
    case completion
    with assms(2) show ?thesis
      by (auto simp: schedule_def Let_def spec_of_def schedule_spec_def refused_def decision_def
          word_less_nat_alt split: if_splits)
  next
    case rest
    let ?w = "min ?r ?mc"
    have le: "unat ?p \<le> unat (tb_max_prompt_tokens b)" using rest(1) by (simp add: word_less_nat_alt)
    have w: "unat ?w = min (unat ?r) (unat ?mc)" by (rule unat_min)
    have tot: "unat (?p + ?w) = unat ?p + min (unat ?r) (unat ?mc)"
    proof -
      have "unat ?p + unat ?w < 4294967296" using le assms(1) w unfolding budget_sane_def by linarith
      then have "unat (?p + ?w) = unat ?p + unat ?w" by (simp only: unat_word_ariths(1)) simp
      with w show ?thesis by simp
    qed
    consider (fits) "?p + ?w \<le> ?rem" | (cut) "\<not> ?p + ?w \<le> ?rem" "?p < ?rem" "tk_allow_truncation task"
      | (no) "\<not> ?p + ?w \<le> ?rem" "\<not> (?p < ?rem \<and> tk_allow_truncation task)" by blast
    then show ?thesis
    proof cases
      case fits
      have sp: "spec_of task b = Some (unat ?w)"
        using rest fits le by (auto simp: spec_of_def schedule_spec_def word_le_nat_alt word_less_nat_alt w tot)
      obtain g where g: "g = unat ?w" by blast
      then have gw: "?w = of_nat g" by simp
      have "?w < ?r \<longleftrightarrow> g \<noteq> unat ?r" unfolding g word_less_nat_alt w by linarith
      moreover have "schedule task b = (if ?w < ?r then decision ReduceTokens ?w
            ''completion tokens reduced to max completion budget'' else decision Allow ?w ''task allowed'',
          b\<lparr>tb_remaining_tokens := ?rem - (?p + ?w)\<rparr>)"
        using rest fits unfolding schedule_def Let_def by auto
      moreover have "unat ?p + g \<le> unat ?rem" "g \<le> unat ?r" using fits by (simp_all add: word_le_nat_alt tot w g)
      ultimately show ?thesis using assms(2) unfolding sp [folded g] gw by (auto simp: decision_def)
    next
      case cut
      have g: "unat (?rem - ?p) = unat ?rem - unat ?p" using cut(2) by (simp add: unat_sub_if_size word_less_nat_alt)
      have sp: "spec_of task b = Some (unat (?rem - ?p))"
        using rest cut le by (auto simp: spec_of_def schedule_spec_def word_le_nat_alt word_less_nat_alt g tot)
      have "?rem - ?p > 0" using cut(2) by (simp add: word_less_nat_alt g)
      moreover have "\<not> ?rem \<le> ?p" using cut(2) by simp
      ultimately have "schedule task b = (decision ReduceTokens (?rem - ?p)
          ''completion tokens reduced due to remaining token budget'', b\<lparr>tb_remaining_tokens := 0\<rparr>)"
        using rest cut unfolding schedule_def Let_def by auto
      moreover have "unat (?rem - ?p) < unat ?r" "unat ?p + unat (?rem - ?p) = unat ?rem"
        using cut by (auto simp: word_le_nat_alt word_less_nat_alt tot g)
      ultimately show ?thesis using assms(2) sp by (auto simp: decision_def)
    next
      case no
      have sp: "spec_of task b = None"
        using rest no le by (auto simp: spec_of_def schedule_spec_def word_le_nat_alt word_less_nat_alt tot)
      have "tk_allow_truncation task \<Longrightarrow> ?rem \<le> ?p" using no(2) by auto
      then have "b' = b \<and> refused task d"
        using assms(2) rest no unfolding schedule_def Let_def refused_def
        by (auto simp: decision_def split: if_split_asm)
      with sp show ?thesis by simp
    qed
  qed
qed

text \<open>The budget a task is charged, whatever the decision.\<close>

lemma schedule_law:
  assumes "budget_sane b" "schedule task b = (d, b')"
  shows "budget_sane b' \<and>
    unat (tb_remaining_tokens b) = unat (tb_remaining_tokens b') + decision_cost task d \<and>
    sd_allowed_completion_tokens d \<le> tk_requested_completion_tokens task"
proof (cases "spec_of task b")
  case None
  with schedule_cases [OF assms] assms(1) show ?thesis
    by (auto simp: refused_def decision_cost_def granted_def)
next
  case (Some g)
  with schedule_cases [OF assms]
  have g: "g \<le> unat (tk_requested_completion_tokens task)"
    "unat (tk_estimated_prompt_tokens task) + g \<le> unat (tb_remaining_tokens b)"
    "sd_allowed_completion_tokens d = of_nat g" "granted d"
    "b' = b\<lparr>tb_remaining_tokens := tb_remaining_tokens b - (tk_estimated_prompt_tokens task + of_nat g)\<rparr>"
    by (auto simp: granted_def)
  have u: "unat (of_nat g :: u32) = g" using g(1) by (intro unat_u32_of_nat) (meson le_less_trans unat_u32_lt)
  have "unat (tk_estimated_prompt_tokens task) + g < 4294967296"
    using g(2) by (meson le_less_trans unat_u32_lt)
  then have "unat (tk_estimated_prompt_tokens task + of_nat g) = unat (tk_estimated_prompt_tokens task) + g"
    by (simp add: unat_word_ariths(1) u)
  then have "unat (tb_remaining_tokens b') = unat (tb_remaining_tokens b) - (unat (tk_estimated_prompt_tokens task) + g)"
    using g(2,5) by (simp add: unat_sub_if_size)
  with g u assms(1) show ?thesis by (simp add: budget_sane_def decision_cost_def word_le_nat_alt)
qed

interpretation scheduler: token_ledger schedule "\<lambda>b. unat (tb_remaining_tokens b)" budget_sane
  by unfold_locales (rule schedule_law)

lemma release_exact:
  assumes "budget_sane b" "unat (tb_remaining_tokens b) + unat n < 4294967296"
  shows "unat (tb_remaining_tokens (release n b)) = min (unat (tb_remaining_tokens b) + unat n)
    (unat (tb_max_prompt_tokens b) + unat (tb_max_completion_tokens b))"
  using assms by (simp add: release_def unat_min unat_word_ariths(1) budget_sane_def)

lemma schedule_spec_mono:
  assumes "rem \<le> rem2"
  shows "case schedule_spec mp mc rem p r t of
      None \<Rightarrow> True
    | Some g \<Rightarrow> (\<exists>g2. schedule_spec mp mc rem2 p r t = Some g2 \<and> g \<le> g2 \<and> g2 \<le> r)"
  using assms by (auto simp: schedule_spec_def split: option.split)

section \<open>Properties\<close>

text \<open>C10: While the two maxima together stay below \<open>2 ^ 32\<close>, \<open>schedule\<close> decides as the
  specification over the natural numbers: it refuses (fallback if the task allows it, else
  reject, and the budget untouched) or grants the specified number of completion tokens, as
  \<open>Allow\<close> exactly if that is all that was asked for, and charges prompt plus grant.\<close>

theorem schedule_refines_spec:
  assumes "budget_sane b" "schedule task b = (d, b')"
  shows "case spec_of task b of
       None \<Rightarrow> b' = b \<and> refused task d
     | Some g \<Rightarrow> g \<le> unat (tk_requested_completion_tokens task) \<and>
         unat (tk_estimated_prompt_tokens task) + g \<le> unat (tb_remaining_tokens b) \<and>
         sd_allowed_completion_tokens d = of_nat g \<and>
         sd_type d = (if g = unat (tk_requested_completion_tokens task) then Allow else ReduceTokens) \<and>
         b' = b\<lparr>tb_remaining_tokens := tb_remaining_tokens b - (tk_estimated_prompt_tokens task + of_nat g)\<rparr>"
  by (rule schedule_cases [OF assms])

definition sample_budget :: token_budget where
  "sample_budget = \<lparr>tb_max_prompt_tokens = 100, tb_max_completion_tokens = 50, tb_remaining_tokens = 120\<rparr>"

definition sample_task :: "u32 \<Rightarrow> u32 \<Rightarrow> scheduled_llm_task" where
  "sample_task p r = default_task\<lparr>tk_estimated_prompt_tokens := p, tk_requested_completion_tokens := r\<rparr>"

lemma sample_budget_sane: "budget_sane sample_budget"
  by (simp add: sample_budget_def budget_sane_def)

theorem schedule_refines_spec_witness:
  "\<exists>d b'. schedule (sample_task 90 40) sample_budget = (d, b') \<and> sd_type d = ReduceTokens \<and>
     sd_allowed_completion_tokens d = 30 \<and> tb_remaining_tokens b' = 0"
proof -
  obtain d b' where 1: "schedule (sample_task 90 40) sample_budget = (d, b')" by (metis surj_pair)
  have "spec_of (sample_task 90 40) sample_budget = Some 30"
    by (simp add: spec_of_def schedule_spec_def sample_task_def sample_budget_def default_task_def)
  with schedule_refines_spec [OF sample_budget_sane 1] 1 show ?thesis
    by (simp add: sample_task_def sample_budget_def)
qed

text \<open>The scheduler never overcommits: over any sequence of tasks, what it grants in prompt
  and completion tokens and what remains add up to exactly what there was, and no task is granted
  more completion tokens than it asked for.\<close>

theorem schedule_never_overcommits:
  assumes "budget_sane b" "schedule_all schedule tasks b = (ds, b')"
  shows "unat (tb_remaining_tokens b) =
      unat (tb_remaining_tokens b') + sum_list (map2 decision_cost tasks ds) \<and>
    length ds = length tasks \<and>
    list_all2 (\<lambda>task d. sd_allowed_completion_tokens d \<le> tk_requested_completion_tokens task) tasks ds"
  using scheduler.schedule_all_conserves [OF assms] by blast

theorem schedule_never_overcommits_witness:
  "\<exists>ds b'. schedule_all schedule [sample_task 40 50, sample_task 200 1, sample_task 20 50] sample_budget = (ds, b') \<and>
     120 = unat (tb_remaining_tokens b') +
       sum_list (map2 decision_cost [sample_task 40 50, sample_task 200 1, sample_task 20 50] ds)"
proof -
  obtain ds b' where 1: "schedule_all schedule [sample_task 40 50, sample_task 200 1, sample_task 20 50]
    sample_budget = (ds, b')" by (metis surj_pair)
  from schedule_never_overcommits [OF sample_budget_sane 1]
  have "120 = unat (tb_remaining_tokens b') +
      sum_list (map2 decision_cost [sample_task 40 50, sample_task 200 1, sample_task 20 50] ds)"
    by (simp add: sample_budget_def)
  with 1 show ?thesis by blast
qed

text \<open>More budget never hurts: with the same limits and more tokens remaining, the same task
  gets a decision at least as good (reject, fallback, reduced, allowed, in this order) and at
  least as many completion tokens.\<close>

theorem schedule_monotone:
  assumes "budget_sane b" "tb_remaining_tokens b \<le> n"
    and "schedule task b = (d, b1)" "schedule task (b\<lparr>tb_remaining_tokens := n\<rparr>) = (d2, b2)"
  shows "sd_type d \<le> sd_type d2 \<and> sd_allowed_completion_tokens d \<le> sd_allowed_completion_tokens d2"
proof -
  let ?b = "b\<lparr>tb_remaining_tokens := n\<rparr>" and ?r = "unat (tk_requested_completion_tokens task)"
  have "budget_sane ?b" using assms(1) by (simp add: budget_sane_def)
  note c1 = schedule_cases [OF assms(1,3)] and c2 = schedule_cases [OF this assms(4)]
  have le: "unat (tb_remaining_tokens b) \<le> unat n" using assms(2) by (simp add: word_le_nat_alt)
  show ?thesis
  proof (cases "spec_of task b")
    case None
    with c1 c2 show ?thesis
      by (cases "spec_of task ?b") (auto simp: refused_def less_eq_schedule_decision_type_def)
  next
    case (Some g)
    with schedule_spec_mono [OF le, of "unat (tb_max_prompt_tokens b)" "unat (tb_max_completion_tokens b)"
        "unat (tk_estimated_prompt_tokens task)" ?r "tk_allow_truncation task"]
    obtain g2 where g2: "spec_of task ?b = Some g2" "g \<le> g2" "g2 \<le> ?r" by (auto simp: spec_of_def)
    have "g2 < 4294967296" using g2(3) by (meson le_less_trans unat_u32_lt)
    then have "(of_nat g :: u32) \<le> of_nat g2" using g2(2) by (simp add: word_le_nat_alt unat_u32_of_nat)
    with c1 c2 Some g2 show ?thesis by (auto simp: less_eq_schedule_decision_type_def)
  qed
qed

theorem schedule_monotone_witness:
  "sd_type (fst (schedule (sample_task 90 40) sample_budget)) \<le>
   sd_type (fst (schedule (sample_task 90 40) (sample_budget\<lparr>tb_remaining_tokens := 500\<rparr>)))"
  using schedule_monotone [OF sample_budget_sane, of 500, OF _ surjective_pairing surjective_pairing]
  by (simp add: sample_budget_def)

text \<open>If the maxima allow it, the sum of prompt and completion tokens wraps: a task whose
  estimate and request add up to \<open>2 ^ 32\<close> is allowed in full with any budget, even an empty one,
  and costs nothing.\<close>

theorem schedule_wraps:
  assumes "tk_estimated_prompt_tokens task \<le> tb_max_prompt_tokens b"
    and "tk_requested_completion_tokens task \<le> tb_max_completion_tokens b"
    and "tk_estimated_prompt_tokens task + tk_requested_completion_tokens task = 0"
  shows "schedule task b = (decision Allow (tk_requested_completion_tokens task) ''task allowed'', b)"
  using assms by (simp add: schedule_def Let_def min_absorb1 leD)

theorem schedule_wraps_witness:
  "schedule (sample_task 0xFFFFFFFF 1)
     \<lparr>tb_max_prompt_tokens = 0xFFFFFFFF, tb_max_completion_tokens = 10, tb_remaining_tokens = 0\<rparr> =
   (decision Allow 1 ''task allowed'',
    \<lparr>tb_max_prompt_tokens = 0xFFFFFFFF, tb_max_completion_tokens = 10, tb_remaining_tokens = 0\<rparr>)"
  using schedule_wraps [of "sample_task 0xFFFFFFFF 1"
      "\<lparr>tb_max_prompt_tokens = 0xFFFFFFFF, tb_max_completion_tokens = 10, tb_remaining_tokens = 0\<rparr>"]
  by (simp add: sample_task_def)

text \<open>The deadline and the priority of a task have no influence on its decision or on the budget.\<close>

theorem schedule_ignores_priority:
  "schedule (task\<lparr>tk_deadline_ms := d, tk_priority := p\<rparr>) b = schedule task b"
  by (simp add: schedule_def Let_def cong: if_cong)

end
