(* ===== verification/LLM_Scheduled.thy ===== *)
theory LLM_Scheduled
  imports LLM_Core Scheduler
begin

text \<open>
  \<open>ScheduledLLMRuntime\<close> of \<open>llm_scheduled\<close>: an \<open>LLMRuntime\<close> around another one that asks the
  token scheduler first. Its state is the scheduler's budget beside the state of the inner
  runtime, whose \<open>generate\<close> is a parameter.
\<close>

section \<open>Definitions\<close>

definition estimate_prompt_tokens :: "prompt \<Rightarrow> u32" where
  "estimate_prompt_tokens p =
     (let chars = fold (\<lambda>msg chars. chars + of_nat (length (pm_content msg))) (pr_messages p) 0
      in max 1 (chars div 4))"

definition scheduled_fallback_text :: string where
  "scheduled_fallback_text =
     ''tool=send_alert'' @ [newline] @
     ''reason=LLM request used fallback because token budget was unavailable'' @ [newline] @
     ''confidence=0.50'' @ [newline]"

definition scheduled_task :: "prompt \<Rightarrow> generation_config \<Rightarrow> scheduled_llm_task" where
  "scheduled_task p config = default_task\<lparr>
     tk_task_id := ''scheduled_llm_task'',
     tk_estimated_prompt_tokens := estimate_prompt_tokens p,
     tk_requested_completion_tokens := gc_max_tokens config,
     tk_deadline_ms := gc_timeout_ms config,
     tk_priority := 0,
     tk_allow_truncation := True,
     tk_allow_fallback := True\<rparr>"

text \<open>The inner runtime may use the same scheduler, so that it works on the budget as well.\<close>

definition shared_scheduled_generate ::
    "(token_budget \<times> 's) llm_generate \<Rightarrow> (token_budget \<times> 's) llm_generate" where
  "shared_scheduled_generate inner p config st =
     (case st of (budget, s) \<Rightarrow>
      case schedule (scheduled_task p config) budget of (dec, budget) \<Rightarrow>
        if sd_type dec = Reject
        then (Inr (default_llm_result\<lparr>lr_text := [], lr_error_message := sd_reason dec\<rparr>), (budget, s))
        else if sd_type dec = UseFallback
        then (Inr (default_llm_result\<lparr>lr_text := scheduled_fallback_text, lr_error_message := []\<rparr>), (budget, s))
        else
          let adjusted_config =
                (if sd_type dec = ReduceTokens
                 then config\<lparr>gc_max_tokens := sd_allowed_completion_tokens dec\<rparr> else config)
          in case inner p adjusted_config (budget, s) of
               (Inl e, (budget, s)) \<Rightarrow> (Inl e, (budget, s))
             | (Inr result, (budget, s)) \<Rightarrow>
                 let used_tokens =
                       (if lr_prompt_tokens result > 0 \<or> lr_completion_tokens result > 0
                        then lr_prompt_tokens result + lr_completion_tokens result else 0)
                 in (Inr result, (release used_tokens budget, s)))"

text \<open>A runtime that does not use the scheduler, and the wrapper around such a runtime.\<close>

definition beside_budget :: "'s llm_generate \<Rightarrow> (token_budget \<times> 's) llm_generate" where
  "beside_budget gen p config st = (case gen p config (snd st) of (r, s) \<Rightarrow> (r, (fst st, s)))"

definition scheduled_generate :: "'s llm_generate \<Rightarrow> (token_budget \<times> 's) llm_generate" where
  "scheduled_generate inner = shared_scheduled_generate (beside_budget inner)"

definition scheduled_name :: "string \<Rightarrow> string" where
  "scheduled_name inner_name = ''ScheduledLLMRuntime('' @ inner_name @ '')''"

section \<open>Lemmas\<close>

lemma estimate_positive: "0 < unat (estimate_prompt_tokens p)"
proof -
  have "1 \<le> estimate_prompt_tokens p" by (simp add: estimate_prompt_tokens_def Let_def)
  then show ?thesis by (simp add: word_le_nat_alt)
qed

lemma used_tokens_sum:
  "(if a > 0 \<or> b > 0 then a + b else (0 :: u32)) = a + b"
  by (auto simp: word_gt_0)

lemma shared_scheduled_none:
  assumes "budget_sane b" "spec_of (scheduled_task p c) b = None"
  shows "shared_scheduled_generate inner p c (b, s) =
    (Inr (default_llm_result\<lparr>lr_text := scheduled_fallback_text\<rparr>), (b, s))"
proof -
  obtain d b' where d: "schedule (scheduled_task p c) b = (d, b')" by fastforce
  from schedule_cases [OF assms(1) d] assms(2) have "b' = b" "sd_type d = UseFallback"
    by (simp_all add: refused_def scheduled_task_def)
  with d show ?thesis by (simp add: shared_scheduled_generate_def default_llm_result_def)
qed

text \<open>The budget after the scheduler has granted \<open>g\<close> tokens.\<close>

definition charged :: "prompt \<Rightarrow> nat \<Rightarrow> token_budget \<Rightarrow> token_budget" where
  "charged p g b = b\<lparr>tb_remaining_tokens := tb_remaining_tokens b - (estimate_prompt_tokens p + of_nat g)\<rparr>"

lemma charged_sane [simp]: "budget_sane (charged p g b) = budget_sane b"
  by (simp add: charged_def budget_sane_def)

lemma release_sane [simp]: "budget_sane (release n b) = budget_sane b"
  by (simp add: release_def budget_sane_def)

lemma shared_scheduled_some:
  assumes "budget_sane b" "spec_of (scheduled_task p c) b = Some g"
  shows "shared_scheduled_generate inner p c (b, s) =
    (case inner p (c\<lparr>gc_max_tokens := of_nat g\<rparr>) (charged p g b, s) of
       (Inl e, st) \<Rightarrow> (Inl e, st)
     | (Inr r, (b', s')) \<Rightarrow> (Inr r, (release (lr_prompt_tokens r + lr_completion_tokens r) b', s')))"
    and "g \<le> unat (gc_max_tokens c)" "unat (estimate_prompt_tokens p) + g \<le> unat (tb_remaining_tokens b)"
proof -
  obtain d b' where d: "schedule (scheduled_task p c) b = (d, b')" by fastforce
  have t: "tk_estimated_prompt_tokens (scheduled_task p c) = estimate_prompt_tokens p"
    "tk_requested_completion_tokens (scheduled_task p c) = gc_max_tokens c"
    by (simp_all add: scheduled_task_def)
  from schedule_cases [OF assms(1) d] assms(2)
  have g: "g \<le> unat (gc_max_tokens c)"
    "unat (estimate_prompt_tokens p) + g \<le> unat (tb_remaining_tokens b)"
    "sd_allowed_completion_tokens d = of_nat g"
    "sd_type d = (if g = unat (gc_max_tokens c) then Allow else ReduceTokens)"
    "b' = charged p g b"
    by (simp_all add: t charged_def)
  have "(if sd_type d = ReduceTokens then c\<lparr>gc_max_tokens := sd_allowed_completion_tokens d\<rparr> else c) =
      c\<lparr>gc_max_tokens := of_nat g\<rparr>"
    using g(3,4) by (auto split: if_splits)
  moreover have "sd_type d \<noteq> Reject" "sd_type d \<noteq> UseFallback" using g(4) by (auto split: if_splits)
  ultimately show "shared_scheduled_generate inner p c (b, s) =
    (case inner p (c\<lparr>gc_max_tokens := of_nat g\<rparr>) (charged p g b, s) of
       (Inl e, st) \<Rightarrow> (Inl e, st)
     | (Inr r, (b', s')) \<Rightarrow> (Inr r, (release (lr_prompt_tokens r + lr_completion_tokens r) b', s')))"
    using d by (simp add: shared_scheduled_generate_def Let_def used_tokens_sum g(5) split: prod.split sum.split)
  show "g \<le> unat (gc_max_tokens c)" "unat (estimate_prompt_tokens p) + g \<le> unat (tb_remaining_tokens b)"
    by (rule g)+
qed

lemma scheduled_generate_none:
  "budget_sane b \<Longrightarrow> spec_of (scheduled_task p c) b = None \<Longrightarrow>
    scheduled_generate inner p c (b, s) = (Inr (default_llm_result\<lparr>lr_text := scheduled_fallback_text\<rparr>), (b, s))"
  by (simp add: scheduled_generate_def shared_scheduled_none)

lemma scheduled_generate_some:
  assumes "budget_sane b" "spec_of (scheduled_task p c) b = Some g"
  shows "scheduled_generate inner p c (b, s) =
    (let charged = b\<lparr>tb_remaining_tokens := tb_remaining_tokens b - (estimate_prompt_tokens p + of_nat g)\<rparr>
     in case inner p (c\<lparr>gc_max_tokens := of_nat g\<rparr>) s of
          (Inl e, s') \<Rightarrow> (Inl e, (charged, s'))
        | (Inr r, s') \<Rightarrow>
            (Inr r, (release (lr_prompt_tokens r + lr_completion_tokens r) charged, s'))) \<and>
    g \<le> unat (gc_max_tokens c) \<and> unat (estimate_prompt_tokens p) + g \<le> unat (tb_remaining_tokens b)"
  unfolding scheduled_generate_def shared_scheduled_some(1) [OF assms]
  using shared_scheduled_some(2,3) [OF assms]
  by (simp add: beside_budget_def charged_def Let_def split: prod.split sum.split)

text \<open>A backend that fails: it throws, or returns a result that reports no tokens.\<close>

definition failing :: "'s llm_generate \<Rightarrow> bool" where
  "failing inner \<longleftrightarrow> (\<forall>p c s. case fst (inner p c s) of
     Inl _ \<Rightarrow> True | Inr r \<Rightarrow> lr_prompt_tokens r = 0 \<and> lr_completion_tokens r = 0)"

fun generate_times :: "'s llm_generate \<Rightarrow> nat \<Rightarrow> prompt \<Rightarrow> generation_config \<Rightarrow> 's \<Rightarrow> 's" where
  "generate_times gen 0 p c st = st"
| "generate_times gen (Suc n) p c st = generate_times gen n p c (snd (gen p c st))"

lemma release_nothing:
  "budget_sane b \<Longrightarrow> unat (tb_remaining_tokens (release 0 b)) \<le> unat (tb_remaining_tokens b) \<and>
     budget_sane (release 0 b)"
  by (simp add: release_def unat_min budget_sane_def)

lemma failing_call:
  assumes "budget_sane b" "failing inner" "spec_of (scheduled_task p c) b = Some g"
  shows "\<exists>b' s'. snd (scheduled_generate inner p c (b, s)) = (b', s') \<and> budget_sane b' \<and>
    unat (tb_remaining_tokens b') < unat (tb_remaining_tokens b)"
proof -
  let ?b = "b\<lparr>tb_remaining_tokens := tb_remaining_tokens b - (estimate_prompt_tokens p + of_nat g)\<rparr>"
  note e = scheduled_generate_some [OF assms(1,3), of inner s]
  have g: "unat (of_nat g :: u32) = g" using e by (intro unat_u32_of_nat) (meson le_less_trans unat_u32_lt)
  have "unat (estimate_prompt_tokens p) + g < 4294967296" using e by (meson le_less_trans unat_u32_lt)
  then have u: "unat (estimate_prompt_tokens p + of_nat g) = unat (estimate_prompt_tokens p) + g"
    by (simp add: unat_word_ariths(1) g)
  have lt: "unat (tb_remaining_tokens ?b) < unat (tb_remaining_tokens b)"
    using e estimate_positive [of p] by (simp add: unat_sub_if_size u)
  have sane: "budget_sane ?b" using assms(1) by (simp add: budget_sane_def)
  obtain res s' where i: "inner p (c\<lparr>gc_max_tokens := of_nat g\<rparr>) s = (res, s')" by fastforce
  show ?thesis
  proof (cases res)
    case (Inl x)
    with e i lt sane show ?thesis by simp
  next
    case (Inr r)
    have "case fst (inner p (c\<lparr>gc_max_tokens := of_nat g\<rparr>) s) of
        Inl _ \<Rightarrow> True | Inr r \<Rightarrow> lr_prompt_tokens r = 0 \<and> lr_completion_tokens r = 0"
      using assms(2) unfolding failing_def by blast
    then have "lr_prompt_tokens r = 0" "lr_completion_tokens r = 0" using i Inr by simp_all
    then have "snd (scheduled_generate inner p c (b, s)) = (release 0 ?b, s')"
      using e i Inr by (simp add: Let_def)
    moreover have "unat (tb_remaining_tokens (release 0 ?b)) < unat (tb_remaining_tokens b)"
      using release_nothing [OF sane] lt by linarith
    ultimately show ?thesis using release_nothing [OF sane] by blast
  qed
qed

section \<open>Properties\<close>

text \<open>C30: \<open>ScheduledLLMRuntime::generate\<close> either refuses, with the fallback text, status \<open>Ok\<close>,
  the budget untouched and the inner runtime not called (it never rejects), or it calls the
  inner runtime once, with the caller's configuration capped at what the scheduler granted. A
  result is passed on as it is and \<open>release\<close> adds the tokens it reports; an exception leaves the
  charge in place.\<close>

theorem scheduled_generate_refines:
  assumes "budget_sane b"
  shows "scheduled_generate inner p c (b, s) =
    (case spec_of (scheduled_task p c) b of
       None \<Rightarrow> (Inr (default_llm_result\<lparr>lr_text := scheduled_fallback_text\<rparr>), (b, s))
     | Some g \<Rightarrow>
         let charged = b\<lparr>tb_remaining_tokens := tb_remaining_tokens b - (estimate_prompt_tokens p + of_nat g)\<rparr>
         in case inner p (c\<lparr>gc_max_tokens := of_nat g\<rparr>) s of
              (Inl e, s') \<Rightarrow> (Inl e, (charged, s'))
            | (Inr r, s') \<Rightarrow>
                (Inr r, (release (lr_prompt_tokens r + lr_completion_tokens r) charged, s')))"
  using scheduled_generate_none [OF assms, of p c inner s] scheduled_generate_some [OF assms, of p c _ inner s]
  by (cases "spec_of (scheduled_task p c) b") simp_all

definition hello_prompt :: prompt where
  "hello_prompt = add_user ''hello there, agent'' empty_prompt"

definition sample_mock :: "unit llm_generate" where
  "sample_mock = mock_generate (\<lambda>s. (0, s)) ''one two three''"

theorem scheduled_generate_refines_witness:
  "fst (scheduled_generate sample_mock hello_prompt default_generation_config (sample_budget, ())) =
     Inr (default_llm_result\<lparr>lr_text := scheduled_fallback_text\<rparr>) \<longleftrightarrow>
   spec_of (scheduled_task hello_prompt default_generation_config) sample_budget = None"
  using scheduled_generate_refines [OF sample_budget_sane, of sample_mock hello_prompt default_generation_config "()"]
  by (simp add: spec_of_def schedule_spec_def scheduled_task_def default_generation_config_def sample_budget_def
      default_task_def sample_mock_def mock_generate_def hello_prompt_def add_user_def add_message_def empty_prompt_def
      default_llm_result_def scheduled_fallback_text_def estimate_prompt_tokens_def Let_def)

text \<open>C35: If the two maxima of the budget are together below \<open>2 ^ 32\<close>, and what remains plus what
  the inner runtime reports as used is too, so that no sum wraps: after a granted call that
  returns a result the budget holds what it held, minus the estimated prompt and the
  granted completion, plus what the inner runtime reports as used, up to the two maxima: unused
  reservation is lost and use beyond the reservation is credited.\<close>

theorem scheduled_generate_accounting:
  assumes "budget_sane b" "spec_of (scheduled_task p c) b = Some g"
    and "inner p (c\<lparr>gc_max_tokens := of_nat g\<rparr>) s = (Inr r, s')"
    and "unat (tb_remaining_tokens b) + unat (lr_prompt_tokens r) + unat (lr_completion_tokens r) < 4294967296"
    and "snd (scheduled_generate inner p c (b, s)) = (b', s2)"
  shows "unat (tb_remaining_tokens b') =
    min (unat (tb_remaining_tokens b) - (unat (estimate_prompt_tokens p) + g) +
           (unat (lr_prompt_tokens r) + unat (lr_completion_tokens r)))
        (unat (tb_max_prompt_tokens b) + unat (tb_max_completion_tokens b))"
proof -
  let ?b = "b\<lparr>tb_remaining_tokens := tb_remaining_tokens b - (estimate_prompt_tokens p + of_nat g)\<rparr>"
  note e = scheduled_generate_some [OF assms(1,2), of inner s]
  have g: "unat (of_nat g :: u32) = g" using e by (intro unat_u32_of_nat) (meson le_less_trans unat_u32_lt)
  have "unat (estimate_prompt_tokens p) + g < 4294967296" using e by (meson le_less_trans unat_u32_lt)
  then have "unat (estimate_prompt_tokens p + of_nat g) = unat (estimate_prompt_tokens p) + g"
    by (simp add: unat_word_ariths(1) g)
  then have rem: "unat (tb_remaining_tokens ?b) = unat (tb_remaining_tokens b) - (unat (estimate_prompt_tokens p) + g)"
    using e by (simp add: unat_sub_if_size)
  have used: "unat (lr_prompt_tokens r + lr_completion_tokens r) = unat (lr_prompt_tokens r) + unat (lr_completion_tokens r)"
    using assms(4) by (simp add: unat_word_ariths(1))
  have b': "b' = release (lr_prompt_tokens r + lr_completion_tokens r) ?b"
    using e assms(3,5) by (simp add: Let_def)
  have sane: "budget_sane ?b" using assms(1) by (simp add: budget_sane_def)
  have "unat (tb_remaining_tokens ?b) + unat (lr_prompt_tokens r + lr_completion_tokens r) < 4294967296"
    using assms(4) unfolding rem used by linarith
  from release_exact [OF sane this] show ?thesis unfolding b' rem used by simp
qed

theorem scheduled_generate_accounting_witness:
  "\<exists>b' s2. snd (scheduled_generate sample_mock hello_prompt (default_generation_config\<lparr>gc_max_tokens := 50\<rparr>)
      (sample_budget, ())) = (b', s2) \<and> unat (tb_remaining_tokens b') = 120 - (4 + 50) + (4 + 3)"
proof -
  let ?c = "default_generation_config\<lparr>gc_max_tokens := 50\<rparr>"
  obtain b' s2 where 1: "snd (scheduled_generate sample_mock hello_prompt ?c (sample_budget, ())) = (b', s2)"
    by (metis surj_pair)
  have est: "estimate_prompt_tokens hello_prompt = 4"
    by (simp add: estimate_prompt_tokens_def hello_prompt_def add_user_def add_message_def empty_prompt_def Let_def)
  have sp: "spec_of (scheduled_task hello_prompt ?c) sample_budget = Some 50"
    by (simp add: spec_of_def schedule_spec_def scheduled_task_def sample_budget_def default_task_def est)
  let ?r = "default_llm_result\<lparr>lr_text := ''one two three'', lr_prompt_tokens := 4, lr_completion_tokens := 3\<rparr>"
  have "sample_mock hello_prompt (?c\<lparr>gc_max_tokens := of_nat 50\<rparr>) () = (Inr ?r, ())"
    by (simp add: sample_mock_def mock_generate_def hello_prompt_def add_user_def add_message_def empty_prompt_def
        Let_def default_llm_result_def count_words_def count_words_loop.simps next_word_def is_space_def
        prompt_to_string_def role_to_string_def newline_def)
  from scheduled_generate_accounting [OF sample_budget_sane sp this _ 1] est 1 show ?thesis
    by (simp add: sample_budget_def default_llm_result_def)
qed

text \<open>C36: A failing backend exhausts a budget whose two maxima are together below \<open>2 ^ 32\<close>: it throws or reports no tokens, so nothing of
  what its calls were charged comes back, and after at most as many calls as tokens remained
  every further call of that prompt is refused without reaching the backend.\<close>

theorem failing_backend_exhausts_budget:
  assumes "failing inner" "budget_sane b" "unat (tb_remaining_tokens b) \<le> n"
    and "generate_times (scheduled_generate inner) n p c (b, s) = (b', s')"
  shows "scheduled_generate inner p c (b', s') =
    (Inr (default_llm_result\<lparr>lr_text := scheduled_fallback_text\<rparr>), (b', s'))"
  using assms(2-4)
proof (induction n arbitrary: b s)
  case 0
  then have "spec_of (scheduled_task p c) b = None"
    using estimate_positive [of p] by (simp add: spec_of_def schedule_spec_def scheduled_task_def)
  moreover have "b' = b" using 0(3) by simp
  ultimately show ?case using 0(1) scheduled_generate_none by simp
next
  case (Suc n)
  show ?case
  proof (cases "spec_of (scheduled_task p c) b")
    case None
    note e = scheduled_generate_none [OF Suc.prems(1) None, of inner s]
    have "generate_times (scheduled_generate inner) m p c (b, s) = (b, s)" for m
      by (induction m) (simp_all add: e)
    from this [of "Suc n"] Suc.prems(3) have "(b', s') = (b, s)" by metis
    with e show ?thesis by simp
  next
    case (Some g)
    from failing_call [OF Suc.prems(1) assms(1) Some] obtain b1 s1 where
      "snd (scheduled_generate inner p c (b, s)) = (b1, s1)" "budget_sane b1"
      "unat (tb_remaining_tokens b1) < unat (tb_remaining_tokens b)" by blast
    with Suc.IH [of b1 s1] Suc.prems show ?thesis by simp
  qed
qed

theorem failing_backend_exhausts_budget_witness:
  "\<exists>b' s'. generate_times (scheduled_generate (\<lambda>p c s. (Inl (Runtime_Error ''down''), s))) 200
       hello_prompt default_generation_config (sample_budget, ()) = (b', s') \<and>
     fst (scheduled_generate (\<lambda>p c s. (Inl (Runtime_Error ''down''), s)) hello_prompt
       default_generation_config (b', s')) = Inr (default_llm_result\<lparr>lr_text := scheduled_fallback_text\<rparr>)"
proof -
  let ?down = "\<lambda>p c s. (Inl (Runtime_Error ''down''), s)"
  obtain b' s' where 1: "generate_times (scheduled_generate ?down) 200 hello_prompt default_generation_config
    (sample_budget, ()) = (b', s')" by (metis surj_pair)
  have "failing ?down" by (simp add: failing_def)
  from failing_backend_exhausts_budget [OF this sample_budget_sane _ 1] 1 show ?thesis
    by (simp add: sample_budget_def)
qed

end
