(* ===== verification/Tools.thy ===== *)
theory Tools
  imports LLM_Core "HOL-Library.Sublist"
begin

text \<open>
  \<open>tools\<close>: the safety policy, the registry and the parser of tool calls. A handler is a
  \<open>std::function\<close>, empty (\<open>None\<close>) or a function that works on a state and may throw. The
  type \<open>'d\<close> of \<open>double\<close>s and the conversion \<open>std::stod\<close> are parameters: the code only stores
  the value, and lets the exceptions of \<open>stod\<close> through.
\<close>

section \<open>Tool calls\<close>

record 'd tool_call =
  tc_name :: string
  tc_reason :: string
  tc_confidence :: 'd

record tool_result =
  tr_success :: bool
  tr_message :: string

section \<open>Safety policy\<close>

record safety_policy =
  sp_allowed_tools :: "string set"
  sp_blocked_tools :: "string set"

definition new_safety_policy :: safety_policy where
  "new_safety_policy = \<lparr>sp_allowed_tools = {}, sp_blocked_tools = {}\<rparr>"

definition allow_tool :: "string \<Rightarrow> safety_policy \<Rightarrow> safety_policy" where
  "allow_tool name p = p\<lparr>sp_allowed_tools := insert name (sp_allowed_tools p)\<rparr>"

definition block_tool :: "string \<Rightarrow> safety_policy \<Rightarrow> safety_policy" where
  "block_tool name p = p\<lparr>sp_blocked_tools := insert name (sp_blocked_tools p)\<rparr>"

definition is_allowed :: "'d tool_call \<Rightarrow> safety_policy \<Rightarrow> bool" where
  "is_allowed call p \<longleftrightarrow>
     (if tc_name call \<in> sp_blocked_tools p then False
      else if sp_allowed_tools p = {} then True
      else tc_name call \<in> sp_allowed_tools p)"

section \<open>Registry\<close>

type_synonym ('d, 's) tool_handler =
  "('d tool_call \<Rightarrow> 's \<Rightarrow> (cpp_exception + tool_result) \<times> 's) option"

record ('d, 's) tool_registry =
  tg_tools :: "string \<rightharpoonup> ('d, 's) tool_handler"

definition new_tool_registry :: "('d, 's) tool_registry" where
  "new_tool_registry = \<lparr>tg_tools = Map.empty\<rparr>"

definition register_tool :: "string \<Rightarrow> ('d, 's) tool_handler \<Rightarrow> ('d, 's) tool_registry \<Rightarrow> ('d, 's) tool_registry" where
  "register_tool name handler g = g\<lparr>tg_tools := (tg_tools g)(name \<mapsto> handler)\<rparr>"

definition has_tool :: "string \<Rightarrow> ('d, 's) tool_registry \<Rightarrow> bool" where
  "has_tool name g \<longleftrightarrow> tg_tools g name \<noteq> None"

definition tool_execute ::
    "('d, 's) tool_registry \<Rightarrow> 'd tool_call \<Rightarrow> safety_policy \<Rightarrow> 's \<Rightarrow> (cpp_exception + tool_result) \<times> 's" where
  "tool_execute g call safety s =
     (if \<not> has_tool (tc_name call) g
      then (Inr \<lparr>tr_success = False, tr_message = ''Tool not registered: '' @ tc_name call\<rparr>, s)
      else if \<not> is_allowed call safety
      then (Inr \<lparr>tr_success = False, tr_message = ''Tool blocked by safety policy: '' @ tc_name call\<rparr>, s)
      else case tg_tools g (tc_name call) of
          None \<Rightarrow> (Inl (Out_Of_Range ''unordered_map::at''), s)
        | Some None \<Rightarrow> (Inl Bad_Function_Call, s)
        | Some (Some handler) \<Rightarrow> handler call s)"

section \<open>Parser\<close>

text \<open>\<open>std::getline\<close>: the line without its newline and the rest, or failure at the end.\<close>

definition getline :: "string \<Rightarrow> (string \<times> string) option" where
  "getline s =
     (if s = [] then None
      else Some (takeWhile (\<lambda>c. c \<noteq> newline) s, drop 1 (dropWhile (\<lambda>c. c \<noteq> newline) s)))"

definition starts_with :: "string \<Rightarrow> string \<Rightarrow> bool" where
  "starts_with pre s \<longleftrightarrow> take (length pre) s = pre"

definition value_after_equals :: "string \<Rightarrow> string" where
  "value_after_equals line =
     (if CHR ''='' \<notin> set line then [] else drop 1 (dropWhile (\<lambda>c. c \<noteq> CHR ''='') line))"

definition parse_line ::
    "(string \<Rightarrow> cpp_exception + 'd) \<Rightarrow> string \<Rightarrow> 'd tool_call \<Rightarrow> cpp_exception + 'd tool_call" where
  "parse_line stod line call =
     (if starts_with ''tool='' line then Inr (call\<lparr>tc_name := value_after_equals line\<rparr>)
      else if starts_with ''reason='' line then Inr (call\<lparr>tc_reason := value_after_equals line\<rparr>)
      else if starts_with ''confidence='' line
      then case stod (value_after_equals line) of
          Inl e \<Rightarrow> Inl e
        | Inr d \<Rightarrow> Inr (call\<lparr>tc_confidence := d\<rparr>)
      else Inr call)"

function parse_loop ::
    "(string \<Rightarrow> cpp_exception + 'd) \<Rightarrow> string \<Rightarrow> 'd tool_call \<Rightarrow> cpp_exception + 'd tool_call" where
  "parse_loop stod input call =
     (case getline input of
        None \<Rightarrow> Inr call
      | Some (line, input) \<Rightarrow>
          case parse_line stod line call of
            Inl e \<Rightarrow> Inl e
          | Inr call \<Rightarrow> parse_loop stod input call)"
  by pat_completeness auto
termination
proof (relation "measure (\<lambda>(_, input, _). length input)")
  fix input :: string and x line rest
  assume "getline input = Some x" "(line, rest) = x"
  then have "input \<noteq> []" "rest = drop 1 (dropWhile (\<lambda>c. c \<noteq> newline) input)"
    by (auto simp: getline_def split: if_splits)
  moreover have "length (dropWhile (\<lambda>c. c \<noteq> newline) input) \<le> length input" by (rule length_dropWhile_le)
  ultimately show "((a, rest, b), (a, input, c)) \<in> measure (\<lambda>(_, input, _). length input)" for a b c
    by (cases input) auto
qed auto

declare parse_loop.simps [simp del]

definition tool_call_parse ::
    "(string \<Rightarrow> cpp_exception + 'd) \<Rightarrow> 'd \<Rightarrow> string \<Rightarrow> cpp_exception + 'd tool_call option" where
  "tool_call_parse stod zero text =
     (case parse_loop stod text \<lparr>tc_name = [], tc_reason = [], tc_confidence = zero\<rparr> of
        Inl e \<Rightarrow> Inl e
      | Inr call \<Rightarrow> if tc_name call = [] then Inr None else Inr (Some call))"

section \<open>Lemmas\<close>

lemma getline_line: "newline \<notin> set line \<Longrightarrow> getline (line @ newline # rest) = Some (line, rest)"
  by (simp add: getline_def takeWhile_append dropWhile_append)

lemma parse_loop_end [simp]: "parse_loop stod [] call = Inr call"
  by (simp add: parse_loop.simps [of stod "[]"] getline_def)

lemma parse_loop_line:
  "newline \<notin> set line \<Longrightarrow> parse_loop stod (line @ newline # rest) call =
     (case parse_line stod line call of Inl e \<Rightarrow> Inl e | Inr call \<Rightarrow> parse_loop stod rest call)"
  by (simp add: parse_loop.simps [of stod "line @ newline # rest"] getline_line)

definition unlines :: "string list \<Rightarrow> string" where
  "unlines ls = concat (map (\<lambda>l. l @ [newline]) ls)"

lemma unlines_simps [simp]: "unlines [] = []" "unlines (l # ls) = l @ newline # unlines ls"
  by (simp_all add: unlines_def)

text \<open>The value of the last line that starts with a key.\<close>

definition values_of :: "string \<Rightarrow> string list \<Rightarrow> string list" where
  "values_of key ls = map (drop (length key)) (filter (prefix key) ls)"

definition last_value :: "string \<Rightarrow> string list \<Rightarrow> 'b \<Rightarrow> (string \<Rightarrow> 'b) \<Rightarrow> 'b" where
  "last_value key ls d conv = (if values_of key ls = [] then d else conv (last (values_of key ls)))"

lemma last_value_simps [simp]:
  "last_value key [] d conv = d"
  "last_value key (l # ls) d conv =
     last_value key ls (if prefix key l then conv (drop (length key) l) else d) conv"
  by (simp_all add: last_value_def values_of_def)

lemma starts_with_prefix: "starts_with key l \<longleftrightarrow> prefix key l"
  by (metis append_eq_conv_conj append_take_drop_id prefix_def starts_with_def)

lemma key_value:
  "prefix ''tool='' l \<Longrightarrow> value_after_equals l = drop (length ''tool='') l"
  "prefix ''reason='' l \<Longrightarrow> value_after_equals l = drop (length ''reason='') l"
  "prefix ''confidence='' l \<Longrightarrow> value_after_equals l = drop (length ''confidence='') l"
  by (auto simp: prefix_def value_after_equals_def)

lemma starts_with_exclusive:
  "starts_with ''tool='' l \<Longrightarrow> \<not> starts_with ''reason='' l \<and> \<not> starts_with ''confidence='' l"
  "starts_with ''reason='' l \<Longrightarrow> \<not> starts_with ''confidence='' l"
  by (auto simp: starts_with_def dest: arg_cong [of _ _ hd] split: if_splits) (cases l; simp)+

lemma parse_loop_unlines:
  assumes "\<forall>l \<in> set ls. newline \<notin> set l"
    and "\<forall>v \<in> set (values_of ''confidence='' ls). stod v = Inr (conv v)"
  shows "parse_loop stod (unlines ls) call = Inr \<lparr>tc_name = last_value ''tool='' ls (tc_name call) (\<lambda>v. v),
     tc_reason = last_value ''reason='' ls (tc_reason call) (\<lambda>v. v),
     tc_confidence = last_value ''confidence='' ls (tc_confidence call) conv\<rparr>"
  using assms
proof (induction ls arbitrary: call)
  case (Cons l ls)
  have p: "parse_line stod l call = Inr \<lparr>
      tc_name = (if prefix ''tool='' l then drop (length ''tool='') l else tc_name call),
      tc_reason = (if prefix ''reason='' l then drop (length ''reason='') l else tc_reason call),
      tc_confidence = (if prefix ''confidence='' l then conv (drop (length ''confidence='') l) else tc_confidence call)\<rparr>"
    using Cons.prems(2) starts_with_exclusive [of l]
    by (auto simp: parse_line_def starts_with_prefix key_value values_of_def)
  have "newline \<notin> set l" using Cons.prems(1) by simp
  moreover have "\<forall>v \<in> set (values_of ''confidence='' ls). stod v = Inr (conv v)"
    using Cons.prems(2) by (auto simp: values_of_def)
  ultimately show ?case using Cons.IH Cons.prems(1) by (simp add: parse_loop_line p)
qed simp

lemma parse_loop_throws:
  assumes "\<forall>l \<in> set (ls @ [bad]). newline \<notin> set l"
    and "\<forall>v \<in> set (values_of ''confidence='' ls). stod v = Inr (conv v)"
    and "prefix ''confidence='' bad" "stod (drop (length ''confidence='') bad) = Inl e"
  shows "parse_loop stod (unlines (ls @ [bad]) @ rest) call = Inl e"
  using assms(1,2)
proof (induction ls arbitrary: call)
  case Nil
  have "parse_line stod bad call = Inl e"
    using assms(3,4) starts_with_exclusive [of bad] by (auto simp: parse_line_def starts_with_prefix key_value)
  moreover have "newline \<notin> set bad" using Nil by simp
  ultimately show ?case by (simp add: parse_loop_line)
next
  case (Cons l ls)
  have "\<exists>call'. parse_line stod l call = Inr call'"
    using Cons.prems(2) by (auto simp: parse_line_def starts_with_prefix key_value values_of_def)
  then obtain call' where p: "parse_line stod l call = Inr call'" ..
  have "newline \<notin> set l" using Cons.prems(1) by simp
  moreover have "\<forall>v \<in> set (values_of ''confidence='' ls). stod v = Inr (conv v)"
    using Cons.prems(2) by (auto simp: values_of_def)
  ultimately show ?case using Cons.IH [of call'] Cons.prems(1) by (simp add: parse_loop_line p)
qed

section \<open>A sequence of calls\<close>

fun execute_all ::
    "('d, 's) tool_registry \<Rightarrow> safety_policy \<Rightarrow> 'd tool_call list \<Rightarrow> 's \<Rightarrow>
     (cpp_exception + tool_result) list \<times> 's" where
  "execute_all g safety [] s = ([], s)"
| "execute_all g safety (c # cs) s =
     (case tool_execute g c safety s of (r, s) \<Rightarrow>
        case execute_all g safety cs s of (rs, s) \<Rightarrow> (r # rs, s))"

text \<open>What an operator has told the policy, in order.\<close>

datatype policy_op = Allow_Tool string | Block_Tool string

primrec policy_step :: "policy_op \<Rightarrow> safety_policy \<Rightarrow> safety_policy" where
  "policy_step (Allow_Tool n) p = allow_tool n p"
| "policy_step (Block_Tool n) p = block_tool n p"

lemma policy_sets:
  "sp_allowed_tools (fold policy_step ops p) = sp_allowed_tools p \<union> {n. Allow_Tool n \<in> set ops}"
  "sp_blocked_tools (fold policy_step ops p) = sp_blocked_tools p \<union> {n. Block_Tool n \<in> set ops}"
proof (induction ops arbitrary: p)
  case (Cons opn ops)
  { case 1 show ?case using Cons by (cases opn) (auto simp: allow_tool_def block_tool_def) }
  { case 2 show ?case using Cons by (cases opn) (auto simp: allow_tool_def block_tool_def) }
qed simp_all

section \<open>Properties\<close>

text \<open>The policy is decided by what was ever allowed and blocked, in whatever order: a
  blocked tool is never allowed, not even when it is allowed later, and any other tool is
  allowed if nothing was ever put on the allow list or it is on it.\<close>

theorem policy_blocks_win:
  "is_allowed call (fold policy_step ops new_safety_policy) =
     (if Block_Tool (tc_name call) \<in> set ops then False
      else if \<exists>n. Allow_Tool n \<in> set ops then Allow_Tool (tc_name call) \<in> set ops
      else True)"
  by (auto simp: is_allowed_def policy_sets new_safety_policy_def)

text \<open>Handlers run only for registered tools the policy allows: executing any list of calls
  leaves the state in which executing the permitted ones alone leaves it, and each refused call
  gets an unsuccessful result, not an exception.\<close>

theorem blocked_tools_never_run:
  "snd (execute_all g safety calls s) =
     snd (execute_all g safety (filter (\<lambda>c. has_tool (tc_name c) g \<and> is_allowed c safety) calls) s) \<and>
   list_all2 (\<lambda>c r. (has_tool (tc_name c) g \<and> is_allowed c safety) \<or> (\<exists>m. r = Inr \<lparr>tr_success = False, tr_message = m\<rparr>))
     calls (fst (execute_all g safety calls s))"
proof (induction calls arbitrary: s)
  case (Cons c cs)
  show ?case
  proof (cases "has_tool (tc_name c) g \<and> is_allowed c safety")
    case True
    with Cons show ?thesis by (simp add: case_prod_unfold)
  next
    case False
    then have "\<exists>m. tool_execute g c safety s = (Inr \<lparr>tr_success = False, tr_message = m\<rparr>, s)"
      by (auto simp: tool_execute_def)
    with False Cons show ?thesis by (auto simp: case_prod_unfold)
  qed
qed simp

text \<open>C37: \<open>parse\<close> of lines whose confidences \<open>stod\<close> converts: a field is what follows its key
  (\<open>tool=\<close>, \<open>reason=\<close>, \<open>confidence=\<close>, further equals signs included) in the last line that
  begins with that key, and empty or zero if no line does; other lines are ignored; and the
  call is rejected exactly if the resulting name is empty.\<close>

theorem tool_call_parse_last_wins:
  assumes "\<forall>l \<in> set ls. newline \<notin> set l"
    and "\<forall>v \<in> set (values_of ''confidence='' ls). stod v = Inr (conv v)"
  shows "tool_call_parse stod zero (unlines ls) =
    (let names = values_of ''tool='' ls; reasons = values_of ''reason='' ls; confidences = values_of ''confidence='' ls
     in Inr (if names = [] \<or> last names = [] then None
        else Some \<lparr>tc_name = last names, tc_reason = (if reasons = [] then [] else last reasons),
                   tc_confidence = (if confidences = [] then zero else conv (last confidences))\<rparr>))"
  by (simp add: tool_call_parse_def parse_loop_unlines [OF assms] Let_def last_value_def)

theorem tool_call_parse_last_wins_witness:
  "tool_call_parse (\<lambda>s. Inr (length s)) 0 (unlines [''tool=a'', ''noise'', ''confidence=0.50'', ''tool=b=c'']) =
     Inr (Some \<lparr>tc_name = ''b=c'', tc_reason = [], tc_confidence = 4\<rparr>)"
  by (subst tool_call_parse_last_wins [of _ _ length]) (simp_all add: newline_def values_of_def Let_def)

text \<open>One confidence line that \<open>stod\<close> cannot convert makes \<open>parse\<close> throw its exception
  instead of returning \<open>nullopt\<close>, whatever comes before (even a complete call) or after it.\<close>

theorem tool_call_parse_throws:
  assumes "\<forall>l \<in> set (ls @ [bad]). newline \<notin> set l"
    and "\<forall>v \<in> set (values_of ''confidence='' ls). stod v = Inr (conv v)"
    and "prefix ''confidence='' bad" "stod (drop (length ''confidence='') bad) = Inl e"
  shows "tool_call_parse stod zero (unlines (ls @ [bad]) @ rest) = Inl e"
  unfolding tool_call_parse_def parse_loop_throws [OF assms] by simp

theorem tool_call_parse_throws_witness:
  "tool_call_parse (\<lambda>s. if s = [] then Inl (Invalid_Argument ''stod'') else Inr (length s)) 0
     (unlines ([''tool=a'', ''reason=r''] @ [''confidence='']) @ ''more'') = Inl (Invalid_Argument ''stod'')"
  by (rule tool_call_parse_throws [where conv = length])
    (simp_all add: newline_def starts_with_def value_after_equals_def values_of_def)

end
