(* ===== verification/Tool_Agent.thy ===== *)
theory Tool_Agent
  imports LLM_Memory LLM_Scheduled LLM_Remote Tools
begin

text \<open>
  \<open>examples/tool_agent_demo/tool_agent_client.cpp\<close>, the program that puts the parts together: a
  remote runtime inside a scheduled one inside a memory-aware one, the parser, the policy and
  the registry. Its result is the exit code (or the exception that escapes \<open>main\<close>), what the
  program and its tool handlers wrote to the console, and the state of the runtimes. How a
  stream prints a \<open>double\<close> is a parameter, \<open>show_d\<close>.
\<close>

section \<open>The runtimes\<close>

definition tool_agent_prompt :: prompt where
  "tool_agent_prompt =
     add_user (''Motion detected near the front door. '' @
       ''Door is locked. It is night. Choose the safest allowed action.'')
     (add_system (''You are a safe embedded device planner. '' @
       ''Respond only using this format:'' @ [newline] @
       ''tool=<tool_name>'' @ [newline] @
       ''reason=<short_reason>'' @ [newline] @
       ''confidence=<0_to_1>'' @ [newline])
     empty_prompt)"

text \<open>\<open>0.1f\<close> and \<open>0.9f\<close> by their bit patterns.\<close>

definition tool_agent_config :: generation_config where
  "tool_agent_config = default_generation_config\<lparr>gc_max_tokens := 64, gc_temperature := 0x3DCCCCCD,
     gc_top_p := 0x3F666666, gc_timeout_ms := 1000, gc_stream := False\<rparr>"

definition tool_agent_remote :: remote_llm where
  "tool_agent_remote = new_remote_llm ''127.0.0.1'' 39200 ''tool_agent.client'' ''llm.server''"

definition tool_agent_tokens :: token_budget where
  "tool_agent_tokens = \<lparr>tb_max_prompt_tokens = 128, tb_max_completion_tokens = 32, tb_remaining_tokens = 160\<rparr>"

text \<open>The three addresses are where the manager's vectors are allocated.\<close>

definition tool_agent_memory :: "u64 \<times> u64 \<times> u64 \<Rightarrow> memory_manager" where
  "tool_agent_memory places = (case places of (global_data, scratch_data, pool_data) \<Rightarrow>
     set_agent_budget ''tool_agent.client'' (8 * 1024)
       (new_memory_manager global_data scratch_data pool_data
         \<lparr>mc_global_arena_size = 64 * 1024, mc_scratch_arena_size = 16 * 1024,
          mc_message_block_size = 512, mc_message_block_count = 32\<rparr>))"

type_synonym 'w agent_state = "memory_manager \<times> token_budget \<times> remote_llm \<times> 'w process"

definition agent_generate :: "'w winsock \<Rightarrow> ('w \<Rightarrow> int \<times> 'w) \<Rightarrow> 'w agent_state llm_generate" where
  "agent_generate ws clock =
     memory_generate (beside_manager (scheduled_generate (remote_generate ws clock))) ''tool_agent.client''"

section \<open>The tools\<close>

definition light_tool :: "'d tool_call \<Rightarrow> console \<Rightarrow> (cpp_exception + tool_result) \<times> console" where
  "light_tool call c =
     (Inr \<lparr>tr_success = True, tr_message = ''light turned on''\<rparr>,
      print_line (''[tool] reason: '' @ tc_reason call) (print_line ''[tool] turning on light'' c))"

definition alert_tool :: "'d tool_call \<Rightarrow> console \<Rightarrow> (cpp_exception + tool_result) \<times> console" where
  "alert_tool call c =
     (Inr \<lparr>tr_success = True, tr_message = ''alert sent''\<rparr>,
      print_line (''[tool] reason: '' @ tc_reason call) (print_line ''[tool] sending alert'' c))"

definition unlock_tool :: "'d tool_call \<Rightarrow> console \<Rightarrow> (cpp_exception + tool_result) \<times> console" where
  "unlock_tool call c =
     (Inr \<lparr>tr_success = True, tr_message = ''door unlocked''\<rparr>, print_line ''[tool] unlocking door'' c)"

definition tool_agent_registry :: "('d, console) tool_registry" where
  "tool_agent_registry =
     register_tool ''unlock_door'' (Some unlock_tool)
     (register_tool ''send_alert'' (Some alert_tool)
     (register_tool ''turn_on_light'' (Some light_tool) new_tool_registry))"

definition tool_agent_safety :: safety_policy where
  "tool_agent_safety = block_tool ''unlock_door'' (allow_tool ''send_alert'' (allow_tool ''turn_on_light'' new_safety_policy))"

section \<open>The program\<close>

text \<open>What is done with the result of the runtime.\<close>

definition announce_call :: "('d \<Rightarrow> string) \<Rightarrow> 'd tool_call \<Rightarrow> console \<Rightarrow> console" where
  "announce_call show_d call c =
     (let c = print_line (''[agent] parsed tool: '' @ tc_name call) c;
          c = print_line (''[agent] reason: '' @ tc_reason call) c
      in print_line (''[agent] confidence: '' @ show_d (tc_confidence call)) c)"

definition tool_agent_act ::
    "('d \<Rightarrow> string) \<Rightarrow> (string \<Rightarrow> cpp_exception + 'd) \<Rightarrow> 'd \<Rightarrow> llm_result \<Rightarrow> console \<Rightarrow>
     (cpp_exception + int) \<times> console" where
  "tool_agent_act show_d stod zero result c =
     (if \<not> llm_ok result \<or> lr_error_message result \<noteq> []
      then (Inr 1, complain (''[agent] LLM failed: '' @ lr_error_message result) c)
      else
        let c = print_line (lr_text result) (print_line ''[agent] LLM result:'' c)
        in case tool_call_parse stod zero (lr_text result) of
             Inl e \<Rightarrow> (Inl e, c)
           | Inr None \<Rightarrow> (Inr 1, complain ''[agent] failed to parse tool call'' c)
           | Inr (Some call) \<Rightarrow>
               case tool_execute tool_agent_registry call tool_agent_safety (announce_call show_d call c) of
                 (Inl e, c) \<Rightarrow> (Inl e, c)
               | (Inr r, c) \<Rightarrow>
                   if \<not> tr_success r
                   then (Inr 1, complain (''[agent] tool execution blocked/failed: '' @ tr_message r) c)
                   else (Inr 0, print_line (''[agent] tool execution success: '' @ tr_message r) c))"

definition report_memory :: "memory_manager \<Rightarrow> console \<Rightarrow> console" where
  "report_memory m c =
     (case agent_budget ''tool_agent.client'' m of
        None \<Rightarrow> c
      | Some b \<Rightarrow>
          print_line (''[agent] memory peak usage: '' @ show_nat (unat (ab_peak_used_bytes b)) @ '' bytes'')
            (print_line (''[agent] memory used after request: '' @ show_nat (unat (ab_used_bytes b)) @ '' bytes'') c))"

definition tool_agent_main ::
    "'w winsock \<Rightarrow> ('w \<Rightarrow> int \<times> 'w) \<Rightarrow> ('d \<Rightarrow> string) \<Rightarrow> (string \<Rightarrow> cpp_exception + 'd) \<Rightarrow> 'd \<Rightarrow>
     u64 \<times> u64 \<times> u64 \<Rightarrow> 'w process \<Rightarrow> (cpp_exception + int) \<times> console \<times> 'w agent_state" where
  "tool_agent_main ws clock show_d stod zero places pr =
     (let c = print_line ''[agent] requesting memory-aware scheduled remote LLM decision'' empty_console
      in case agent_generate ws clock tool_agent_prompt tool_agent_config
        (tool_agent_memory places, tool_agent_tokens, tool_agent_remote, pr) of
        (Inl e, st) \<Rightarrow> (Inl e, c, st)
      | (Inr result, st) \<Rightarrow>
          case tool_agent_act show_d stod zero result c of (code, c) \<Rightarrow>
            (code, if code = Inr 0 then report_memory (fst st) c else c, st))"

section \<open>Lemmas\<close>

lemma execute_cases:
  "tool_execute tool_agent_registry call tool_agent_safety c =
    (if tc_name call = ''turn_on_light'' then light_tool call c
     else if tc_name call = ''send_alert'' then alert_tool call c
     else if tc_name call = ''unlock_door''
     then (Inr \<lparr>tr_success = False, tr_message = ''Tool blocked by safety policy: unlock_door''\<rparr>, c)
     else (Inr \<lparr>tr_success = False, tr_message = ''Tool not registered: '' @ tc_name call\<rparr>, c))"
  by (simp add: tool_execute_def has_tool_def is_allowed_def tool_agent_registry_def register_tool_def
      new_tool_registry_def tool_agent_safety_def block_tool_def allow_tool_def new_safety_policy_def)

text \<open>What the console shows of a call that is made: the text it was read from, the call, the tool
  and its success.\<close>

definition call_lines :: "('d \<Rightarrow> string) \<Rightarrow> string \<Rightarrow> 'd tool_call \<Rightarrow> string" where
  "call_lines show_d text call = as_lines [''[agent] LLM result:'', text, ''[agent] parsed tool: '' @ tc_name call,
     ''[agent] reason: '' @ tc_reason call, ''[agent] confidence: '' @ show_d (tc_confidence call)]"

definition light_lines :: "string \<Rightarrow> string" where
  "light_lines reason = as_lines [''[tool] turning on light'', ''[tool] reason: '' @ reason,
     ''[agent] tool execution success: light turned on'']"

definition alert_lines :: "string \<Rightarrow> string" where
  "alert_lines reason = as_lines [''[tool] sending alert'', ''[tool] reason: '' @ reason,
     ''[agent] tool execution success: alert sent'']"

lemma act_says:
  assumes "tool_agent_act show_d stod zero result c = (code, c')"
  shows "if llm_ok result \<and> lr_error_message result = []
    then case tool_call_parse stod zero (lr_text result) of
      Inl e \<Rightarrow> code = Inl e \<and> con_err c' = con_err c \<and>
        con_out c' = con_out c @ as_lines [''[agent] LLM result:'', lr_text result]
    | Inr None \<Rightarrow> code = Inr 1 \<and> con_err c' = con_err c @ as_lines [''[agent] failed to parse tool call''] \<and>
        con_out c' = con_out c @ as_lines [''[agent] LLM result:'', lr_text result]
    | Inr (Some call) \<Rightarrow>
        if tc_name call = ''turn_on_light'' then code = Inr 0 \<and> con_err c' = con_err c \<and>
          con_out c' = con_out c @ call_lines show_d (lr_text result) call @ light_lines (tc_reason call)
        else if tc_name call = ''send_alert'' then code = Inr 0 \<and> con_err c' = con_err c \<and>
          con_out c' = con_out c @ call_lines show_d (lr_text result) call @ alert_lines (tc_reason call)
        else code = Inr 1 \<and> con_out c' = con_out c @ call_lines show_d (lr_text result) call \<and>
          con_err c' = con_err c @ as_lines [''[agent] tool execution blocked/failed: '' @
            (if tc_name call = ''unlock_door'' then ''Tool blocked by safety policy: unlock_door''
             else ''Tool not registered: '' @ tc_name call)]
    else code = Inr 1 \<and> con_out c' = con_out c \<and>
      con_err c' = con_err c @ as_lines [''[agent] LLM failed: '' @ lr_error_message result]"
proof (cases "tool_call_parse stod zero (lr_text result)")
  case (Inl e)
  with assms show ?thesis by (auto simp: tool_agent_act_def Let_def)
next
  case (Inr x)
  show ?thesis
  proof (cases x)
    case None
    with Inr assms show ?thesis by (auto simp: tool_agent_act_def Let_def)
  next
    case (Some call)
    with Inr assms show ?thesis
      by (auto simp: tool_agent_act_def Let_def execute_cases light_tool_def alert_tool_def announce_call_def
          call_lines_def light_lines_def alert_lines_def)
  qed
qed

lemma tool_agent_estimate:
  "estimate_memory_bytes tool_agent_prompt tool_agent_config = 1766 \<and>
   estimate_prompt_tokens tool_agent_prompt = 57"
  by (simp add: estimate_memory_bytes_def estimate_prompt_tokens_def tool_agent_prompt_def tool_agent_config_def
      default_generation_config_def add_user_def add_system_def add_message_def empty_prompt_def Let_def)

definition granted_config :: generation_config where
  "granted_config = tool_agent_config\<lparr>gc_max_tokens := 32\<rparr>"

definition charged_tokens :: token_budget where
  "charged_tokens = tool_agent_tokens\<lparr>tb_remaining_tokens := 71\<rparr>"

lemma scheduled_tool_agent:
  "scheduled_generate inner tool_agent_prompt tool_agent_config (tool_agent_tokens, s) =
    (case inner tool_agent_prompt granted_config s of
       (Inl e, s') \<Rightarrow> (Inl e, (charged_tokens, s'))
     | (Inr r, s') \<Rightarrow> (Inr r, (release (lr_prompt_tokens r + lr_completion_tokens r) charged_tokens, s')))"
proof -
  have "budget_sane tool_agent_tokens" by (simp add: budget_sane_def tool_agent_tokens_def)
  moreover have "spec_of (scheduled_task tool_agent_prompt tool_agent_config) tool_agent_tokens = Some 32"
    by (simp add: spec_of_def schedule_spec_def scheduled_task_def tool_agent_estimate tool_agent_tokens_def
        tool_agent_config_def default_task_def)
  moreover obtain x s' where i: "inner tool_agent_prompt granted_config s = (x, s')" by fastforce
  ultimately show ?thesis
    using scheduled_generate_some [of tool_agent_tokens tool_agent_prompt tool_agent_config 32 inner s]
    by (cases x) (simp_all add: Let_def i charged_tokens_def tool_agent_estimate tool_agent_tokens_def
        granted_config_def [symmetric])
qed

interpretation agent_backend: memory_backend "beside_manager (scheduled_generate (remote_generate ws clock))"
  for ws clock
  by unfold_locales (auto dest: beside_manager_law)

lemma tool_agent_memory_sane:
  "limits_sane (tool_agent_memory places)" "agent_used (tool_agent_memory places) = [''tool_agent.client'' \<mapsto> 0]"
  by (auto simp: tool_agent_memory_def set_agent_budget_def new_memory_manager_def limits_sane_def agent_used_def
      new_agent_memory_budget_def graph_def fun_eq_iff split: prod.split)

definition spent_budget :: agent_memory_budget where
  "spent_budget = \<lparr>ab_agent_id = ''tool_agent.client'', ab_limit_bytes = 8192, ab_used_bytes = 0,
     ab_peak_used_bytes = 1766\<rparr>"

lemma tool_agent_reservation:
  assumes "open_reservation ''tool_agent.client'' 1766 (tool_agent_memory places) = (res, m)"
  shows "reservation_ok res" "agent_budget ''tool_agent.client'' (close_reservation res m) = Some spent_budget"
    "agent_budget ''tool_agent.client'' (close_reservation res (reset_scratch m)) = Some spent_budget"
  using assms
  by (auto simp: open_reservation_def reserve_agent_memory_def tool_agent_memory_def set_agent_budget_def
      new_agent_memory_budget_def budget_reserve_def budget_can_reserve_def reservation_ok_def close_reservation_def
      release_agent_memory_def budget_release_def agent_budget_def reset_scratch_def spent_budget_def Let_def
      split: prod.splits)

lemma agent_generate_run:
  assumes "remote_generate ws clock tool_agent_prompt granted_config (tool_agent_remote, pr) = (x, (r', pr'))"
  shows "\<exists>m'. agent_generate ws clock tool_agent_prompt tool_agent_config
      (tool_agent_memory places, tool_agent_tokens, tool_agent_remote, pr) =
      (x, (m', (case x of Inl _ \<Rightarrow> charged_tokens
         | Inr r \<Rightarrow> release (lr_prompt_tokens r + lr_completion_tokens r) charged_tokens), r', pr')) \<and>
    agent_used m' = [''tool_agent.client'' \<mapsto> 0] \<and> agent_budget ''tool_agent.client'' m' = Some spent_budget"
proof -
  let ?m = "tool_agent_memory places"
  let ?inner = "beside_manager (scheduled_generate (remote_generate ws clock))"
  let ?b = "case x of Inl _ \<Rightarrow> charged_tokens | Inr r \<Rightarrow> release (lr_prompt_tokens r + lr_completion_tokens r) charged_tokens"
  obtain res m1 where o: "open_reservation ''tool_agent.client'' (estimate_memory_bytes tool_agent_prompt tool_agent_config) ?m = (res, m1)"
    by fastforce
  note res = tool_agent_reservation [OF o [unfolded conjunct1 [OF tool_agent_estimate]]]
  have "?inner tool_agent_prompt tool_agent_config (m1, (tool_agent_tokens, tool_agent_remote, pr)) = (x, (m1, (?b, r', pr')))"
    using assms by (simp add: beside_manager_def scheduled_tool_agent split: sum.split)
  with o res obtain m' where m': "agent_generate ws clock tool_agent_prompt tool_agent_config
      (?m, tool_agent_tokens, tool_agent_remote, pr) = (x, (m', ?b, r', pr'))"
    "agent_budget ''tool_agent.client'' m' = Some spent_budget"
    by (cases x) (simp_all add: agent_generate_def memory_generate_def)
  have "unat (estimate_memory_bytes tool_agent_prompt tool_agent_config) < 9223372036854775808"
    by (simp add: tool_agent_estimate)
  from agent_backend.memory_generate_law [OF tool_agent_memory_sane(1) this m'(1) [unfolded agent_generate_def]] m'
  show ?thesis by (auto simp: tool_agent_memory_sane(2))
qed

section \<open>Properties\<close>

lemma show_spent: "show_nat 0 = ''0''" "show_nat 1766 = ''1766''"
proof -
  have c: "char_of (48 :: nat) = CHR ''0''" "char_of (49 :: nat) = CHR ''1''" "char_of (54 :: nat) = CHR ''6''"
    "char_of (55 :: nat) = CHR ''7''" by code_simp+
  show "show_nat 0 = ''0''" by (simp add: show_nat.simps [of 0] c)
  show "show_nat 1766 = ''1766''"
    by (simp add: show_nat.simps [of 1766] show_nat.simps [of 176] show_nat.simps [of 17] show_one c)
qed

lemma shown_report:
  "agent_budget ''tool_agent.client'' m = Some spent_budget \<Longrightarrow>
     con_out (report_memory m c) = con_out c @ as_lines [''[agent] memory used after request: 0 bytes'',
       ''[agent] memory peak usage: 1766 bytes''] \<and> con_err (report_memory m c) = con_err c"
  by (simp add: report_memory_def spent_budget_def show_spent)

text \<open>C2: Whatever the network, the server and \<open>std::stod\<close> do, what the program prints on both streams
  and what it ends with is a function of the result of the remote runtime alone. The light or
  the alert runs exactly if that result is a success whose text parses to a call of it; then the console
  shows the text, the call, the output of that one tool, its success and the memory given back,
  with a peak of 1766 bytes, and the exit code is 0. In every other case no tool writes
  anything: the console ends after the text (or the parsed call), standard error says why
  (failed request, no call, blocked by the policy, not registered), and the exit code is 1 or
  the exception of the runtime or of \<open>std::stod\<close> escapes. The door is never unlocked.\<close>

theorem tool_agent_never_unlocks:
  "case tool_agent_main ws clock show_d stod zero places pr of (code, c, st) \<Rightarrow>
     let begun = as_lines [''[agent] requesting memory-aware scheduled remote LLM decision''];
       given_back = as_lines [''[agent] memory used after request: 0 bytes'', ''[agent] memory peak usage: 1766 bytes'']
     in case fst (remote_generate ws clock tool_agent_prompt granted_config (tool_agent_remote, pr)) of
          Inl e \<Rightarrow> code = Inl e \<and> con_out c = begun \<and> con_err c = []
        | Inr result \<Rightarrow>
            if llm_ok result \<and> lr_error_message result = []
            then case tool_call_parse stod zero (lr_text result) of
              Inl e \<Rightarrow> code = Inl e \<and> con_err c = [] \<and>
                con_out c = begun @ as_lines [''[agent] LLM result:'', lr_text result]
            | Inr None \<Rightarrow> code = Inr 1 \<and> con_err c = as_lines [''[agent] failed to parse tool call''] \<and>
                con_out c = begun @ as_lines [''[agent] LLM result:'', lr_text result]
            | Inr (Some call) \<Rightarrow>
                if tc_name call = ''turn_on_light'' then code = Inr 0 \<and> con_err c = [] \<and>
                  con_out c = begun @ call_lines show_d (lr_text result) call @ light_lines (tc_reason call) @ given_back
                else if tc_name call = ''send_alert'' then code = Inr 0 \<and> con_err c = [] \<and>
                  con_out c = begun @ call_lines show_d (lr_text result) call @ alert_lines (tc_reason call) @ given_back
                else code = Inr 1 \<and> con_out c = begun @ call_lines show_d (lr_text result) call \<and>
                  con_err c = as_lines [''[agent] tool execution blocked/failed: '' @
                    (if tc_name call = ''unlock_door'' then ''Tool blocked by safety policy: unlock_door''
                     else ''Tool not registered: '' @ tc_name call)]
            else code = Inr 1 \<and> con_out c = begun \<and>
              con_err c = as_lines [''[agent] LLM failed: '' @ lr_error_message result]"
proof -
  let ?c = "print_line ''[agent] requesting memory-aware scheduled remote LLM decision'' empty_console"
  obtain x r' pr' where g0: "remote_generate ws clock tool_agent_prompt granted_config (tool_agent_remote, pr) = (x, (r', pr'))"
    by (metis prod_cases3)
  obtain m bs where g: "agent_generate ws clock tool_agent_prompt tool_agent_config
      (tool_agent_memory places, tool_agent_tokens, tool_agent_remote, pr) = (x, (m, bs))"
    and m: "agent_budget ''tool_agent.client'' m = Some spent_budget"
    using agent_generate_run [OF g0, of places] by blast
  show ?thesis
  proof (cases x)
    case (Inl e)
    with g g0 show ?thesis by (simp add: tool_agent_main_def Let_def)
  next
    case (Inr result)
    obtain code c where a: "tool_agent_act show_d stod zero result ?c = (code, c)" by fastforce
    with g Inr have t: "tool_agent_main ws clock show_d stod zero places pr =
        (code, if code = Inr 0 then report_memory m c else c, (m, bs))"
      by (simp add: tool_agent_main_def Let_def)
    note act_says [OF a, unfolded call_lines_def light_lines_def alert_lines_def]
    then show ?thesis unfolding t g0 fst_conv Inr using shown_report [OF m, of c]
      by (auto simp: Let_def call_lines_def light_lines_def alert_lines_def split: sum.splits option.splits if_splits)
  qed
qed

text \<open>C38: However the run ends, the agent's memory is given back, and of the 160 tokens the
  budget holds the 71 that the charge of 89 left plus what the remote result says it used, up
  to 160 (the sum is taken modulo \<open>2 ^ 32\<close>); an exception gives nothing back.\<close>

theorem tool_agent_accounts:
  "case tool_agent_main ws clock show_d stod zero places pr of (code, c, (m, b, r, pr')) \<Rightarrow>
     agent_used m = [''tool_agent.client'' \<mapsto> 0] \<and>
     b = (case fst (remote_generate ws clock tool_agent_prompt granted_config (tool_agent_remote, pr)) of
            Inl _ \<Rightarrow> tool_agent_tokens\<lparr>tb_remaining_tokens := 71\<rparr>
          | Inr res \<Rightarrow> tool_agent_tokens\<lparr>tb_remaining_tokens :=
              min (71 + (lr_prompt_tokens res + lr_completion_tokens res)) 160\<rparr>)"
proof -
  obtain x r' pr' where g: "remote_generate ws clock tool_agent_prompt granted_config (tool_agent_remote, pr) = (x, (r', pr'))"
    by (metis prod_cases3)
  from agent_generate_run [OF g, of places] obtain m' where
    a: "agent_generate ws clock tool_agent_prompt tool_agent_config
      (tool_agent_memory places, tool_agent_tokens, tool_agent_remote, pr) =
      (x, (m', (case x of Inl _ \<Rightarrow> charged_tokens
         | Inr r \<Rightarrow> release (lr_prompt_tokens r + lr_completion_tokens r) charged_tokens), r', pr'))"
    and m: "agent_used m' = [''tool_agent.client'' \<mapsto> 0]" by blast
  have r: "release u charged_tokens = tool_agent_tokens\<lparr>tb_remaining_tokens := min (71 + u) 160\<rparr>" for u
    by (simp add: release_def charged_tokens_def tool_agent_tokens_def)
  show ?thesis
  proof (cases x)
    case (Inl e)
    with a m g show ?thesis by (simp add: tool_agent_main_def charged_tokens_def)
  next
    case (Inr result)
    with a m g r show ?thesis
      by (simp add: tool_agent_main_def split: prod.split)
  qed
qed

lemma tool_agent_id:
  "fst (next_request_id tool_agent_remote) = ''remote-llm-req-1''"
  "rl_source tool_agent_remote = ''tool_agent.client''" "rl_target tool_agent_remote = ''llm.server''"
  by (simp_all add: next_request_id_def tool_agent_remote_def new_remote_llm_def show_one)

definition tool_agent_request :: message where
  "tool_agent_request = request_message tool_agent_remote tool_agent_prompt granted_config"

lemma tool_agent_request_fits:
  "request_small (next_request tool_agent_remote tool_agent_prompt granted_config)" "tcp_fits tool_agent_request"
  by (simp_all add: request_small_def request_fits_def prompt_fits_def fits32_def next_request_def tool_agent_id
      tool_agent_prompt_def add_user_def add_system_def add_message_def empty_prompt_def vec_ok_def
      encode_request_payload_eq request_bytes_def message_bytes_def tcp_fits_def tool_agent_request_def
      request_message_def length_protocol_encode encode_request_def)

text \<open>What the server's runtime returns to this prompt.\<close>

lemma server_result:
  "\<exists>a b e s'. mock_generate clock llm_server_response_text tool_agent_prompt c s =
     (Inr (default_llm_result\<lparr>lr_text := llm_server_response_text, lr_prompt_tokens := a, lr_completion_tokens := b,
        lr_elapsed_ms := e\<rparr>), s')"
  by (simp add: mock_generate_def case_prod_unfold Let_def default_llm_result_def tool_agent_prompt_def add_user_def
      add_system_def add_message_def)

text \<open>What a call that the parser returns for a text leads to.\<close>

lemma act_call:
  assumes "tool_call_parse stod zero (lr_text result) = Inr (Some call)" "llm_ok result" "lr_error_message result = []"
  shows "tc_name call = ''turn_on_light'' \<Longrightarrow> \<exists>c'. tool_agent_act show_d stod zero result c = (Inr 0, c') \<and>
      con_out c' = con_out c @ call_lines show_d (lr_text result) call @ light_lines (tc_reason call) \<and> con_err c' = con_err c"
    and "tc_name call = ''send_alert'' \<Longrightarrow> \<exists>c'. tool_agent_act show_d stod zero result c = (Inr 0, c') \<and>
      con_out c' = con_out c @ call_lines show_d (lr_text result) call @ alert_lines (tc_reason call) \<and> con_err c' = con_err c"
  using assms
  by (simp_all add: tool_agent_act_def Let_def execute_cases light_tool_def alert_tool_def announce_call_def call_lines_def
      light_lines_def alert_lines_def)

definition light_call :: "'d \<Rightarrow> 'd tool_call" where
  "light_call d = \<lparr>tc_name = ''turn_on_light'', tc_reason = ''motion detected near door'', tc_confidence = d\<rparr>"

lemma parse_server_text:
  assumes "stod ''0.82'' = Inr d"
  shows "tool_call_parse stod zero llm_server_response_text = Inr (Some (light_call d))"
proof -
  let ?ls = "[''tool=turn_on_light'', ''reason=motion detected near door'', ''confidence=0.82'']"
  have u: "unlines ?ls = llm_server_response_text" by (simp add: llm_server_response_text_def unlines_def)
  have "parse_loop stod (unlines ?ls) \<lparr>tc_name = [], tc_reason = [], tc_confidence = zero\<rparr> = Inr (light_call d)"
    using assms
    by (subst parse_loop_unlines [where conv = "\<lambda>_. d"])
      (simp_all add: newline_def values_of_def light_call_def)
  then show ?thesis unfolding u by (simp add: tool_call_parse_def light_call_def)
qed

definition light_run_lines :: "('d \<Rightarrow> string) \<Rightarrow> 'd \<Rightarrow> string" where
  "light_run_lines show_d d = as_lines [''[agent] requesting memory-aware scheduled remote LLM decision'',
     ''[agent] LLM result:'', llm_server_response_text, ''[agent] parsed tool: turn_on_light'',
     ''[agent] reason: motion detected near door'', ''[agent] confidence: '' @ show_d d,
     ''[tool] turning on light'', ''[tool] reason: motion detected near door'',
     ''[agent] tool execution success: light turned on'',
     ''[agent] memory used after request: 0 bytes'', ''[agent] memory peak usage: 1766 bytes'']"

text \<open>C1: Against \<open>llm_server\<close>, over sockets that carry bytes in order however the calls split
  them, the server exits with 0 and the program turns on the light, with the server's reason,
  and exits with 0, provided that \<open>stod\<close> converts \<open>0.82\<close>. The console shows the eleven entries of
  \<open>light_run_lines\<close> and nothing else.\<close>

theorem tool_agent_turns_on_light:
  assumes conn: "clock (ps_os pr) = (start, w)"
      "connect_to ws ''127.0.0.1'' 39200 (pr\<lparr>ps_os := w\<rparr>) = (Some t, q)"
    and client: "duplex_socket ws (tcp_handle t) sent pending invar" "invar (os t)"
    and server: "duplex_socket ws2 (tcp_handle t2) sent2 pending2 invar2" "invar2 (os t2)" "sent2 (os t2) = []"
    and serve: "pending2 (os t2) = wire_encode tool_agent_request"
      "serve_connection ws2 (mock_generate clock2 llm_server_response_text) t2 s con = (code, t3, s3, con3)"
    and linked: "\<And>t1. framed_send (tcp_send_bytes ws) tool_agent_request t = (True, t1) \<Longrightarrow>
      pending (os t1) = sent2 (os t3)"
    and stod: "stod ''0.82'' = Inr d"
  shows "code = Inr 0 \<and>
    (\<exists>c st. tool_agent_main ws clock show_d stod zero places pr = (Inr 0, c, st) \<and>
      con_out c = light_run_lines show_d d \<and> con_err c = [])"
proof -
  obtain a b e s' where g: "mock_generate clock2 llm_server_response_text tool_agent_prompt granted_config s =
     (Inr (default_llm_result\<lparr>lr_text := llm_server_response_text, lr_prompt_tokens := a, lr_completion_tokens := b,
        lr_elapsed_ms := e\<rparr>), s')" (is "_ = (Inr ?r, s')")
    using server_result [of clock2 granted_config s] by auto
  have len: "length llm_server_response_text < 100"
    by (simp add: llm_server_response_text_def)
  have f: "response_fits \<lparr>rp_request_id = fst (next_request_id tool_agent_remote), rp_result = ?r\<rparr>"
    using len by (simp add: response_fits_def fits32_def tool_agent_id default_llm_result_def)
  have f2: "tcp_fits (response_message (next_request tool_agent_remote tool_agent_prompt granted_config) ?r (rl_source tool_agent_remote))"
    using len by (simp add: tcp_fits_def response_message_def next_request_def tool_agent_id length_protocol_encode
        encode_response_def length_response default_llm_result_def)
  have "rl_host tool_agent_remote = ''127.0.0.1''" "rl_port tool_agent_remote = 39200"
    by (simp_all add: tool_agent_remote_def new_remote_llm_def)
  note conn' = conn(2) [folded this]
  have "code = Inr 0 \<and> (\<exists>e'. fst (remote_generate ws clock tool_agent_prompt granted_config (tool_agent_remote, pr)) =
      Inr (?r\<lparr>lr_elapsed_ms := e'\<rparr>))"
    using remote_server_compose [where ws = ws and clock = clock and pr = pr and t = t,
          OF conn(1) conn' client server tool_agent_request_fits [unfolded tool_agent_request_def] f f2
            serve(1) [unfolded tool_agent_request_def] g serve(2) linked [unfolded tool_agent_request_def]]
    by blast
  then obtain e' r' pr' where c: "code = Inr 0" and
    r: "remote_generate ws clock tool_agent_prompt granted_config (tool_agent_remote, pr) = (Inr (?r\<lparr>lr_elapsed_ms := e'\<rparr>), (r', pr'))"
    by (metis prod.collapse)
  let ?c = "print_line ''[agent] requesting memory-aware scheduled remote LLM decision'' empty_console"
  let ?res = "?r\<lparr>lr_elapsed_ms := e'\<rparr>"
  have p: "tool_call_parse stod zero (lr_text ?res) = Inr (Some (light_call d))"
    using parse_server_text [of stod d zero, OF stod] by simp
  obtain c' where a: "tool_agent_act show_d stod zero ?res ?c = (Inr 0, c')"
    "con_out c' = con_out ?c @ call_lines show_d (lr_text ?res) (light_call d) @ light_lines (tc_reason (light_call d))"
    "con_err c' = con_err ?c"
    using act_call(1) [OF p, of show_d ?c] by (auto simp: llm_ok_def default_llm_result_def light_call_def)
  obtain m bs where m: "agent_generate ws clock tool_agent_prompt tool_agent_config
      (tool_agent_memory places, tool_agent_tokens, tool_agent_remote, pr) = (Inr ?res, (m, bs))"
    "agent_budget ''tool_agent.client'' m = Some spent_budget"
    using agent_generate_run [OF r, of places] by blast
  have "tool_agent_main ws clock show_d stod zero places pr = (Inr 0, report_memory m c', (m, bs))"
    using m(1) a(1) by (simp add: tool_agent_main_def Let_def)
  moreover have "con_out (report_memory m c') = light_run_lines show_d d" "con_err (report_memory m c') = []"
    using a(2,3) shown_report [OF m(2), of c']
    by (simp_all add: light_run_lines_def call_lines_def light_lines_def light_call_def default_llm_result_def)
  ultimately show ?thesis using c by blast
qed

theorem tool_agent_turns_on_light_witness:
  "\<exists>t3 con c st. serve_connection (boxes 3) (mock_generate (\<lambda>s. (0, s)) llm_server_response_text)
       \<lparr>tcp_handle = 1, tcp_process = sample_process (wire_encode tool_agent_request)\<rparr> () empty_console = (Inr 0, t3, (), con) \<and>
     tool_agent_main (boxes 2) (\<lambda>w. (0, w)) show_nat (\<lambda>s. Inr (length s)) 0 (0x10000, 0x40000, 0x50000)
       (sample_process (fst (os t3))) = (Inr 0, c, st) \<and> con_out c = light_run_lines show_nat 4"
proof -
  let ?t2 = "\<lparr>tcp_handle = 1, tcp_process = sample_process (wire_encode tool_agent_request)\<rparr>"
  obtain code t3 s3 con where sv:
    "serve_connection (boxes 3) (mock_generate (\<lambda>s :: unit. (0, s)) llm_server_response_text) ?t2 () empty_console = (code, t3, s3, con)"
    by (metis prod_cases4)
  let ?inbox = "fst (os t3)"
  have conn: "connect_to (boxes 2) ''127.0.0.1'' 39200 ((sample_process ?inbox)\<lparr>ps_os := ([], ?inbox)\<rparr>) =
     (Some \<lparr>tcp_handle = 1, tcp_process = sample_process ?inbox\<rparr>, sample_process ?inbox)"
    using sample_connect [of 2 ?inbox] by (simp add: sample_remote_def new_remote_llm_def)
  have "code = Inr 0 \<and> (\<exists>c st. tool_agent_main (boxes 2) (\<lambda>w. (0, w)) show_nat (\<lambda>s. Inr (length s)) 0 (0x10000, 0x40000, 0x50000)
       (sample_process ?inbox) = (Inr 0, c, st) \<and> con_out c = light_run_lines show_nat 4 \<and> con_err c = [])"
    by (rule tool_agent_turns_on_light [where sent = fst and pending = snd and invar = "\<lambda>_. True"
          and ?sent2.0 = fst and ?pending2.0 = snd and ?invar2.0 = "\<lambda>_. True" and w = "([], ?inbox)" and start = 0,
        OF _ conn _ _ _ _ _ _ sv sample_link])
      (simp_all add: boxes_duplex sample_process_def)
  with sv show ?thesis by auto
qed

text \<open>When the connection fails, the program fails closed: it exits with 1, no tool has run, and
  the 89 tokens it was charged are not given back.\<close>

theorem tool_agent_fails_closed:
  assumes "clock (ps_os pr) = (start, w)" "connect_to ws ''127.0.0.1'' 39200 (pr\<lparr>ps_os := w\<rparr>) = (None, q)"
  shows "\<exists>c m b. tool_agent_main ws clock show_d stod zero places pr = (Inr 1, c, (m, b, tool_agent_remote, q)) \<and>
    con_out c = as_lines [''[agent] requesting memory-aware scheduled remote LLM decision''] \<and>
    con_err c = as_lines [''[agent] LLM failed: Failed to connect to remote LLM server''] \<and> tb_remaining_tokens b = 71"
proof -
  have "rl_host tool_agent_remote = ''127.0.0.1''" "rl_port tool_agent_remote = 39200"
    by (simp_all add: tool_agent_remote_def new_remote_llm_def)
  with assms have "remote_generate ws clock tool_agent_prompt granted_config (tool_agent_remote, pr) =
      (Inr (llm_failure BackendError ''Failed to connect to remote LLM server''), (tool_agent_remote, q))"
    by (simp add: remote_generate_def)
  from agent_generate_run [OF this, of places] show ?thesis
    by (auto simp: tool_agent_main_def tool_agent_act_def Let_def llm_failure_def llm_ok_def default_llm_result_def
        release_def charged_tokens_def tool_agent_tokens_def)
qed

theorem tool_agent_fails_closed_witness:
  "\<exists>c st. tool_agent_main ((boxes 2)\<lparr>ws_connect := \<lambda>_ _ _ w. (- 1, w)\<rparr>) (\<lambda>w. (0, w)) show_nat (\<lambda>s. Inr (length s)) 0
      (0x10000, 0x40000, 0x50000) (sample_process []) = (Inr 1, c, st)"
proof -
  let ?ws = "(boxes 2)\<lparr>ws_connect := \<lambda>_ _ _ w. (- 1, w)\<rparr>"
  have "connect_to ?ws ''127.0.0.1'' 39200 ((sample_process [])\<lparr>ps_os := ([], [])\<rparr>) = (None, sample_process [])"
    by (simp add: connect_to_def Let_def boxes_def winsock_runtime_def sample_process_def invalid_socket_def socket_error_def)
  from tool_agent_fails_closed [where clock = "\<lambda>w. (0, w)" and pr = "sample_process []" and start = 0, OF _ this,
      where show_d = show_nat and stod = "\<lambda>s. Inr (length s)" and zero = 0 and places = "(0x10000, 0x40000, 0x50000)"]
  show ?thesis by (auto simp: sample_process_def)
qed

text \<open>A request the scheduler refuses is not a refusal to act: the fallback text, which carries
  status \<open>Ok\<close> and no error, is parsed as a call of \<open>send_alert\<close>, so the program raises an alert
  with the fallback's reason and exits with 0, whatever the runtime behind the scheduler is.\<close>

theorem scheduled_fallback_raises_alert:
  assumes "budget_sane b" "spec_of (scheduled_task p c) b = None" "stod ''0.50'' = Inr d"
  shows "\<exists>res. scheduled_generate inner p c (b, s) = (Inr res, (b, s)) \<and>
    (\<exists>c' call. tool_agent_act show_d stod zero res out = (Inr 0, c') \<and> con_err c' = con_err out \<and>
      con_out c' = con_out out @ call_lines show_d scheduled_fallback_text call @
        alert_lines ''LLM request used fallback because token budget was unavailable'')"
proof -
  let ?ls = "[''tool=send_alert'', ''reason=LLM request used fallback because token budget was unavailable'', ''confidence=0.50'']"
  have u: "unlines ?ls = scheduled_fallback_text" by (simp add: scheduled_fallback_text_def unlines_def)
  have "parse_loop stod (unlines ?ls) \<lparr>tc_name = [], tc_reason = [], tc_confidence = zero\<rparr> =
      Inr \<lparr>tc_name = ''send_alert'', tc_reason = ''LLM request used fallback because token budget was unavailable'', tc_confidence = d\<rparr>"
    using assms(3)
    by (subst parse_loop_unlines [where conv = "\<lambda>_. d"])
      (simp_all add: newline_def values_of_def)
  then have "tool_call_parse stod zero scheduled_fallback_text = Inr (Some \<lparr>tc_name = ''send_alert'',
      tc_reason = ''LLM request used fallback because token budget was unavailable'', tc_confidence = d\<rparr>)"
    unfolding tool_call_parse_def u by simp
  then have "tool_call_parse stod zero (lr_text (default_llm_result\<lparr>lr_text := scheduled_fallback_text\<rparr>)) =
      Inr (Some \<lparr>tc_name = ''send_alert'',
      tc_reason = ''LLM request used fallback because token budget was unavailable'', tc_confidence = d\<rparr>)" by simp
  from act_call(2) [OF this, of show_d out] show ?thesis unfolding scheduled_generate_none [OF assms(1,2)]
    by (auto simp: llm_ok_def default_llm_result_def)
qed

theorem scheduled_fallback_raises_alert_witness:
  "\<exists>res. scheduled_generate sample_mock hello_prompt default_generation_config (sample_budget\<lparr>tb_remaining_tokens := 3\<rparr>, ()) =
      (Inr res, (sample_budget\<lparr>tb_remaining_tokens := 3\<rparr>, ())) \<and>
    fst (tool_agent_act show_nat (\<lambda>s. Inr (length s)) 0 res empty_console) = Inr 0"
proof -
  have "spec_of (scheduled_task hello_prompt default_generation_config) (sample_budget\<lparr>tb_remaining_tokens := 3\<rparr>) = None"
    by (simp add: spec_of_def schedule_spec_def scheduled_task_def sample_budget_def default_task_def
        default_generation_config_def estimate_prompt_tokens_def hello_prompt_def add_user_def add_message_def
        empty_prompt_def Let_def)
  moreover have "budget_sane (sample_budget\<lparr>tb_remaining_tokens := 3\<rparr>)" using sample_budget_sane
    by (simp add: budget_sane_def)
  ultimately show ?thesis
    using scheduled_fallback_raises_alert [of "sample_budget\<lparr>tb_remaining_tokens := 3\<rparr>" hello_prompt
        default_generation_config "\<lambda>s. Inr (length s)" 4 sample_mock "()" show_nat 0 empty_console] by auto
qed

end
