(* ===== verification/Hello_Agent.thy ===== *)
theory Hello_Agent
  imports Runtime LLM_Remote Console
begin

text \<open>
  \<open>examples/hello_agent/main.cpp\<close>: one agent, one event, over the in-memory transport, with all
  that it prints. \<open>None\<close> is a run that does not end.
\<close>

definition logger_agent :: "(unit, in_memory_transport, console) agent_ops" where
  "logger_agent = \<lparr>ag_name = (\<lambda>_. ''logger''),
     ag_on_start = (\<lambda>_ r. r\<lparr>rt_world := print_line ''[logger] started'' (rt_world r)\<rparr>),
     ag_on_message = (\<lambda>_ message r. r\<lparr>rt_world := print_line (''[logger] received: '' @ e_name (m_event message) @
        '' payload='' @ payload_as_string (m_event message) @ '' id='' @ show_nat (unat (m_id message))) (rt_world r)\<rparr>),
     ag_on_stop = (\<lambda>_ r. r\<lparr>rt_world := print_line ''[logger] stopped'' (rt_world r)\<rparr>)\<rparr>"

definition hello_agent_main ::
    "((string \<times> unit) list \<Rightarrow> (string \<times> unit) list) \<Rightarrow>
     (int \<times> (unit, in_memory_transport, console) agent_runtime) option" where
  "hello_agent_main rehash =
     (let runtime = new_runtime \<lparr>imt_queue = []\<rparr> empty_console
      in case register_agent logger_agent rehash (Some ()) runtime of (result, runtime) \<Rightarrow>
        if \<not> r_ok result
        then Some (1, runtime\<lparr>rt_cerr := rt_cerr runtime @ [r_message result]\<rparr>)
        else
          let runtime = start logger_agent runtime;
              runtime = snd (publish_event imt_send ''system'' ''logger''
                (event_text ''hello'' ''Galculus core runtime v0.1 online'') runtime)
          in case drain logger_agent imt_receive imt_empty runtime of
               None \<Rightarrow> None
             | Some runtime \<Rightarrow> Some (0, stop logger_agent runtime))"

lemma logger_world: "world_agents logger_agent (\<lambda>_. print_line ''[logger] started'')
    (\<lambda>_ message. print_line (''[logger] received: '' @ e_name (m_event message) @ '' payload='' @
       payload_as_string (m_event message) @ '' id='' @ show_nat (unat (m_id message))))
    (\<lambda>_. print_line ''[logger] stopped'')"
  by (simp add: world_agents_def logger_agent_def)

section \<open>Properties\<close>

text \<open>\<open>hello_agent\<close> ends, with exit code 0, an empty queue and nothing on standard error, having
  printed three lines: the start, the one event, numbered 1, and the stop, however the hash map
  arranges its entry.\<close>

theorem hello_agent_prints:
  assumes "\<And>xs. mset (rehash xs) = mset xs"
  shows "\<exists>r. hello_agent_main rehash = Some (0, r) \<and> imt_queue (rt_transport r) = [] \<and> rt_cerr r = [] \<and>
    con_err (rt_world r) = [] \<and> con_out (rt_world r) = as_lines [''[logger] started'',
      ''[logger] received: hello payload=Galculus core runtime v0.1 online id=1'', ''[logger] stopped'']"
proof -
  let ?m = "event_message 1 ''system'' ''logger'' (event_text ''hello'' ''Galculus core runtime v0.1 online'')"
  let ?r = "\<lparr>rt_agents = [(''logger'', ())], rt_transport = \<lparr>imt_queue = [?m]\<rparr>, rt_running = True,
    rt_next_message_id = 2, rt_world = print_line ''[logger] started'' empty_console, rt_cerr = []\<rparr>"
  have "rehash [(''logger'', ())] = [(''logger'', ())]" using assms [of "[(''logger'', ())]"] by simp
  then have "register_agent logger_agent rehash (Some ()) (new_runtime \<lparr>imt_queue = []\<rparr> empty_console) =
      (result_success, (new_runtime \<lparr>imt_queue = []\<rparr> empty_console)\<lparr>rt_agents := [(''logger'', ())]\<rparr>)"
    by (simp add: register_agent_def logger_agent_def has_agent_def new_runtime_def)
  then have m: "hello_agent_main rehash = (case drain logger_agent imt_receive imt_empty ?r of
      None \<Rightarrow> None | Some runtime \<Rightarrow> Some (0, stop logger_agent runtime))"
    by (simp add: hello_agent_main_def start_world [OF logger_world] new_runtime_def publish_event_def
        next_message_id_def rt_send_def imt_send_def Let_def)
  have "addressable (rt_agents ?r) ?m" by (simp add: addressable_def)
  moreover obtain t where "imt_queue t = tl (dropWhile (addressable (rt_agents ?r)) [?m])"
    "drain logger_agent imt_receive imt_empty ?r = Some (?r\<lparr>rt_transport := t,
      rt_world := fold (deliver (\<lambda>_ message. print_line (''[logger] received: '' @ e_name (m_event message) @ '' payload='' @
         payload_as_string (m_event message) @ '' id='' @ show_nat (unat (m_id message)))) (rt_agents ?r))
        (takeWhile (addressable (rt_agents ?r)) [?m]) (rt_world ?r),
      rt_cerr := rt_cerr ?r @ (case dropWhile (addressable (rt_agents ?r)) [?m] of [] \<Rightarrow> []
         | m # _ \<Rightarrow> [''[Galculus] runtime error: unknown target agent: '' @ m_target m])\<rparr>)"
    using rt_imt.drain_delivers [OF logger_world TrueI, of ?r "[?m]"] by auto
  ultimately show ?thesis unfolding m
    by (simp add: stop_world [OF logger_world] deliver_def show_one payload_as_string_def event_text_def)
qed

theorem hello_agent_prints_witness:
  "\<exists>r. hello_agent_main rev = Some (0, r) \<and> imt_queue (rt_transport r) = []"
  using hello_agent_prints [of rev] by auto

end
