(* ===== verification/Tcp_Nodes.thy ===== *)
theory Tcp_Nodes
  imports LLM_Remote Console
begin

text \<open>
  \<open>examples/tcp_nodes\<close>: a client that sends one event over TCP and waits for the answer, and the
  server that acknowledges it, with all that they print. The transport, and with it the socket,
  is destroyed when \<open>main\<close> returns.
\<close>

section \<open>The client\<close>

definition node_message :: message where
  "node_message = text_event 1 ''client.sensor'' ''server.planner'' ''motion_detected'' ''person at door''"

definition node_client_exchange ::
    "'w winsock \<Rightarrow> 'w tcp_byte_transport \<Rightarrow> console \<Rightarrow> int \<times> 'w tcp_byte_transport \<times> console" where
  "node_client_exchange ws t c =
     (case framed_send (tcp_send_bytes ws) node_message t of (sent, t) \<Rightarrow>
        if \<not> sent then (1, t, complain ''[client] failed to send message'' c)
        else
          let c = print_line ''[client] message sent'' c
          in case framed_receive (tcp_receive_bytes ws) t of
               (None, t) \<Rightarrow> (1, t, complain ''[client] failed to receive reply'' c)
             | (Some reply, t) \<Rightarrow>
                 let c = print_line ''[client] received reply'' c;
                     c = print_line (''  event: '' @ e_name (m_event reply)) c;
                     c = print_line (''  payload: '' @ payload_as_string (m_event reply)) c
                 in (0, t, c))"

definition node_client_main :: "'w winsock \<Rightarrow> 'w process \<Rightarrow> int \<times> 'w process \<times> console" where
  "node_client_main ws p =
     (let c = print_line (''[client] connecting to 127.0.0.1:'' @ show_nat 39100) empty_console
      in case connect_to ws ''127.0.0.1'' 39100 p of
           (None, p) \<Rightarrow> (1, p, complain ''[client] failed to connect'' c)
         | (Some t, _) \<Rightarrow>
             case node_client_exchange ws t c of (code, t, c) \<Rightarrow> (code, close_process ws t, c))"

section \<open>The server\<close>

definition node_server_exchange ::
    "'w winsock \<Rightarrow> 'w tcp_byte_transport \<Rightarrow> console \<Rightarrow> int \<times> 'w tcp_byte_transport \<times> console" where
  "node_server_exchange ws t c =
     (case framed_receive (tcp_receive_bytes ws) t of
        (None, t) \<Rightarrow> (1, t, complain ''[server] failed to receive message'' c)
      | (Some message, t) \<Rightarrow>
          let c = print_line ''[server] received message'' c;
              c = print_line (''  id: '' @ show_nat (unat (m_id message))) c;
              c = print_line (''  source: '' @ m_source message) c;
              c = print_line (''  target: '' @ m_target message) c;
              c = print_line (''  event: '' @ e_name (m_event message)) c;
              c = print_line (''  payload: '' @ payload_as_string (m_event message)) c;
              reply = text_event 2 ''server'' (m_source message) ''ack'' ''message received''
          in case framed_send (tcp_send_bytes ws) reply t of (sent, t) \<Rightarrow>
               if \<not> sent then (1, t, complain ''[server] failed to send reply'' c)
               else (0, t, print_line ''[server] reply sent'' c))"

definition node_server_main :: "'w winsock \<Rightarrow> 'w process \<Rightarrow> int \<times> 'w process \<times> console" where
  "node_server_main ws p =
     (let c = print_line (''[server] listening on port '' @ show_nat 39100) empty_console
      in case listen_once ws 39100 p of
           (None, p) \<Rightarrow> (1, p, complain ''[server] failed to listen'' c)
         | (Some t, _) \<Rightarrow>
             case node_server_exchange ws t (print_line ''[server] client connected'' c) of
               (code, t, c) \<Rightarrow> (code, close_process ws t, c))"

section \<open>One exchange over sockets in order\<close>

text \<open>Sending over a duplex socket, then receiving what its peer has sent.\<close>

lemma duplex_send:
  assumes "duplex_socket ws (tcp_handle t) sent pending invar" "invar (os t)" "tcp_fits m"
  shows "\<exists>t'. framed_send (tcp_send_bytes ws) m t = (True, t') \<and> tcp_handle t' = tcp_handle t \<and> invar (os t') \<and>
    sent (os t') = sent (os t) @ wire_encode m"
  using tcp_framed_send [OF duplexD(2) [OF assms(1)] assms(2) duplexD(1) [OF assms(1)] assms(3)] by auto

lemma duplex_receive:
  assumes "duplex_socket ws (tcp_handle t) sent pending invar" "invar (os t)" "tcp_fits m"
    and "pending (os t) = wire_encode m @ rest"
  shows "\<exists>t'. framed_receive (tcp_receive_bytes ws) t = (Some m, t') \<and> tcp_handle t' = tcp_handle t \<and> invar (os t') \<and>
    sent (os t') = sent (os t) \<and> pending (os t') = rest"
  using tcp_framed_receive [OF duplexD(3) [OF assms(1), of "sent (os t)"] _ duplexD(1) [OF assms(1)] assms(3,4)] assms(2)
  by auto

definition node_reply :: message where
  "node_reply = text_event 2 ''server'' ''client.sensor'' ''ack'' ''message received''"

lemma node_messages_fit: "tcp_fits node_message" "tcp_fits node_reply"
  by (simp_all add: tcp_fits_def length_protocol_encode node_message_def node_reply_def text_event_def event_text_def)

lemma server_exchange:
  assumes "duplex_socket ws (tcp_handle t) sent pending invar" "invar (os t)"
    and "pending (os t) = wire_encode node_message @ rest"
  shows "\<exists>t' c'. node_server_exchange ws t c = (0, t', c') \<and> sent (os t') = sent (os t) @ wire_encode node_reply \<and>
    con_err c' = con_err c \<and> con_out c' = con_out c @ as_lines [''[server] received message'', ''  id: 1'',
      ''  source: client.sensor'', ''  target: server.planner'', ''  event: motion_detected'',
      ''  payload: person at door'', ''[server] reply sent'']"
proof -
  obtain t1 where t1: "framed_receive (tcp_receive_bytes ws) t = (Some node_message, t1)" "tcp_handle t1 = tcp_handle t"
    "invar (os t1)" "sent (os t1) = sent (os t)"
    using duplex_receive [OF assms(1,2) node_messages_fit(1) assms(3)] by auto
  obtain t2 where t2: "framed_send (tcp_send_bytes ws) node_reply t1 = (True, t2)"
    "sent (os t2) = sent (os t) @ wire_encode node_reply"
    using duplex_send [of ws t1 sent pending invar, OF _ t1(3) node_messages_fit(2)] assms(1) t1(2,4) by auto
  have s: "m_source node_message = ''client.sensor''" "m_target node_message = ''server.planner''" "m_id node_message = 1"
    "m_event node_message = event_text ''motion_detected'' ''person at door''" "e_name (event_text n s) = n" for n s
    by (simp_all add: node_message_def text_event_def event_text_def)
  show ?thesis using t1(1) t2
    by (simp add: node_server_exchange_def Let_def s node_reply_def [symmetric] show_one)
qed

lemma client_exchange:
  assumes "duplex_socket ws (tcp_handle t) sent pending invar" "invar (os t)"
    and "\<And>t1. framed_send (tcp_send_bytes ws) node_message t = (True, t1) \<Longrightarrow> pending (os t1) = wire_encode node_reply @ rest"
  shows "\<exists>t' c'. node_client_exchange ws t c = (0, t', c') \<and>
    con_err c' = con_err c \<and> con_out c' = con_out c @ as_lines [''[client] message sent'', ''[client] received reply'',
      ''  event: ack'', ''  payload: message received'']"
proof -
  obtain t1 where t1: "framed_send (tcp_send_bytes ws) node_message t = (True, t1)" "tcp_handle t1 = tcp_handle t" "invar (os t1)"
    using duplex_send [OF assms(1,2) node_messages_fit(1)] by auto
  obtain t2 where t2: "framed_receive (tcp_receive_bytes ws) t1 = (Some node_reply, t2)"
    using duplex_receive [of ws t1 sent pending invar, OF _ t1(3) node_messages_fit(2) assms(3) [OF t1(1)]] assms(1) t1(2)
    by auto
  have s: "m_event node_reply = event_text ''ack'' ''message received''" "e_name (event_text n s) = n" for n s
    by (simp_all add: node_reply_def text_event_def event_text_def)
  show ?thesis using t1(1) t2 by (simp add: node_client_exchange_def Let_def s)
qed

section \<open>Properties\<close>

text \<open>C26: The two programs of \<open>tcp_nodes\<close> understand each other: over sockets that carry bytes in order,
  however the calls split them, the server prints the client's event, its id, source and
  target, and acknowledges it to its source, the client prints the acknowledgement, and both
  exit with 0 and write nothing to standard error.\<close>

theorem tcp_nodes_exchange:
  assumes conn: "connect_to ws ''127.0.0.1'' 39100 p = (Some t, q)"
    and client: "duplex_socket ws (tcp_handle t) sent pending invar" "invar (os t)" "sent (os t) = []"
    and server: "duplex_socket ws2 (tcp_handle t2) sent2 pending2 invar2" "invar2 (os t2)" "sent2 (os t2) = []"
    and serve: "node_server_exchange ws2 t2 empty_console = (code2, t3, c2)"
    and linked: "\<And>t1. framed_send (tcp_send_bytes ws) node_message t = (True, t1) \<Longrightarrow>
      pending2 (os t2) = sent (os t1) \<and> pending (os t1) = sent2 (os t3)"
  shows "(\<exists>p' c. node_client_main ws p = (0, p', c) \<and> con_err c = [] \<and>
      con_out c = as_lines [''[client] connecting to 127.0.0.1:'' @ show_nat 39100, ''[client] message sent'',
        ''[client] received reply'', ''  event: ack'', ''  payload: message received'']) \<and>
    code2 = 0 \<and> con_err c2 = [] \<and> con_out c2 = as_lines [''[server] received message'', ''  id: 1'',
      ''  source: client.sensor'', ''  target: server.planner'', ''  event: motion_detected'',
      ''  payload: person at door'', ''[server] reply sent'']"
proof -
  obtain t1 where t1: "framed_send (tcp_send_bytes ws) node_message t = (True, t1)" "sent (os t1) = wire_encode node_message"
    using duplex_send [OF client(1,2) node_messages_fit(1)] client(3) by auto
  from linked [OF t1(1)] t1(2) have "pending2 (os t2) = wire_encode node_message @ []" by simp
  from server_exchange [OF server(1,2) this, of empty_console] serve server(3)
  have s: "code2 = 0" "sent2 (os t3) = wire_encode node_reply" "con_err c2 = []"
    "con_out c2 = as_lines [''[server] received message'', ''  id: 1'', ''  source: client.sensor'',
      ''  target: server.planner'', ''  event: motion_detected'', ''  payload: person at door'', ''[server] reply sent'']"
    by auto
  have l: "pending (os t1) = wire_encode node_reply @ []"
    if "framed_send (tcp_send_bytes ws) node_message t = (True, t1)" for t1
    using linked [OF that] s(2) by simp
  from client_exchange [OF client(1,2) l, of "print_line (''[client] connecting to 127.0.0.1:'' @ show_nat 39100) empty_console"]
  obtain t' c' where "node_client_exchange ws t (print_line (''[client] connecting to 127.0.0.1:'' @ show_nat 39100) empty_console) = (0, t', c')"
    "con_err c' = []" "con_out c' = as_lines [''[client] connecting to 127.0.0.1:'' @ show_nat 39100, ''[client] message sent'',
        ''[client] received reply'', ''  event: ack'', ''  payload: message received'']" by auto
  with conn s show ?thesis by (simp add: node_client_main_def)
qed

theorem tcp_nodes_exchange_witness:
  "\<exists>c2 t3 p' c. node_server_exchange (boxes 4) \<lparr>tcp_handle = 1, tcp_process = sample_process (wire_encode node_message)\<rparr>
      empty_console = (0, t3, c2) \<and>
    node_client_main (boxes 3) (sample_process (fst (os t3))) = (0, p', c) \<and>
    con_out c = as_lines [''[client] connecting to 127.0.0.1:'' @ show_nat 39100, ''[client] message sent'',
      ''[client] received reply'', ''  event: ack'', ''  payload: message received'']"
proof -
  let ?t2 = "\<lparr>tcp_handle = 1, tcp_process = sample_process (wire_encode node_message)\<rparr>"
  obtain code2 t3 c2 where sv: "node_server_exchange (boxes 4) ?t2 empty_console = (code2, t3, c2)" by (metis prod_cases3)
  let ?t = "\<lparr>tcp_handle = 1, tcp_process = sample_process (fst (os t3))\<rparr>"
  have conn: "connect_to (boxes 3) ''127.0.0.1'' 39100 (sample_process (fst (os t3))) = (Some ?t, sample_process (fst (os t3)))"
    by (simp add: connect_to_def Let_def boxes_def winsock_runtime_def sample_process_def new_tcp_byte_transport_def
        invalid_socket_def socket_error_def)
  have d: "duplex_socket (boxes 3) (tcp_handle ?t) fst snd (\<lambda>_. True)" "duplex_socket (boxes 4) (tcp_handle ?t2) fst snd (\<lambda>_. True)"
    by (simp_all add: boxes_duplex)
  have l: "snd (os ?t2) = fst (os t1) \<and> snd (os t1) = fst (os t3)"
    if "framed_send (tcp_send_bytes (boxes 3)) node_message ?t = (True, t1)" for t1
    using that sample_link [OF that] duplex_send [OF d(1) TrueI node_messages_fit(1)]
    by (auto simp: sample_process_def)
  from tcp_nodes_exchange [where sent = fst and pending = snd and invar = "\<lambda>_. True" and ?sent2.0 = fst
      and ?pending2.0 = snd and ?invar2.0 = "\<lambda>_. True", OF conn d(1) TrueI _ d(2) TrueI _ sv l] sv
  show ?thesis by (auto simp: sample_process_def)
qed

end
