(* ===== verification/LLM_Programs.thy ===== *)
theory LLM_Programs
  imports LLM_Scheduled Tcp_Nodes
begin

text \<open>
  The example programs around language models, with all that they print: \<open>llm_client\<close>, which
  speaks the protocol of \<open>llm_bridge\<close> itself, \<open>remote_llm_client\<close>, which uses \<open>RemoteLLM\<close>, and
  \<open>scheduled_llm_demo\<close>. The result is the exit code or the exception that escapes \<open>main\<close>.
\<close>

section \<open>The programs\<close>

definition planner_prompt :: prompt where
  "planner_prompt = add_user ''Motion detected at the front door. Decide action.''
     (add_system ''You are a safe embedded device planner.'' empty_prompt)"

definition llm_client_request :: llm_request where
  "llm_client_request = \<lparr>rq_request_id = ''req-llm-1'', rq_prompt = planner_prompt,
     rq_config = default_generation_config\<lparr>gc_max_tokens := 32, gc_temperature := 0x3DCCCCCD,
       gc_top_p := 0x3F666666, gc_timeout_ms := 1000, gc_stream := False\<rparr>\<rparr>"

definition llm_client_message :: message where
  "llm_client_message = encode_request llm_client_request ''llm.client'' ''llm.server''"

definition llm_client_exchange ::
    "'w winsock \<Rightarrow> 'w tcp_byte_transport \<Rightarrow> console \<Rightarrow> (cpp_exception + int) \<times> 'w tcp_byte_transport \<times> console" where
  "llm_client_exchange ws t c =
     (let c = print_line ''[llm-client] sending LLM_REQUEST'' c
      in case framed_send (tcp_send_bytes ws) llm_client_message t of (sent, t) \<Rightarrow>
        if \<not> sent then (Inr 1, t, complain ''[llm-client] failed to send request'' c)
        else case framed_receive (tcp_receive_bytes ws) t of
          (None, t) \<Rightarrow> (Inr 1, t, complain ''[llm-client] failed to receive response'' c)
        | (Some received, t) \<Rightarrow>
            let c = print_line (''[llm-client] received event: '' @ e_name (m_event received)) c
            in if e_name (m_event received) \<noteq> ''LLM_RESPONSE''
               then (Inr 1, t, complain ''[llm-client] expected LLM_RESPONSE'' c)
               else case decode_response received of
                 Inl e \<Rightarrow> (Inl e, t, c)
               | Inr response \<Rightarrow>
                   let c = print_line (''[llm-client] request id: '' @ rp_request_id response) c;
                       c = print_line (''[llm-client] result: '' @ lr_text (rp_result response)) c;
                       c = print_line (''[llm-client] prompt tokens: '' @
                         show_nat (unat (lr_prompt_tokens (rp_result response)))) c;
                       c = print_line (''[llm-client] completion tokens: '' @
                         show_nat (unat (lr_completion_tokens (rp_result response)))) c
                   in (Inr 0, t, c))"

definition llm_client_main ::
    "'w winsock \<Rightarrow> 'w process \<Rightarrow> (cpp_exception + int) \<times> 'w process \<times> console" where
  "llm_client_main ws p =
     (let c = print_line (''[llm-client] connecting to 127.0.0.1:'' @ show_nat 39200) empty_console
      in case connect_to ws ''127.0.0.1'' 39200 p of
           (None, p) \<Rightarrow> (Inr 1, p, complain ''[llm-client] failed to connect'' c)
         | (Some t, _) \<Rightarrow>
             case llm_client_exchange ws t c of (code, t, c) \<Rightarrow> (code, close_process ws t, c))"

definition remote_client_config :: generation_config where
  "remote_client_config = default_generation_config\<lparr>gc_max_tokens := 32, gc_temperature := 0x3DCCCCCD\<rparr>"

definition remote_client_llm :: remote_llm where
  "remote_client_llm = new_remote_llm ''127.0.0.1'' 39200 ''remote_llm.example_client'' ''llm.server''"

definition remote_client_main ::
    "'w winsock \<Rightarrow> ('w \<Rightarrow> int \<times> 'w) \<Rightarrow> 'w process \<Rightarrow> (cpp_exception + int) \<times> 'w process \<times> console" where
  "remote_client_main ws clock p =
     (case remote_generate ws clock planner_prompt remote_client_config (remote_client_llm, p) of
        (Inl e, (_, p)) \<Rightarrow> (Inl e, p, empty_console)
      | (Inr result, (_, p)) \<Rightarrow>
          if \<not> llm_ok result
          then (Inr 1, p, complain (''[remote-llm-client] failed: '' @ lr_error_message result) empty_console)
          else
            let c = print_line (''[remote-llm-client] result: '' @ lr_text result) empty_console;
                c = print_line (''[remote-llm-client] prompt tokens: '' @ show_nat (unat (lr_prompt_tokens result))) c;
                c = print_line (''[remote-llm-client] completion tokens: '' @ show_nat (unat (lr_completion_tokens result))) c
            in (Inr 0, p, c))"

definition demo_tokens :: token_budget where
  "demo_tokens = \<lparr>tb_max_prompt_tokens = 128, tb_max_completion_tokens = 16, tb_remaining_tokens = 144\<rparr>"

definition demo_prompt :: prompt where
  "demo_prompt = add_user ''Motion detected near the door. Decide what tool to call.''
     (add_system ''You are a safe embedded planner.'' empty_prompt)"

definition demo_config :: generation_config where
  "demo_config = default_generation_config\<lparr>gc_max_tokens := 64, gc_temperature := 0x3DCCCCCD,
     gc_top_p := 0x3F666666, gc_timeout_ms := 1000, gc_stream := False\<rparr>"

definition default_response :: string where "default_response = ''mock response''"

definition scheduled_demo_main ::
    "('s \<Rightarrow> int \<times> 's) \<Rightarrow> 's \<Rightarrow> (cpp_exception + int) \<times> (token_budget \<times> 's) \<times> console" where
  "scheduled_demo_main clock s =
     (case scheduled_generate (mock_generate clock default_response) demo_prompt demo_config (demo_tokens, s) of
        (Inl e, st) \<Rightarrow> (Inl e, st, empty_console)
      | (Inr result, st) \<Rightarrow>
          let c = print_line (''[scheduled demo] backend: '' @ scheduled_name mock_name) empty_console;
              c = print_line (''[scheduled demo] error: '' @ lr_error_message result) c;
              c = print_line ''[scheduled demo] text:'' c;
              c = print_line (lr_text result) c
          in (Inr (if lr_error_message result = [] then 0 else 1), st, c))"

section \<open>Lemmas\<close>

lemma demo_estimate: "estimate_prompt_tokens demo_prompt = 22"
  by (simp add: estimate_prompt_tokens_def demo_prompt_def add_user_def add_system_def add_message_def
      empty_prompt_def Let_def)

lemma demo_words:
  "count_words (prompt_to_string demo_prompt) = 18" "count_words default_response = 2"
proof -
  have "prompt_to_string demo_prompt = ''system: You are a safe embedded planner.'' @ [newline] @
      ''user: Motion detected near the door. Decide what tool to call.'' @ [newline]"
    by (simp add: prompt_to_string_def demo_prompt_def add_user_def add_system_def add_message_def empty_prompt_def
        role_to_string_def)
  then show "count_words (prompt_to_string demo_prompt) = 18"
    by (simp add: count_words_def count_words_loop.simps next_word_def is_space_def newline_def)
  show "count_words default_response = 2"
    by (simp add: default_response_def count_words_def count_words_loop.simps next_word_def is_space_def)
qed

lemma show_small:
  "show_nat 2 = ''2''" "show_nat 6 = ''6''" "show_nat 17 = ''17''"
proof -
  have c: "char_of (49 :: nat) = CHR ''1''" "char_of (50 :: nat) = CHR ''2''" "char_of (54 :: nat) = CHR ''6''"
    "char_of (55 :: nat) = CHR ''7''" by code_simp+
  show "show_nat 2 = ''2''" "show_nat 6 = ''6''" by (simp_all add: show_nat.simps c)
  show "show_nat 17 = ''17''" by (simp add: show_nat.simps [of 17] show_one c)
qed

lemma planner_words:
  "count_words (prompt_to_string planner_prompt) = 17" "count_words llm_server_response_text = 6"
proof -
  have "prompt_to_string planner_prompt = ''system: You are a safe embedded device planner.'' @ [newline] @
      ''user: Motion detected at the front door. Decide action.'' @ [newline]"
    by (simp add: prompt_to_string_def planner_prompt_def add_user_def add_system_def add_message_def empty_prompt_def
        role_to_string_def)
  then show "count_words (prompt_to_string planner_prompt) = 17"
    by (simp add: count_words_def count_words_loop.simps next_word_def is_space_def newline_def)
  show "count_words llm_server_response_text = 6"
    by (simp add: llm_server_response_text_def count_words_def count_words_loop.simps next_word_def is_space_def newline_def)
qed

text \<open>What the server's runtime answers to this prompt, up to the time it took.\<close>

definition planner_result :: "u32 \<Rightarrow> llm_result" where
  "planner_result e = default_llm_result\<lparr>lr_text := llm_server_response_text, lr_prompt_tokens := 17,
     lr_completion_tokens := 6, lr_elapsed_ms := e\<rparr>"

lemma planner_generate:
  "\<exists>e s'. mock_generate clock llm_server_response_text planner_prompt c s = (Inr (planner_result e), s')"
  by (simp add: mock_generate_def case_prod_unfold Let_def planner_result_def planner_words default_llm_result_def)
    (simp add: planner_prompt_def add_user_def add_system_def add_message_def)

lemma server_text_length: "length llm_server_response_text < 100"
  by (simp add: llm_server_response_text_def)

lemma planner_response_fits:
  "length i < 100 \<Longrightarrow> response_fits \<lparr>rp_request_id = i, rp_result = planner_result e\<rparr>"
  "length i < 100 \<Longrightarrow> length client < 100 \<Longrightarrow>
     tcp_fits (encode_response \<lparr>rp_request_id = i, rp_result = planner_result e\<rparr> ''llm.server'' client)"
  using server_text_length
  by (simp_all add: response_fits_def fits32_def tcp_fits_def length_protocol_encode encode_response_def length_response
      planner_result_def default_llm_result_def)

lemma planner_request_fits:
  "length i < 100 \<Longrightarrow> request_small \<lparr>rq_request_id = i, rq_prompt = planner_prompt, rq_config = c\<rparr>"
  "length i < 100 \<Longrightarrow> length a < 100 \<Longrightarrow> length b < 100 \<Longrightarrow>
     tcp_fits (encode_request \<lparr>rq_request_id = i, rq_prompt = planner_prompt, rq_config = c\<rparr> a b)"
  by (simp_all add: request_small_def request_fits_def prompt_fits_def fits32_def planner_prompt_def add_user_def
      add_system_def add_message_def empty_prompt_def vec_ok_def encode_request_payload_eq request_bytes_def
      message_bytes_def tcp_fits_def length_protocol_encode encode_request_def)

definition llm_client_reply :: "u32 \<Rightarrow> llm_response" where
  "llm_client_reply e = \<lparr>rp_request_id = ''req-llm-1'', rp_result = planner_result e\<rparr>"

lemma llm_client_receives:
  assumes "duplex_socket ws (tcp_handle t) sent pending invar" "invar (os t)"
    and "\<And>t1. framed_send (tcp_send_bytes ws) llm_client_message t = (True, t1) \<Longrightarrow>
      pending (os t1) = wire_encode (encode_response (llm_client_reply e) ''llm.server'' ''llm.client'') @ rest"
  shows "\<exists>t' c'. llm_client_exchange ws t c = (Inr 0, t', c') \<and> con_err c' = con_err c \<and>
    con_out c' = con_out c @ as_lines [''[llm-client] sending LLM_REQUEST'', ''[llm-client] received event: LLM_RESPONSE'',
      ''[llm-client] request id: req-llm-1'', ''[llm-client] result: '' @ llm_server_response_text,
      ''[llm-client] prompt tokens: 17'', ''[llm-client] completion tokens: 6'']"
proof -
  let ?m = "encode_response (llm_client_reply e) ''llm.server'' ''llm.client''"
  have fit: "tcp_fits llm_client_message" "tcp_fits ?m" "response_fits (llm_client_reply e)"
    by (simp_all add: llm_client_message_def llm_client_request_def llm_client_reply_def planner_request_fits
        planner_response_fits)
  obtain t1 where t1: "framed_send (tcp_send_bytes ws) llm_client_message t = (True, t1)" "tcp_handle t1 = tcp_handle t"
    "invar (os t1)" using duplex_send [OF assms(1,2) fit(1)] by auto
  obtain t2 where t2: "framed_receive (tcp_receive_bytes ws) t1 = (Some ?m, t2)"
    using duplex_receive [of ws t1 sent pending invar, OF _ t1(3) fit(2) assms(3) [OF t1(1)]] assms(1) t1(2) by auto
  have r: "rp_request_id (llm_client_reply e) = ''req-llm-1''" "lr_text (rp_result (llm_client_reply e)) = llm_server_response_text"
    "lr_prompt_tokens (rp_result (llm_client_reply e)) = 17" "lr_completion_tokens (rp_result (llm_client_reply e)) = 6"
    by (simp_all add: llm_client_reply_def planner_result_def)
  show ?thesis using t1(1) t2 decode_encode_response [OF fit(3)]
    by (simp add: llm_client_exchange_def Let_def r show_small)
qed

lemma planner_served:
  "served_lines llm_client_request (planner_result e) = as_lines [''[llm-server] received event: LLM_REQUEST'',
     ''[llm-server] request id: req-llm-1'', ''[llm-server] prompt:'', prompt_to_string planner_prompt,
     ''[llm-server] response sent: '' @ llm_server_response_text]"
  "served_lines (next_request remote_client_llm planner_prompt remote_client_config) (planner_result e) =
     as_lines [''[llm-server] received event: LLM_REQUEST'',
       ''[llm-server] request id: remote-llm-req-1'', ''[llm-server] prompt:'', prompt_to_string planner_prompt,
       ''[llm-server] response sent: '' @ llm_server_response_text]"
  by (simp_all add: served_lines_def llm_client_request_def next_request_def next_request_id_def remote_client_llm_def
      new_remote_llm_def show_one planner_result_def)

lemma remote_client_fits:
  "request_small (next_request remote_client_llm planner_prompt remote_client_config)"
  "tcp_fits (request_message remote_client_llm planner_prompt remote_client_config)"
  "response_fits \<lparr>rp_request_id = fst (next_request_id remote_client_llm), rp_result = planner_result e\<rparr>"
  "tcp_fits (response_message (next_request remote_client_llm planner_prompt remote_client_config)
     (planner_result e) (rl_source remote_client_llm))"
proof -
  have "fst (next_request_id remote_client_llm) = ''remote-llm-req-1''" "length (rl_source remote_client_llm) < 100"
    "length (rl_target remote_client_llm) < 100"
    by (simp_all add: next_request_id_def remote_client_llm_def new_remote_llm_def show_one)
  then show "request_small (next_request remote_client_llm planner_prompt remote_client_config)"
    "tcp_fits (request_message remote_client_llm planner_prompt remote_client_config)"
    "response_fits \<lparr>rp_request_id = fst (next_request_id remote_client_llm), rp_result = planner_result e\<rparr>"
    "tcp_fits (response_message (next_request remote_client_llm planner_prompt remote_client_config)
       (planner_result e) (rl_source remote_client_llm))"
    by (simp_all add: next_request_def request_message_def response_message_def planner_request_fits planner_response_fits)
qed

section \<open>Properties\<close>

text \<open>C19: Run against \<open>llm_server\<close> over sockets that carry bytes in order, \<open>llm_client\<close> prints the
  server's answer under its own request id, with 17 prompt and 6 completion tokens, the server
  prints the request and what it answered, and both programs exit with 0.\<close>

theorem llm_client_server_exchange:
  assumes conn: "connect_to ws ''127.0.0.1'' 39200 p = (Some t, q)"
    and client: "duplex_socket ws (tcp_handle t) sent pending invar" "invar (os t)" "sent (os t) = []"
    and server: "duplex_socket ws2 (tcp_handle t2) sent2 pending2 invar2" "invar2 (os t2)" "sent2 (os t2) = []"
    and serve: "serve_connection ws2 (mock_generate clock llm_server_response_text) t2 s con = (code, t3, s3, con3)"
    and linked: "\<And>t1. framed_send (tcp_send_bytes ws) llm_client_message t = (True, t1) \<Longrightarrow>
      pending2 (os t2) = sent (os t1) \<and> pending (os t1) = sent2 (os t3)"
  shows "code = Inr 0 \<and> con_err con3 = con_err con \<and>
    con_out con3 = con_out con @ as_lines [''[llm-server] received event: LLM_REQUEST'',
      ''[llm-server] request id: req-llm-1'', ''[llm-server] prompt:'', prompt_to_string planner_prompt,
      ''[llm-server] response sent: '' @ llm_server_response_text] \<and>
    (\<exists>p' c. llm_client_main ws p = (Inr 0, p', c) \<and> con_err c = [] \<and>
    con_out c = as_lines [''[llm-client] connecting to 127.0.0.1:'' @ show_nat 39200, ''[llm-client] sending LLM_REQUEST'',
      ''[llm-client] received event: LLM_RESPONSE'', ''[llm-client] request id: req-llm-1'',
      ''[llm-client] result: '' @ llm_server_response_text,
      ''[llm-client] prompt tokens: 17'', ''[llm-client] completion tokens: 6''])"
proof -
  have fit: "request_small llm_client_request" "tcp_fits llm_client_message"
    by (simp_all add: llm_client_message_def llm_client_request_def planner_request_fits)
  obtain t1 where t1: "framed_send (tcp_send_bytes ws) llm_client_message t = (True, t1)" "sent (os t1) = wire_encode llm_client_message"
    using duplex_send [OF client(1,2) fit(2)] client(3) by auto
  from linked [OF t1(1)] t1(2) have p2: "pending2 (os t2) = wire_encode (encode_request llm_client_request ''llm.client'' ''llm.server'') @ []"
    by (simp add: llm_client_message_def)
  obtain e s' where g: "mock_generate clock llm_server_response_text (rq_prompt llm_client_request) (rq_config llm_client_request) s =
      (Inr (planner_result e), s')"
    using planner_generate [of clock "rq_config llm_client_request" s] by (auto simp: llm_client_request_def)
  have m: "response_message llm_client_request (planner_result e) ''llm.client'' =
      encode_response (llm_client_reply e) ''llm.server'' ''llm.client''"
    by (simp add: response_message_def llm_client_reply_def llm_client_request_def)
  have f: "tcp_fits (response_message llm_client_request (planner_result e) ''llm.client'')"
    unfolding m by (simp add: llm_client_reply_def planner_response_fits)
  from serve_connection_answers [where gen = "mock_generate clock llm_server_response_text" and s = s,
      OF server(1,2) fit(1) fit(2) [unfolded llm_client_message_def] p2 g f, of con] serve server(3)
  have s: "code = Inr 0" "con_err con3 = con_err con"
    "con_out con3 = con_out con @ served_lines llm_client_request (planner_result e)"
    "sent2 (os t3) = wire_encode (encode_response (llm_client_reply e) ''llm.server'' ''llm.client'')"
    by (auto simp: m)
  have l: "pending (os t1) = wire_encode (encode_response (llm_client_reply e) ''llm.server'' ''llm.client'') @ []"
    if "framed_send (tcp_send_bytes ws) llm_client_message t = (True, t1)" for t1
    using linked [OF that] s(4) by simp
  let ?c = "print_line (''[llm-client] connecting to 127.0.0.1:'' @ show_nat 39200) empty_console"
  obtain t' c' where x: "llm_client_exchange ws t ?c = (Inr 0, t', c')" "con_err c' = con_err ?c"
    "con_out c' = con_out ?c @ as_lines [''[llm-client] sending LLM_REQUEST'', ''[llm-client] received event: LLM_RESPONSE'',
      ''[llm-client] request id: req-llm-1'', ''[llm-client] result: '' @ llm_server_response_text,
      ''[llm-client] prompt tokens: 17'', ''[llm-client] completion tokens: 6'']"
    using llm_client_receives [OF client(1,2) l, of ?c] by blast
  then have "llm_client_main ws p = (Inr 0, close_process ws t', c')" using conn by (simp add: llm_client_main_def)
  with x s(1,2) s(3) [unfolded planner_served] show ?thesis by simp
qed

theorem llm_client_server_exchange_witness:
  "\<exists>t3 s3 con p' c. serve_connection (boxes 3) (mock_generate (\<lambda>s. (0, s)) llm_server_response_text)
      \<lparr>tcp_handle = 1, tcp_process = sample_process (wire_encode llm_client_message)\<rparr> () empty_console = (Inr 0, t3, s3, con) \<and>
    llm_client_main (boxes 2) (sample_process (fst (os t3))) = (Inr 0, p', c) \<and> con_err c = []"
proof -
  let ?t2 = "\<lparr>tcp_handle = 1, tcp_process = sample_process (wire_encode llm_client_message)\<rparr>"
  obtain code t3 s3 con where sv: "serve_connection (boxes 3) (mock_generate (\<lambda>s :: unit. (0, s)) llm_server_response_text) ?t2 () empty_console = (code, t3, s3, con)"
    by (metis prod_cases4)
  let ?t = "\<lparr>tcp_handle = 1, tcp_process = sample_process (fst (os t3))\<rparr>"
  have conn: "connect_to (boxes 2) ''127.0.0.1'' 39200 (sample_process (fst (os t3))) = (Some ?t, sample_process (fst (os t3)))"
    by (simp add: connect_to_def Let_def boxes_def winsock_runtime_def sample_process_def new_tcp_byte_transport_def
        invalid_socket_def socket_error_def)
  have d: "duplex_socket (boxes 2) (tcp_handle ?t) fst snd (\<lambda>_. True)" "duplex_socket (boxes 3) (tcp_handle ?t2) fst snd (\<lambda>_. True)"
    by (simp_all add: boxes_duplex)
  have fit: "tcp_fits llm_client_message"
    by (simp add: llm_client_message_def llm_client_request_def planner_request_fits)
  have l: "snd (os ?t2) = fst (os t1) \<and> snd (os t1) = fst (os t3)"
    if "framed_send (tcp_send_bytes (boxes 2)) llm_client_message ?t = (True, t1)" for t1
    using that sample_link [OF that] duplex_send [OF d(1) TrueI fit] by (auto simp: sample_process_def)
  from llm_client_server_exchange [where sent = fst and pending = snd and invar = "\<lambda>_. True" and ?sent2.0 = fst
      and ?pending2.0 = snd and ?invar2.0 = "\<lambda>_. True", OF conn d(1) TrueI _ d(2) TrueI _ sv l] sv
  show ?thesis by (auto simp: sample_process_def)
qed

text \<open>\<open>remote_llm_client\<close> against \<open>llm_server\<close>: over sockets that carry bytes in order it prints the
  server's answer and its two token counts, the server prints the request, and both programs
  exit with 0.\<close>

theorem remote_client_prints:
  assumes conn: "clock (ps_os pr) = (start, w)"
      "connect_to ws ''127.0.0.1'' 39200 (pr\<lparr>ps_os := w\<rparr>) = (Some t, q)"
    and client: "duplex_socket ws (tcp_handle t) sent pending invar" "invar (os t)"
    and server: "duplex_socket ws2 (tcp_handle t2) sent2 pending2 invar2" "invar2 (os t2)" "sent2 (os t2) = []"
    and serve: "serve_connection ws2 (mock_generate clock2 llm_server_response_text) t2 s con = (code, t3, s3, con3)"
    and linked: "pending2 (os t2) = wire_encode (request_message remote_client_llm planner_prompt remote_client_config)"
      "\<And>t1. framed_send (tcp_send_bytes ws) (request_message remote_client_llm planner_prompt remote_client_config) t =
        (True, t1) \<Longrightarrow> pending (os t1) = sent2 (os t3)"
  shows "code = Inr 0 \<and> con_err con3 = con_err con \<and>
    con_out con3 = con_out con @ as_lines [''[llm-server] received event: LLM_REQUEST'',
      ''[llm-server] request id: remote-llm-req-1'', ''[llm-server] prompt:'', prompt_to_string planner_prompt,
      ''[llm-server] response sent: '' @ llm_server_response_text] \<and>
    (\<exists>p' c. remote_client_main ws clock pr = (Inr 0, p', c) \<and> con_err c = [] \<and>
    con_out c = as_lines [''[remote-llm-client] result: '' @ llm_server_response_text,
      ''[remote-llm-client] prompt tokens: 17'', ''[remote-llm-client] completion tokens: 6''])"
proof -
  obtain e s' where g: "mock_generate clock2 llm_server_response_text planner_prompt remote_client_config s =
      (Inr (planner_result e), s')"
    using planner_generate [of clock2 remote_client_config s] by auto
  have at: "rl_host remote_client_llm = ''127.0.0.1''" "rl_port remote_client_llm = 39200"
    by (simp_all add: remote_client_llm_def new_remote_llm_def)
  from remote_server_compose [where ws = ws and clock = clock and pr = pr and t = t and r = remote_client_llm,
      unfolded at, OF conn client server remote_client_fits linked(1) g serve linked(2)]
  obtain el where c: "code = Inr 0" "con_err con3 = con_err con"
      "con_out con3 = con_out con @ served_lines (next_request remote_client_llm planner_prompt remote_client_config) (planner_result e)"
    and "fst (remote_generate ws clock planner_prompt remote_client_config (remote_client_llm, pr)) =
      Inr ((planner_result e)\<lparr>lr_elapsed_ms := el\<rparr>)" by blast
  then obtain r' p' where
    "remote_generate ws clock planner_prompt remote_client_config (remote_client_llm, pr) =
      (Inr ((planner_result e)\<lparr>lr_elapsed_ms := el\<rparr>), (r', p'))"
    by (metis prod.collapse)
  with c(1,2) c(3) [unfolded planner_served] show ?thesis
    by (simp add: remote_client_main_def Let_def planner_result_def llm_ok_def default_llm_result_def show_small)
qed

theorem remote_client_prints_witness:
  "\<exists>t3 s3 con p' c. serve_connection (boxes 3) (mock_generate (\<lambda>s. (0, s)) llm_server_response_text)
      \<lparr>tcp_handle = 1, tcp_process = sample_process (wire_encode
        (request_message remote_client_llm planner_prompt remote_client_config))\<rparr> () empty_console = (Inr 0, t3, s3, con) \<and>
    remote_client_main (boxes 2) (\<lambda>w. (0, w)) (sample_process (fst (os t3))) = (Inr 0, p', c) \<and> con_err c = []"
proof -
  let ?t2 = "\<lparr>tcp_handle = 1, tcp_process = sample_process (wire_encode
        (request_message remote_client_llm planner_prompt remote_client_config))\<rparr>"
  obtain code t3 s3 con where sv: "serve_connection (boxes 3) (mock_generate (\<lambda>s :: unit. (0, s)) llm_server_response_text) ?t2 () empty_console =
      (code, t3, s3, con)"
    by (metis prod_cases4)
  let ?in = "fst (os t3)"
  let ?t = "\<lparr>tcp_handle = 1, tcp_process = sample_process ?in\<rparr>"
  have conn: "connect_to (boxes 2) ''127.0.0.1'' 39200 ((sample_process ?in)\<lparr>ps_os := ([], ?in)\<rparr>) = (Some ?t, sample_process ?in)"
    using sample_connect [of 2 ?in] by (simp add: sample_remote_def new_remote_llm_def)
  have d: "duplex_socket (boxes 2) (tcp_handle ?t) fst snd (\<lambda>_. True)" "duplex_socket (boxes 3) (tcp_handle ?t2) fst snd (\<lambda>_. True)"
    by (simp_all add: boxes_duplex)
  have l: "snd (os t1) = fst (os t3)" if "framed_send (tcp_send_bytes (boxes 2))
      (request_message remote_client_llm planner_prompt remote_client_config) ?t = (True, t1)" for t1
    by (rule sample_link [OF that])
  from remote_client_prints [where sent = fst and pending = snd and invar = "\<lambda>_. True" and ?sent2.0 = fst
      and ?pending2.0 = snd and ?invar2.0 = "\<lambda>_. True" and clock = "\<lambda>w. (0, w)" and start = 0,
      OF _ conn d(1) TrueI d(2) TrueI _ sv _ l] sv
  show ?thesis by (auto simp: sample_process_def)
qed

text \<open>\<open>scheduled_llm_demo\<close> prints the mock response and exits with 0. Its 22 estimated and 16 granted
  tokens are charged and the 20 it reports are released, so that 126 of 144 tokens are left
  after a call that used 20, whatever the clock shows.\<close>

theorem scheduled_demo_prints:
  "\<exists>s' c. scheduled_demo_main clock s = (Inr 0, (demo_tokens\<lparr>tb_remaining_tokens := 126\<rparr>, s'), c) \<and> con_err c = [] \<and>
    con_out c = as_lines [''[scheduled demo] backend: ScheduledLLMRuntime(MockLLM)'', ''[scheduled demo] error: '',
      ''[scheduled demo] text:'', ''mock response'']"
proof -
  let ?inner = "mock_generate clock default_response"
  obtain e s' where g: "?inner demo_prompt (demo_config\<lparr>gc_max_tokens := of_nat 16\<rparr>) s =
      (Inr (default_llm_result\<lparr>lr_text := default_response, lr_prompt_tokens := 18, lr_completion_tokens := 2,
         lr_elapsed_ms := e\<rparr>), s')"
  proof -
    have "pr_messages demo_prompt \<noteq> []" by (simp add: demo_prompt_def add_user_def add_system_def add_message_def)
    then show thesis using that
      by (simp add: mock_generate_def case_prod_unfold Let_def demo_words default_llm_result_def)
  qed
  have b: "budget_sane demo_tokens" by (simp add: budget_sane_def demo_tokens_def)
  have sp: "spec_of (scheduled_task demo_prompt demo_config) demo_tokens = Some 16"
    by (simp add: spec_of_def schedule_spec_def scheduled_task_def demo_estimate demo_tokens_def demo_config_def default_task_def)
  have "scheduled_generate ?inner demo_prompt demo_config (demo_tokens, s) =
      (Inr (default_llm_result\<lparr>lr_text := default_response, lr_prompt_tokens := 18, lr_completion_tokens := 2,
         lr_elapsed_ms := e\<rparr>), (demo_tokens\<lparr>tb_remaining_tokens := 126\<rparr>, s'))"
    using scheduled_generate_some [OF b sp, of ?inner s] g
    by (simp add: Let_def demo_estimate release_def demo_tokens_def default_llm_result_def)
  then show ?thesis
    by (simp add: scheduled_demo_main_def Let_def default_llm_result_def scheduled_name_def mock_name_def default_response_def)
qed

end
