(* ===== verification/LLM_Stack.thy ===== *)
theory LLM_Stack
  imports Tool_Agent
begin

text \<open>
  The class \<open>LLMRuntime\<close> and the runtimes that implement it as objects: what \<open>generate\<close> does and
  what \<open>name\<close> returns. \<open>ScheduledLLMRuntime\<close> and \<open>MemoryAwareLLMRuntime\<close> hold references to another
  runtime and to a scheduler or a manager, so runtimes can be stacked in any order and to any
  depth, and the wrappers of one stack can share their scheduler and their manager. A stack is
  interpreted over a store that holds the manager, the schedulers and the state of the runtime
  at the bottom.
\<close>

section \<open>Runtimes as objects\<close>

record 's llm_runtime =
  rn_generate :: "'s llm_generate"
  rn_name :: string

definition mock_llm :: "('s \<Rightarrow> int \<times> 's) \<Rightarrow> string \<Rightarrow> 's llm_runtime" where
  "mock_llm clock fixed_response = \<lparr>rn_generate = mock_generate clock fixed_response, rn_name = mock_name\<rparr>"

definition remote_llm_runtime ::
    "'w winsock \<Rightarrow> ('w \<Rightarrow> int \<times> 'w) \<Rightarrow> (remote_llm \<times> 'w process) llm_runtime" where
  "remote_llm_runtime ws clock = \<lparr>rn_generate = remote_generate ws clock, rn_name = remote_llm_name\<rparr>"

definition scheduled_llm_runtime :: "(token_budget \<times> 's) llm_runtime \<Rightarrow> (token_budget \<times> 's) llm_runtime" where
  "scheduled_llm_runtime inner =
     \<lparr>rn_generate = shared_scheduled_generate (rn_generate inner), rn_name = scheduled_name (rn_name inner)\<rparr>"

definition memory_aware_llm_runtime ::
    "(memory_manager \<times> 's) llm_runtime \<Rightarrow> string \<Rightarrow> (memory_manager \<times> 's) llm_runtime" where
  "memory_aware_llm_runtime inner agent_id =
     \<lparr>rn_generate = memory_generate (rn_generate inner) agent_id, rn_name = memory_aware_name (rn_name inner)\<rparr>"

section \<open>References into a store\<close>

text \<open>A reference to an object in a store: how it is read and how it is written.\<close>

locale object_reference =
  fixes get :: "'w \<Rightarrow> 'o" and put :: "'o \<Rightarrow> 'w \<Rightarrow> 'w"
  assumes get_put: "get (put ob w) = ob"
    and put_put: "put ob (put ob' w) = put ob w"
    and put_get: "put (get w) w = w"

text \<open>A wrapper that works on an object, around a runtime that works on the whole store: before the
  inner runtime runs, the object is written to the store, and it is read again afterwards.\<close>

definition referring ::
    "('w \<Rightarrow> 'o) \<Rightarrow> ('o \<Rightarrow> 'w \<Rightarrow> 'w) \<Rightarrow> (('o \<times> 'w) llm_runtime \<Rightarrow> ('o \<times> 'w) llm_runtime) \<Rightarrow>
     'w llm_runtime \<Rightarrow> 'w llm_runtime" where
  "referring get put wrapper inner =
     (let r = wrapper \<lparr>rn_generate = (\<lambda>p c st. case rn_generate inner p c (put (fst st) (snd st)) of
                         (x, w) \<Rightarrow> (x, (get w, w))),
                       rn_name = rn_name inner\<rparr>
      in \<lparr>rn_generate = (\<lambda>p c w. case rn_generate r p c (get w, w) of (x, (ob, w)) \<Rightarrow> (x, put ob w)),
          rn_name = rn_name r\<rparr>)"

locale scheduler_reference = object_reference get put
  for get :: "'w \<Rightarrow> token_budget" and put :: "token_budget \<Rightarrow> 'w \<Rightarrow> 'w"
begin

lemma scheduled_refuses:
  assumes "budget_sane (get w)" "spec_of (scheduled_task p c) (get w) = None"
  shows "rn_generate (referring get put scheduled_llm_runtime inner) p c w =
    (Inr (default_llm_result\<lparr>lr_text := scheduled_fallback_text\<rparr>), w)"
  by (simp add: referring_def scheduled_llm_runtime_def put_get shared_scheduled_none [OF assms])

lemma scheduled_grants:
  assumes "budget_sane (get w)" "spec_of (scheduled_task p c) (get w) = Some g"
    and "rn_generate inner p (c\<lparr>gc_max_tokens := of_nat g\<rparr>) (put (charged p g (get w)) w) = (x, w')"
  shows "rn_generate (referring get put scheduled_llm_runtime inner) p c w =
    (x, case x of Inl _ \<Rightarrow> w'
       | Inr r \<Rightarrow> put (release (lr_prompt_tokens r + lr_completion_tokens r) (get w')) w')"
  using assms(3)
  by (cases x) (simp_all add: referring_def scheduled_llm_runtime_def shared_scheduled_some(1) [OF assms(1,2)] put_get)

end

locale manager_reference = object_reference get put
  for get :: "'w \<Rightarrow> memory_manager" and put :: "memory_manager \<Rightarrow> 'w \<Rightarrow> 'w"
begin

lemma memory_refuses:
  assumes "open_reservation agent (estimate_memory_bytes p c) (get w) = (res, m)" "\<not> reservation_ok res"
  shows "rn_generate (referring get put (\<lambda>r. memory_aware_llm_runtime r agent) inner) p c w =
    (Inr (default_llm_result\<lparr>lr_error_message := ''memory budget exceeded for agent: '' @ agent\<rparr>),
     put (close_reservation res m) w)"
  using assms by (simp add: referring_def memory_aware_llm_runtime_def memory_generate_def default_llm_result_def)

lemma memory_reserves:
  assumes "open_reservation agent (estimate_memory_bytes p c) (get w) = (res, m)" "reservation_ok res"
    and "rn_generate inner p c (put m w) = (x, w')"
  shows "rn_generate (referring get put (\<lambda>r. memory_aware_llm_runtime r agent) inner) p c w =
    (x, put (close_reservation res (case x of Inl _ \<Rightarrow> get w' | Inr _ \<Rightarrow> reset_scratch (get w'))) w')"
  using assms
  by (cases x) (simp_all add: referring_def memory_aware_llm_runtime_def memory_generate_def)

end

section \<open>Stacks\<close>

record 's llm_store =
  st_manager :: memory_manager
  st_scheduler :: "nat \<Rightarrow> token_budget"
  st_backend :: 's

definition put_scheduler :: "nat \<Rightarrow> token_budget \<Rightarrow> 's llm_store \<Rightarrow> 's llm_store" where
  "put_scheduler i b w = w\<lparr>st_scheduler := (st_scheduler w)(i := b)\<rparr>"

definition put_manager :: "memory_manager \<Rightarrow> 's llm_store \<Rightarrow> 's llm_store" where
  "put_manager m w = w\<lparr>st_manager := m\<rparr>"

interpretation sched: scheduler_reference "\<lambda>w. st_scheduler w i" "put_scheduler i" for i
  by unfold_locales (simp_all add: put_scheduler_def)

interpretation mgr: manager_reference st_manager put_manager
  by unfold_locales (simp_all add: put_manager_def)

datatype llm_stack = Backend | Scheduled nat llm_stack | Memory_Aware string llm_stack

primrec stack_runtime :: "'s llm_runtime \<Rightarrow> llm_stack \<Rightarrow> 's llm_store llm_runtime" where
  "stack_runtime backend Backend =
     \<lparr>rn_generate = (\<lambda>p c w. case rn_generate backend p c (st_backend w) of (x, s) \<Rightarrow> (x, w\<lparr>st_backend := s\<rparr>)),
      rn_name = rn_name backend\<rparr>"
| "stack_runtime backend (Scheduled i st) =
     referring (\<lambda>w. st_scheduler w i) (put_scheduler i) scheduled_llm_runtime (stack_runtime backend st)"
| "stack_runtime backend (Memory_Aware agent st) =
     referring st_manager put_manager (\<lambda>r. memory_aware_llm_runtime r agent) (stack_runtime backend st)"

primrec schedulers_of :: "llm_stack \<Rightarrow> nat set" where
  "schedulers_of Backend = {}"
| "schedulers_of (Scheduled i st) = insert i (schedulers_of st)"
| "schedulers_of (Memory_Aware agent st) = schedulers_of st"

primrec agents_of :: "llm_stack \<Rightarrow> string set" where
  "agents_of Backend = {}"
| "agents_of (Scheduled i st) = agents_of st"
| "agents_of (Memory_Aware agent st) = insert agent (agents_of st)"

section \<open>What a call may do\<close>

text \<open>The specification: the runtime at the bottom answers, once, the caller's prompt with at most
  the tokens the caller asked for; or a scheduler or an agent's budget of the stack refuses and
  the runtime at the bottom has not been called.\<close>

definition fallback_result :: llm_result where
  "fallback_result = default_llm_result\<lparr>lr_text := scheduled_fallback_text\<rparr>"

definition memory_refusal :: "string \<Rightarrow> llm_result" where
  "memory_refusal agent =
     default_llm_result\<lparr>lr_error_message := ''memory budget exceeded for agent: '' @ agent\<rparr>"

inductive stack_outcome ::
    "'s llm_generate \<Rightarrow> prompt \<Rightarrow> llm_stack \<Rightarrow> generation_config \<Rightarrow> 's \<Rightarrow>
     cpp_exception + llm_result \<Rightarrow> 's \<Rightarrow> bool" for gen p where
  answered: "gen p (c\<lparr>gc_max_tokens := n\<rparr>) s = (x, s') \<Longrightarrow> n \<le> gc_max_tokens c \<Longrightarrow> stack_outcome gen p st c s x s'"
| no_tokens: "schedulers_of st \<noteq> {} \<Longrightarrow> stack_outcome gen p st c s (Inr fallback_result) s"
| no_memory: "agent \<in> agents_of st \<Longrightarrow> stack_outcome gen p st c s (Inr (memory_refusal agent)) s"

inductive_cases stack_outcomeE: "stack_outcome gen p st c s x s'"

lemma stack_outcome_mono:
  assumes "stack_outcome gen p st (c\<lparr>gc_max_tokens := n\<rparr>) s x s'" "n \<le> gc_max_tokens c"
    and "schedulers_of st \<subseteq> schedulers_of st'" "agents_of st \<subseteq> agents_of st'"
  shows "stack_outcome gen p st' c s x s'"
  using assms(1)
proof (cases rule: stack_outcome.cases)
  case (answered k)
  then show ?thesis using assms(2) by (intro stack_outcome.answered [where n = k]) simp_all
next
  case no_tokens
  with assms(3) show ?thesis by (auto intro: stack_outcome.no_tokens)
next
  case (no_memory agent)
  with assms(4) show ?thesis by (auto intro: stack_outcome.no_memory)
qed

definition store_sane :: "'s llm_store \<Rightarrow> bool" where
  "store_sane w \<longleftrightarrow> limits_sane (st_manager w) \<and> (\<forall>i. budget_sane (st_scheduler w i))"

definition prompt_small :: "prompt \<Rightarrow> bool" where
  "prompt_small p \<longleftrightarrow> (\<Sum>msg \<leftarrow> pr_messages p. length (pm_content msg)) < 9223372002495036416"

text \<open>What a call leaves as it was: every agent's use, the maxima of the schedulers, and the
  schedulers that are not in the stack.\<close>

definition store_kept :: "llm_stack \<Rightarrow> 's llm_store \<Rightarrow> 's llm_store \<Rightarrow> bool" where
  "store_kept st w w' \<longleftrightarrow> store_sane w' \<and> agent_used (st_manager w') = agent_used (st_manager w) \<and>
     (\<forall>i. tb_max_prompt_tokens (st_scheduler w' i) = tb_max_prompt_tokens (st_scheduler w i) \<and>
          tb_max_completion_tokens (st_scheduler w' i) = tb_max_completion_tokens (st_scheduler w i)) \<and>
     (\<forall>i. i \<notin> schedulers_of st \<longrightarrow> st_scheduler w' i = st_scheduler w i)"

lemma maxima [simp]:
  "tb_max_prompt_tokens (charged p g b) = tb_max_prompt_tokens b"
  "tb_max_completion_tokens (charged p g b) = tb_max_completion_tokens b"
  "tb_max_prompt_tokens (release n b) = tb_max_prompt_tokens b"
  "tb_max_completion_tokens (release n b) = tb_max_completion_tokens b"
  by (simp_all add: charged_def release_def)

lemma put_simps [simp]:
  "st_manager (put_scheduler i b w) = st_manager w" "st_backend (put_scheduler i b w) = st_backend w"
  "st_scheduler (put_scheduler i b w) = (st_scheduler w)(i := b)"
  "st_manager (put_manager m w) = m" "st_backend (put_manager m w) = st_backend w"
  "st_scheduler (put_manager m w) = st_scheduler w"
  by (simp_all add: put_scheduler_def put_manager_def)

lemma stack_call:
  assumes "store_sane w" "prompt_small p" "rn_generate (stack_runtime backend st) p c w = (x, w')"
  shows "store_kept st w w' \<and> stack_outcome (rn_generate backend) p st c (st_backend w) x (st_backend w')"
  using assms(1,3)
proof (induction st arbitrary: c w x w')
  case Backend
  then show ?case
    using stack_outcome.answered [where gen = "rn_generate backend" and p = p and c = c and n = "gc_max_tokens c"]
    by (auto simp: store_kept_def store_sane_def split: prod.splits)
next
  case (Scheduled i st)
  have b: "budget_sane (st_scheduler w i)" using Scheduled.prems(1) by (simp add: store_sane_def)
  show ?case
  proof (cases "spec_of (scheduled_task p c) (st_scheduler w i)")
    case None
    from sched.scheduled_refuses [OF b this] Scheduled.prems show ?thesis
      by (auto simp: store_kept_def fallback_result_def [symmetric] intro!: stack_outcome.no_tokens)
  next
    case (Some g)
    let ?w = "put_scheduler i (charged p g (st_scheduler w i)) w"
    obtain y w1 where y: "rn_generate (stack_runtime backend st) p (c\<lparr>gc_max_tokens := of_nat g\<rparr>) ?w = (y, w1)"
      by fastforce
    have "store_sane ?w" using Scheduled.prems(1) by (simp add: store_sane_def)
    note ih = Scheduled.IH [OF this y]
    have g: "of_nat g \<le> gc_max_tokens c"
      using shared_scheduled_some(2) [OF b Some] by (simp add: word_le_nat_alt le_less_trans [OF _ unat_u32_lt] unat_u32_of_nat)
    from sched.scheduled_grants [OF b Some y] Scheduled.prems(2) have x: "x = y"
      "w' = (case y of Inl _ \<Rightarrow> w1
        | Inr r \<Rightarrow> put_scheduler i (release (lr_prompt_tokens r + lr_completion_tokens r) (st_scheduler w1 i)) w1)"
      by auto
    have "store_kept (Scheduled i st) w w'"
      using ih x(2) by (cases y) (auto simp: store_kept_def store_sane_def)
    moreover have "st_backend w' = st_backend w1" using x(2) by (cases y) simp_all
    moreover have "stack_outcome (rn_generate backend) p (Scheduled i st) c (st_backend w) y (st_backend w1)"
      by (rule stack_outcome_mono [OF _ g, where st = st]) (use ih in auto)
    ultimately show ?thesis using x(1) by simp
  qed
next
  case (Memory_Aware agent st)
  let ?n = "estimate_memory_bytes p c"
  have m: "limits_sane (st_manager w)" using Memory_Aware.prems(1) by (simp add: store_sane_def)
  have n: "unat ?n < 9223372036854775808"
    using estimate_memory_bytes_eq [of p c] assms(2) by (simp add: prompt_small_def bounded_prompt_def)
  obtain res m1 where o: "open_reservation agent ?n (st_manager w) = (res, m1)" by fastforce
  have m1: "limits_sane m1" by (rule open_sane [OF m n o])
  note restore = close_restores [OF m n o]
  show ?case
  proof (cases "reservation_ok res")
    case False
    from mgr.memory_refuses [OF o False] Memory_Aware.prems(2) have "x = Inr (memory_refusal agent)"
      "w' = put_manager (close_reservation res m1) w" by (simp_all add: memory_refusal_def)
    with restore [OF m1 refl] Memory_Aware.prems(1) show ?thesis
      by (auto simp: store_kept_def store_sane_def intro!: stack_outcome.no_memory)
  next
    case True
    obtain y w1 where y: "rn_generate (stack_runtime backend st) p c (put_manager m1 w) = (y, w1)" by fastforce
    have "store_sane (put_manager m1 w)" using Memory_Aware.prems(1) m1 by (simp add: store_sane_def)
    note ih = Memory_Aware.IH [OF this y]
    let ?m = "case y of Inl _ \<Rightarrow> st_manager w1 | Inr _ \<Rightarrow> reset_scratch (st_manager w1)"
    from mgr.memory_reserves [OF o True y] Memory_Aware.prems(2) have x: "x = y"
      "w' = put_manager (close_reservation res ?m) w1" by auto
    have "limits_sane ?m" "agent_used ?m = agent_used m1"
      using ih by (auto simp: store_kept_def store_sane_def split: sum.split)
    from restore [OF this] have "store_kept (Memory_Aware agent st) w w'"
      using ih x(2) by (auto simp: store_kept_def store_sane_def)
    moreover have "stack_outcome (rn_generate backend) p (Memory_Aware agent st) c (st_backend w) y (st_backend w1)"
      by (rule stack_outcome_mono [where st = st and n = "gc_max_tokens c"]) (use ih in auto)
    ultimately have "store_kept (Memory_Aware agent st) w w' \<and>
        stack_outcome (rn_generate backend) p (Memory_Aware agent st) c (st_backend w) x (st_backend w')"
      unfolding x by simp
    then show ?thesis .
  qed
qed

section \<open>Properties\<close>

text \<open>C4: Every stack of runtimes refines the specification \<open>stack_outcome\<close>, also when its wrappers share
  schedulers and the manager: a call of \<open>generate\<close> calls the runtime at the bottom at most once,
  with the caller's prompt and configuration but for \<open>max_tokens\<close>, which is at most what the caller
  asked for, and returns its result or exception as it is; or it returns the fallback of a
  scheduler or the refusal of a budget in the stack, and the runtime at the bottom has not been
  called.\<close>

theorem stack_refines_outcome:
  assumes "store_sane w" "prompt_small p" "rn_generate (stack_runtime backend st) p c w = (x, w')"
  shows "stack_outcome (rn_generate backend) p st c (st_backend w) x (st_backend w')"
  using stack_call [OF assms] by blast

definition sample_store :: "unit llm_store" where
  "sample_store = \<lparr>st_manager = set_agent_budget ''a'' 5000 sample_manager, st_scheduler = (\<lambda>_. sample_budget), st_backend = ()\<rparr>"

lemma sample_store_sane: "store_sane sample_store" "prompt_small short_prompt"
  using sample_budget_sane
  by (simp_all add: store_sane_def sample_store_def limits_sane_def set_agent_budget_def sample_manager_def
      new_memory_manager_def new_agent_memory_budget_def graph_def prompt_small_def short_prompt_def add_user_def add_message_def
      empty_prompt_def)

definition sample_stack :: llm_stack where
  "sample_stack = Scheduled 0 (Memory_Aware ''a'' (Scheduled 0 Backend))"

theorem stack_refines_outcome_witness:
  "\<exists>x w'. rn_generate (stack_runtime (mock_llm (\<lambda>s. (0, s)) ''ok'') sample_stack) short_prompt default_generation_config
      sample_store = (x, w') \<and>
    stack_outcome (mock_generate (\<lambda>s. (0, s)) ''ok'') short_prompt sample_stack default_generation_config () x ()"
proof -
  obtain x w' where 1: "rn_generate (stack_runtime (mock_llm (\<lambda>s. (0, s)) ''ok'') sample_stack) short_prompt
      default_generation_config sample_store = (x, w')" by fastforce
  from stack_refines_outcome [OF sample_store_sane 1] have
    "stack_outcome (mock_generate (\<lambda>s. (0, s)) ''ok'') short_prompt sample_stack default_generation_config () x ()"
    by (simp add: mock_llm_def)
  with 1 show ?thesis by blast
qed



lemma scheduled_over_backend:
  "rn_generate (stack_runtime backend (Scheduled i Backend)) p c w =
    (case scheduled_generate (rn_generate backend) p c (st_scheduler w i, st_backend w) of
       (x, (b, s)) \<Rightarrow> (x, w\<lparr>st_scheduler := (st_scheduler w)(i := b), st_backend := s\<rparr>))"
  by (simp add: referring_def scheduled_llm_runtime_def scheduled_generate_def shared_scheduled_generate_def
      beside_budget_def Let_def put_scheduler_def split: prod.split sum.split)

text \<open>The runtime of \<open>tool_agent_client\<close> is the stack that \<open>main\<close> builds, a memory-aware runtime around a
  scheduled one around \<open>RemoteLLM\<close>, on every state, and this is the name it reports.\<close>

lemma tool_agent_runtime_is_stack:
  "rn_generate (stack_runtime (remote_llm_runtime ws clock) (Memory_Aware ''tool_agent.client'' (Scheduled i Backend))) p c w =
     (case agent_generate ws clock p c (st_manager w, st_scheduler w i, st_backend w) of
        (x, (m, b, s)) \<Rightarrow> (x, \<lparr>st_manager = m, st_scheduler = (st_scheduler w)(i := b), st_backend = s\<rparr>)) \<and>
   rn_name (stack_runtime (remote_llm_runtime ws clock) (Memory_Aware ''tool_agent.client'' (Scheduled i Backend))) =
     ''MemoryAwareLLMRuntime(ScheduledLLMRuntime(RemoteLLM))''"
proof -
  have n: "rn_name (stack_runtime (remote_llm_runtime ws clock) (Memory_Aware ''tool_agent.client'' (Scheduled i Backend))) =
     ''MemoryAwareLLMRuntime(ScheduledLLMRuntime(RemoteLLM))''"
    by (simp add: referring_def Let_def memory_aware_llm_runtime_def scheduled_llm_runtime_def remote_llm_runtime_def
        memory_aware_name_def scheduled_name_def remote_llm_name_def)
  let ?R = "remote_llm_runtime ws clock"
  obtain res m where o: "open_reservation ''tool_agent.client'' (estimate_memory_bytes p c) (st_manager w) = (res, m)"
    by fastforce
  show ?thesis
  proof (cases "reservation_ok res")
    case False
    from mgr.memory_refuses [OF o False, of "stack_runtime ?R (Scheduled i Backend)"] n o False show ?thesis
      by (simp add: agent_generate_def memory_generate_def put_manager_def default_llm_result_def)
  next
    case True
    obtain x b s where y: "scheduled_generate (rn_generate ?R) p c (st_scheduler w i, st_backend w) = (x, (b, s))"
      by (metis prod_cases3)
    have "rn_generate (stack_runtime ?R (Scheduled i Backend)) p c (put_manager m w) =
        (x, (put_manager m w)\<lparr>st_scheduler := (st_scheduler w)(i := b), st_backend := s\<rparr>)"
      unfolding scheduled_over_backend using y by simp
    from mgr.memory_reserves [OF o True this] n o True y show ?thesis
      by (cases x) (simp_all add: agent_generate_def memory_generate_def beside_manager_def put_manager_def
          remote_llm_runtime_def)
  qed
qed

end
