(* ===== verification/Unit_Tests.thy ===== *)
theory Unit_Tests
  imports Console
begin

text \<open>
  The two ways in which the programs of \<open>tests\<close> check what they compute. Those with a \<open>CHECK\<close> macro
  report the first check that fails on standard error, go on with the next test and return the
  number of failed tests as an exit code. Those with \<open>assert\<close> abort; they are boolean functions,
  true if the program comes to its end.
\<close>

type_synonym unit_test = "console \<Rightarrow> bool \<times> console"

definition passed :: unit_test where "passed c = (True, c)"

definition check :: "string \<Rightarrow> nat \<Rightarrow> string \<Rightarrow> bool \<Rightarrow> unit_test \<Rightarrow> unit_test" where
  "check fn line expr b rest c =
     (if b then rest c
      else (False, complain (''[FAILED] '' @ fn @ '' line '' @ show_nat line @ '' check: '' @ expr) c))"

fun run_tests :: "unit_test list \<Rightarrow> nat \<Rightarrow> console \<Rightarrow> nat \<times> console" where
  "run_tests [] failed c = (failed, c)"
| "run_tests (t # ts) failed c = (case t c of (ok, c) \<Rightarrow> run_tests ts (if ok then failed else failed + 1) c)"

definition test_main :: "string \<Rightarrow> unit_test list \<Rightarrow> int \<times> console" where
  "test_main name tests =
     (case run_tests tests 0 empty_console of (failed, c) \<Rightarrow>
        if failed \<noteq> 0 then (1, complain (''['' @ name @ ''] failed tests: '' @ show_nat failed) c)
        else (0, print_line (''['' @ name @ ''] all tests passed'') c))"

text \<open>A program of assertions that ends with a message: \<open>None\<close> is an abort.\<close>

definition assert_main :: "string \<Rightarrow> bool list \<Rightarrow> console option" where
  "assert_main text tests = (if list_all (\<lambda>b. b) tests then Some (print_line text empty_console) else None)"

lemma check_true [simp]: "b \<Longrightarrow> check fn line expr b rest = rest"
  by (simp add: check_def fun_eq_iff)

lemma check_false: "\<not> b \<Longrightarrow> check fn line expr b rest c =
    (False, complain (''[FAILED] '' @ fn @ '' line '' @ show_nat line @ '' check: '' @ expr) c)"
  by (simp add: check_def)

lemma run_tests_passed: "\<forall>t \<in> set ts. t = passed \<Longrightarrow> run_tests ts n c = (n, c)"
  by (induction ts) (simp_all add: passed_def)

lemma test_main_passed:
  "\<forall>t \<in> set ts. t = passed \<Longrightarrow>
     test_main name ts = (0, print_line (''['' @ name @ ''] all tests passed'') empty_console)"
  by (simp add: test_main_def run_tests_passed)

lemma run_tests_append: "run_tests (ts @ us) n c = (case run_tests ts n c of (n, c) \<Rightarrow> run_tests us n c)"
  by (induction ts arbitrary: n c) (simp_all split: prod.split)

end
