(* ===== verification/Memory_Tests.thy ===== *)
theory Memory_Tests
  imports Mem_Manager Unit_Tests
begin

text \<open>
  \<open>tests/memory_tests.cpp\<close>. Where the buffers of the tests lie on the stack, and the vectors of the
  pools and managers on the heap, is a parameter of each test, so that the properties say for
  which addresses the program passes.
\<close>

section \<open>Arenas\<close>

definition test_arena_allocation_succeeds :: "u64 \<Rightarrow> unit_test" where
  "test_arena_allocation_succeeds buffer =
     (let arena = new_memory_arena buffer 128;
          check = check ''test_arena_allocation_succeeds''
      in case arena_allocate 32 8 arena of (block, arena) \<Rightarrow>
        check 28 ''block'' (block_bool block) (
        check 29 ''block.size == 32'' (mb_size block = 32) (
        check 30 ''arena.used() >= 32'' (arena_used arena \<ge> 32) (
        check 31 ''arena.free() <= 96'' (arena_free arena \<le> 96) passed))))"

definition test_arena_allocation_fails_when_exceeded :: "u64 \<Rightarrow> unit_test" where
  "test_arena_allocation_fails_when_exceeded buffer =
     (let arena = new_memory_arena buffer 64;
          check = check ''test_arena_allocation_fails_when_exceeded''
      in case arena_allocate 48 8 arena of (a, arena) \<Rightarrow>
         case arena_allocate 48 8 arena of (b, arena) \<Rightarrow>
        check 43 ''a'' (block_bool a) (
        check 44 ''!b'' (\<not> block_bool b) passed))"

definition test_arena_alignment :: "u64 \<Rightarrow> unit_test" where
  "test_arena_alignment buffer =
     (let arena = new_memory_arena buffer 128;
          check = check ''test_arena_alignment''
      in case arena_allocate 16 32 arena of (block, arena) \<Rightarrow>
        check 55 ''block'' (block_bool block) (
        check 60 ''address % 32 == 0'' (mb_ptr block mod 32 = 0) passed))"

definition test_arena_reset :: "u64 \<Rightarrow> unit_test" where
  "test_arena_reset buffer =
     (let arena = new_memory_arena buffer 128;
          check = check ''test_arena_reset''
      in case arena_allocate 64 8 arena of (block, arena) \<Rightarrow>
        check 71 ''block'' (block_bool block) (
        check 72 ''arena.used() > 0'' (arena_used arena > 0) (
        let arena = arena_reset arena in
        check 76 ''arena.used() == 0'' (arena_used arena = 0) (
        check 77 ''arena.free() == 128'' (arena_free arena = 128) passed))))"

definition test_arena_peak_usage :: "u64 \<Rightarrow> unit_test" where
  "test_arena_peak_usage buffer =
     (let arena = new_memory_arena buffer 128;
          check = check ''test_arena_peak_usage''
      in case arena_allocate 32 8 arena of (a, arena) \<Rightarrow>
         case arena_allocate 16 8 arena of (b, arena) \<Rightarrow>
        check 89 ''a'' (block_bool a) (
        check 90 ''b'' (block_bool b) (
        check 91 ''arena.peak_used() >= 48'' (arena_peak_used arena \<ge> 48) (
        let arena = arena_reset arena in
        check 95 ''arena.used() == 0'' (arena_used arena = 0) (
        check 96 ''arena.peak_used() >= 48'' (arena_peak_used arena \<ge> 48) passed)))))"

section \<open>Pools\<close>

definition test_fixed_block_pool_allocates_and_reuses :: "u64 \<Rightarrow> unit_test" where
  "test_fixed_block_pool_allocates_and_reuses storage =
     (let pool = new_fixed_block_pool storage 32 2;
          check = check ''test_fixed_block_pool_allocates_and_reuses''
      in case pool_allocate pool of (a, pool) \<Rightarrow>
         case pool_allocate pool of (b, pool) \<Rightarrow>
        check 107 ''a'' (block_bool a) (
        check 108 ''b'' (block_bool b) (
        check 109 ''pool.used_blocks() == 2'' (pool_used_blocks pool = 2) (
        check 110 ''pool.free_blocks() == 0'' (pool_free_blocks pool = 0) (
        case pool_free_block (mb_ptr a) pool of (freed, pool) \<Rightarrow>
        check 112 ''pool.free_block(a.ptr)'' freed (
        check 113 ''pool.used_blocks() == 1'' (pool_used_blocks pool = 1) (
        check 114 ''pool.free_blocks() == 1'' (pool_free_blocks pool = 1) (
        case pool_allocate pool of (c, pool) \<Rightarrow>
        check 118 ''c'' (block_bool c) (
        check 119 ''c.ptr == a.ptr'' (mb_ptr c = mb_ptr a) passed)))))))))"

definition test_fixed_block_pool_fails_when_exhausted :: "u64 \<Rightarrow> unit_test" where
  "test_fixed_block_pool_fails_when_exhausted storage =
     (let pool = new_fixed_block_pool storage 32 1;
          check = check ''test_fixed_block_pool_fails_when_exhausted''
      in case pool_allocate pool of (a, pool) \<Rightarrow>
         case pool_allocate pool of (b, pool) \<Rightarrow>
        check 130 ''a'' (block_bool a) (
        check 131 ''!b'' (\<not> block_bool b) passed))"

text \<open>\<open>fake\<close> is the address of a local variable.\<close>

definition test_fixed_block_pool_rejects_invalid_free :: "u64 \<Rightarrow> u64 \<Rightarrow> unit_test" where
  "test_fixed_block_pool_rejects_invalid_free storage fake =
     (let pool = new_fixed_block_pool storage 32 1
      in case pool_free_block fake pool of (freed, pool) \<Rightarrow>
        check ''test_fixed_block_pool_rejects_invalid_free'' 141 ''!pool.free_block(&fake)'' (\<not> freed) passed)"

section \<open>Scratch buffer and budgets\<close>

definition test_scratch_buffer_reset :: "u64 \<Rightarrow> unit_test" where
  "test_scratch_buffer_reset buffer =
     (let arena = new_memory_arena buffer 128;
          check = check ''test_scratch_buffer_reset''
      in case scratch_allocate 64 8 arena of (a, arena) \<Rightarrow>
        check 153 ''a'' (block_bool a) (
        check 154 ''scratch.stats().used > 0'' (ms_used (scratch_stats arena) > 0) (
        let arena = scratch_reset arena in
        check 158 ''scratch.stats().used == 0'' (ms_used (scratch_stats arena) = 0) (
        case scratch_allocate 128 8 arena of (b, arena) \<Rightarrow>
        check 162 ''b'' (block_bool b) passed))))"

definition test_agent_budget_allows_within_limit :: unit_test where
  "test_agent_budget_allows_within_limit =
     (let budget = new_agent_memory_budget ''planner'' 128;
          check = check ''test_agent_budget_allows_within_limit''
      in case budget_reserve 64 budget of (ok, budget) \<Rightarrow>
        check 170 ''budget.reserve(64)'' ok (
        check 171 ''budget.used_bytes() == 64'' (budget_used_bytes budget = 64) (
        case budget_reserve 32 budget of (ok, budget) \<Rightarrow>
        check 172 ''budget.reserve(32)'' ok (
        check 173 ''budget.used_bytes() == 96'' (budget_used_bytes budget = 96) passed))))"

definition test_agent_budget_rejects_over_limit :: unit_test where
  "test_agent_budget_rejects_over_limit =
     (let budget = new_agent_memory_budget ''planner'' 128;
          check = check ''test_agent_budget_rejects_over_limit''
      in case budget_reserve 100 budget of (ok, budget) \<Rightarrow>
        check 181 ''budget.reserve(100)'' ok (
        case budget_reserve 40 budget of (ok, budget) \<Rightarrow>
        check 182 ''!budget.reserve(40)'' (\<not> ok) (
        check 183 ''budget.used_bytes() == 100'' (budget_used_bytes budget = 100) passed)))"

definition test_agent_budget_release :: unit_test where
  "test_agent_budget_release =
     (let budget = new_agent_memory_budget ''planner'' 128;
          check = check ''test_agent_budget_release''
      in case budget_reserve 100 budget of (ok, budget) \<Rightarrow>
        check 191 ''budget.reserve(100)'' ok (
        let budget = budget_release 30 budget in
        check 195 ''budget.used_bytes() == 70'' (budget_used_bytes budget = 70) (
        let budget = budget_release 1000 budget in
        check 199 ''budget.used_bytes() == 0'' (budget_used_bytes budget = 0) passed)))"

section \<open>Manager\<close>

text \<open>The addresses of a manager's three vectors.\<close>

definition test_memory_manager_global_and_scratch :: "u64 \<Rightarrow> u64 \<Rightarrow> u64 \<Rightarrow> unit_test" where
  "test_memory_manager_global_and_scratch global_data scratch_data pool_data =
     (let config = default_memory_manager_config\<lparr>mc_global_arena_size := 256, mc_scratch_arena_size := 128,
            mc_message_block_size := 64, mc_message_block_count := 2\<rparr>;
          manager = new_memory_manager global_data scratch_data pool_data config;
          check = check ''test_memory_manager_global_and_scratch''
      in case allocate_global 128 8 manager of (global, manager) \<Rightarrow>
         case allocate_scratch 64 8 manager of (scratch, manager) \<Rightarrow>
        check 216 ''global'' (block_bool global) (
        check 217 ''scratch'' (block_bool scratch) (
        check 219 ''manager.global_stats().used >= 128'' (ms_used (global_stats manager) \<ge> 128) (
        check 220 ''manager.scratch_stats().used >= 64'' (ms_used (manager_scratch_stats manager) \<ge> 64) (
        let manager = reset_scratch manager in
        check 224 ''manager.scratch_stats().used == 0'' (ms_used (manager_scratch_stats manager) = 0) passed)))))"

definition test_memory_manager_message_pool :: "u64 \<Rightarrow> u64 \<Rightarrow> u64 \<Rightarrow> unit_test" where
  "test_memory_manager_message_pool global_data scratch_data pool_data =
     (let config = default_memory_manager_config\<lparr>mc_global_arena_size := 256, mc_scratch_arena_size := 128,
            mc_message_block_size := 64, mc_message_block_count := 1\<rparr>;
          manager = new_memory_manager global_data scratch_data pool_data config;
          check = check ''test_memory_manager_message_pool''
      in case allocate_message manager of (msg1, manager) \<Rightarrow>
         case allocate_message manager of (msg2, manager) \<Rightarrow>
        check 241 ''msg1'' (block_bool msg1) (
        check 242 ''!msg2'' (\<not> block_bool msg2) (
        case free_message (mb_ptr msg1) manager of (freed, manager) \<Rightarrow>
        check 244 ''manager.free_message(msg1.ptr)'' freed (
        case allocate_message manager of (msg3, manager) \<Rightarrow>
        check 248 ''msg3'' (block_bool msg3) (
        check 249 ''msg3.ptr == msg1.ptr'' (mb_ptr msg3 = mb_ptr msg1) passed)))))"

text \<open>The pointer that \<open>agent_budget\<close> returned is dereferenced again after the release.\<close>

definition test_memory_manager_agent_budget :: "u64 \<Rightarrow> u64 \<Rightarrow> u64 \<Rightarrow> unit_test" where
  "test_memory_manager_agent_budget global_data scratch_data pool_data =
     (let manager = new_memory_manager global_data scratch_data pool_data default_memory_manager_config;
          manager = set_agent_budget ''planner'' 128 manager;
          check = check ''test_memory_manager_agent_budget''
      in case reserve_agent_memory ''planner'' 64 manager of (ok, manager) \<Rightarrow>
        check 260 ''manager.reserve_agent_memory(\"planner\", 64)'' ok (
        case reserve_agent_memory ''planner'' 100 manager of (ok, manager) \<Rightarrow>
        check 261 ''!manager.reserve_agent_memory(\"planner\", 100)'' (\<not> ok) (
        check 266 ''budget != nullptr'' (agent_budget ''planner'' manager \<noteq> None) (
        check 267 ''budget->used_bytes() == 64'' (budget_used_bytes (the (agent_budget ''planner'' manager)) = 64) (
        let manager = release_agent_memory ''planner'' 32 manager in
        check 271 ''budget->used_bytes() == 32'' (budget_used_bytes (the (agent_budget ''planner'' manager)) = 32)
          passed)))))"

section \<open>The program\<close>

text \<open>\<open>place i\<close> are the addresses, in the order of the tests.\<close>

definition memory_tests_main :: "(nat \<Rightarrow> u64) \<Rightarrow> int \<times> console" where
  "memory_tests_main place = test_main ''memory_tests''
     [test_arena_allocation_succeeds (place 0),
      test_arena_allocation_fails_when_exceeded (place 1),
      test_arena_alignment (place 2),
      test_arena_reset (place 3),
      test_arena_peak_usage (place 4),
      test_fixed_block_pool_allocates_and_reuses (place 5),
      test_fixed_block_pool_fails_when_exhausted (place 6),
      test_fixed_block_pool_rejects_invalid_free (place 7) (place 8),
      test_scratch_buffer_reset (place 9),
      test_agent_budget_allows_within_limit,
      test_agent_budget_rejects_over_limit,
      test_agent_budget_release,
      test_memory_manager_global_and_scratch (place 10) (place 11) (place 12),
      test_memory_manager_message_pool (place 13) (place 14) (place 15),
      test_memory_manager_agent_budget (place 16) (place 17) (place 18)]"

section \<open>Allocations at any address\<close>

lemma arena_fits:
  assumes "arena_ok a" "0 < sz" "unat sz < 4611686018427387904" "is_power_of_two al"
    and "unat (ma_offset a) + (unat al - 1) + unat sz \<le> unat (ma_capacity a)"
  obtains p off where "arena_allocate sz al a =
      (\<lparr>mb_ptr = p, mb_size = sz\<rparr>, a\<lparr>ma_offset := off, ma_peak_used := max (ma_peak_used a) off\<rparr>)"
    and "p \<noteq> 0" "unat al dvd unat p" "unat (ma_offset a) + unat sz \<le> unat off"
    and "unat off \<le> unat (ma_offset a) + (unat al - 1) + unat sz"
proof -
  let ?c = "unat (ma_buffer a) + unat (ma_offset a)"
  let ?s = "align_up ?c (unat al)"
  have al: "0 < unat al" using assms(4) by (auto simp: is_power_of_two_def unat_gt_0)
  note b = align_up_bounds [OF al, of ?c]
  have buf: "0 < unat (ma_buffer a)" "unat (ma_buffer a) + unat (ma_capacity a) < 4611686018427387904"
    using assms(1) by (simp_all add: arena_ok_def)
  have le: "?s - unat (ma_buffer a) + unat sz \<le> unat (ma_offset a) + (unat al - 1) + unat sz" using b(2) al by linarith
  then have fit: "?s - unat (ma_buffer a) + unat sz \<le> unat (ma_capacity a)" using assms(5) by linarith
  then have "arena_spec (unat (ma_buffer a)) (unat (ma_capacity a)) (unat (ma_offset a)) (unat sz) (unat al) =
      Some (?s, ?s - unat (ma_buffer a) + unat sz)"
    by (simp add: arena_spec_def Let_def)
  with arena_allocate_spec [OF assms(1-4)] have 1: "arena_allocate sz al a = (\<lparr>mb_ptr = of_nat ?s, mb_size = sz\<rparr>,
      a\<lparr>ma_offset := of_nat (?s - unat (ma_buffer a) + unat sz),
        ma_peak_used := max (ma_peak_used a) (of_nat (?s - unat (ma_buffer a) + unat sz))\<rparr>)"
    by simp
  have u: "unat (of_nat ?s :: u64) = ?s" "unat (of_nat (?s - unat (ma_buffer a) + unat sz) :: u64) = ?s - unat (ma_buffer a) + unat sz"
  proof -
    have "?s < 18446744073709551616" "?s - unat (ma_buffer a) + unat sz < 18446744073709551616"
      using fit buf(2) b(1) by linarith+
    then show "unat (of_nat ?s :: u64) = ?s"
      "unat (of_nat (?s - unat (ma_buffer a) + unat sz) :: u64) = ?s - unat (ma_buffer a) + unat sz"
      by (simp_all only: unat_u64_of_nat)
  qed
  have "0 < ?s" using b(1) buf(1) by linarith
  then have "of_nat ?s \<noteq> (0 :: u64)" using u(1) by (metis less_irrefl unat_0)
  then show thesis using that [OF 1] b al le u by simp
qed

lemma arena_full:
  assumes "arena_ok a" "0 < sz" "unat sz < 4611686018427387904" "is_power_of_two al"
    and "unat (ma_capacity a) < unat (ma_offset a) + unat sz"
  shows "arena_allocate sz al a = (no_block, a)"
proof -
  have al: "0 < unat al" using assms(4) by (auto simp: is_power_of_two_def unat_gt_0)
  have "\<not> align_up (unat (ma_buffer a) + unat (ma_offset a)) (unat al) - unat (ma_buffer a) + unat sz \<le> unat (ma_capacity a)"
    using align_up_bounds(1) [OF al, of "unat (ma_buffer a) + unat (ma_offset a)"] assms(5) by linarith
  then show ?thesis using arena_allocate_spec [OF assms(1-4)] by (simp add: arena_spec_def Let_def)
qed

text \<open>A buffer as large as the request is enough exactly if it is aligned.\<close>

lemma arena_exact_fit:
  assumes "arena_ok a" "ma_offset a = 0" "ma_capacity a = sz" "0 < sz" "is_power_of_two al"
  shows "block_bool (fst (arena_allocate sz al a)) \<longleftrightarrow> unat al dvd unat (ma_buffer a)"
proof -
  let ?b = "unat (ma_buffer a)"
  have al: "0 < unat al" using assms(5) by (auto simp: is_power_of_two_def unat_gt_0)
  have sz: "unat sz < 4611686018427387904" using assms(1,3) by (auto simp: arena_ok_def)
  have "align_up ?b (unat al) - ?b + unat sz \<le> unat sz \<longleftrightarrow> unat al dvd ?b"
  proof
    assume "align_up ?b (unat al) - ?b + unat sz \<le> unat sz"
    then have "align_up ?b (unat al) = ?b" using align_up_bounds(1) [OF al, of ?b] by linarith
    then show "unat al dvd ?b" using align_up_bounds(3) [OF al, of ?b] by simp
  next
    assume "unat al dvd ?b"
    then have "align_up ?b (unat al) \<le> ?b" by (rule align_up_least [OF al]) simp
    then show "align_up ?b (unat al) - ?b + unat sz \<le> unat sz" by simp
  qed
  moreover have "0 < align_up ?b (unat al)" "align_up ?b (unat al) < 18446744073709551616"
    if "unat al dvd ?b"
  proof -
    have "align_up ?b (unat al) \<le> ?b" using that by (rule align_up_least [OF al]) simp
    then show "0 < align_up ?b (unat al)" "align_up ?b (unat al) < 18446744073709551616"
      using align_up_bounds(1) [OF al, of ?b] assms(1) by (auto simp: arena_ok_def)
  qed
  then have "of_nat (align_up ?b (unat al)) \<noteq> (0 :: u64)" if "unat al dvd ?b"
    using that unat_u64_of_nat by (metis less_irrefl unat_0)
  ultimately show ?thesis using arena_allocate_spec [OF assms(1,4) sz assms(5)] assms(2-4)
    by (auto simp: arena_spec_def Let_def block_bool_def no_block_def)
qed

text \<open>Where a buffer of a test may lie.\<close>

definition low_address :: "u64 \<Rightarrow> bool" where
  "low_address p \<longleftrightarrow> 0 < unat p \<and> unat p < 2305843009213693952"

lemma low_arena: "low_address p \<Longrightarrow> unat n \<le> 100000 \<Longrightarrow> arena_ok (new_memory_arena p n)"
  by (simp add: low_address_def arena_ok_def new_memory_arena_def)

lemmas arena_test_defs = new_memory_arena_def arena_used_def arena_free_def arena_peak_used_def arena_reset_def
  block_bool_def no_block_def word_le_nat_alt word_less_nat_alt unat_sub_if_size

lemma powers [simp]: "is_power_of_two 8" "is_power_of_two 32"
  by (simp_all add: is_power_of_two_def)

lemma word_mod_zero: "(x :: u64) mod y = 0 \<longleftrightarrow> unat y dvd unat x"
  by (simp add: word_unat_eq_iff unat_mod_distrib dvd_eq_mod_eq_0)

lemma arena_tests_pass:
  assumes "low_address p"
  shows "test_arena_allocation_succeeds p = passed" "test_arena_allocation_fails_when_exceeded p = passed"
    "test_arena_alignment p = passed" "test_arena_reset p = passed" "test_arena_peak_usage p = passed"
proof -
  show "test_arena_allocation_succeeds p = passed"
    by (rule arena_fits [OF low_arena [OF assms], of 128 32 8])
      (simp_all add: test_arena_allocation_succeeds_def arena_test_defs)
  show "test_arena_alignment p = passed"
    by (rule arena_fits [OF low_arena [OF assms], of 128 16 32])
      (simp_all add: test_arena_alignment_def arena_test_defs word_mod_zero)
  show "test_arena_reset p = passed"
    by (rule arena_fits [OF low_arena [OF assms], of 128 64 8])
      (simp_all add: test_arena_reset_def arena_test_defs)
  show "test_arena_allocation_fails_when_exceeded p = passed"
  proof (rule arena_fits [OF low_arena [OF assms], of 64 48 8])
    fix q off
    let ?a = "(new_memory_arena p 64)\<lparr>ma_offset := off, ma_peak_used := max (ma_peak_used (new_memory_arena p 64)) off\<rparr>"
    assume q: "arena_allocate 48 8 (new_memory_arena p 64) = (\<lparr>mb_ptr = q, mb_size = 48\<rparr>, ?a)" "q \<noteq> 0"
      and off: "unat (ma_offset (new_memory_arena p 64)) + unat (48 :: u64) \<le> unat off"
      "unat off \<le> unat (ma_offset (new_memory_arena p 64)) + (unat (8 :: u64) - 1) + unat (48 :: u64)"
    have "arena_ok ?a" using assms off by (simp add: arena_ok_def new_memory_arena_def low_address_def word_le_nat_alt)
    from arena_full [OF this, of 48 8] off have "arena_allocate 48 8 ?a = (no_block, ?a)"
      by (simp add: new_memory_arena_def)
    with q show ?thesis
      by (simp add: test_arena_allocation_fails_when_exceeded_def block_bool_def no_block_def)
  qed (simp_all add: new_memory_arena_def)
  show "test_arena_peak_usage p = passed"
  proof (rule arena_fits [OF low_arena [OF assms], of 128 32 8])
    fix q off
    let ?a = "(new_memory_arena p 128)\<lparr>ma_offset := off, ma_peak_used := max (ma_peak_used (new_memory_arena p 128)) off\<rparr>"
    assume q: "arena_allocate 32 8 (new_memory_arena p 128) = (\<lparr>mb_ptr = q, mb_size = 32\<rparr>, ?a)" "q \<noteq> 0"
      and off: "unat (ma_offset (new_memory_arena p 128)) + unat (32 :: u64) \<le> unat off"
      "unat off \<le> unat (ma_offset (new_memory_arena p 128)) + (unat (8 :: u64) - 1) + unat (32 :: u64)"
    have "arena_ok ?a" using assms off by (simp add: arena_ok_def new_memory_arena_def low_address_def word_le_nat_alt)
    then show ?thesis
    proof (rule arena_fits [of _ 16 8])
      fix q2 off2
      assume "arena_allocate 16 8 ?a = (\<lparr>mb_ptr = q2, mb_size = 16\<rparr>,
          ?a\<lparr>ma_offset := off2, ma_peak_used := max (ma_peak_used ?a) off2\<rparr>)" "q2 \<noteq> 0"
        and "unat (ma_offset ?a) + unat (16 :: u64) \<le> unat off2"
      with q off show ?thesis
        by (simp add: test_arena_peak_usage_def arena_reset_def arena_used_def arena_peak_used_def block_bool_def
            new_memory_arena_def word_le_nat_alt max_def)
    qed (use off in \<open>simp_all add: new_memory_arena_def\<close>)
  qed (simp_all add: new_memory_arena_def)
qed

lemma scratch_test:
  assumes "low_address p"
  shows "test_scratch_buffer_reset p = (if 8 dvd unat p then passed
    else (\<lambda>c. (False, complain ''[FAILED] test_scratch_buffer_reset line 162 check: b'' c)))"
proof (rule arena_fits [OF low_arena [OF assms], of 128 64 8])
  fix q off
  let ?a = "(new_memory_arena p 128)\<lparr>ma_offset := off, ma_peak_used := max (ma_peak_used (new_memory_arena p 128)) off\<rparr>"
  assume q: "arena_allocate 64 8 (new_memory_arena p 128) = (\<lparr>mb_ptr = q, mb_size = 64\<rparr>, ?a)" "q \<noteq> 0"
    and off: "unat (ma_offset (new_memory_arena p 128)) + unat (64 :: u64) \<le> unat off"
    "unat off \<le> unat (ma_offset (new_memory_arena p 128)) + (unat (8 :: u64) - 1) + unat (64 :: u64)"
  have "arena_ok (arena_reset ?a)"
    using assms off by (simp add: arena_ok_def arena_reset_def new_memory_arena_def low_address_def word_le_nat_alt)
  from arena_exact_fit [OF this, of 128 8]
  have b: "block_bool (fst (arena_allocate 128 8 (arena_reset ?a))) \<longleftrightarrow> 8 dvd unat p"
    by (simp add: arena_reset_def new_memory_arena_def)
  have l: "show_nat 162 = ''162''"
  proof -
    have c: "char_of (49 :: nat) = CHR ''1''" "char_of (50 :: nat) = CHR ''2''" "char_of (54 :: nat) = CHR ''6''"
      by code_simp+
    show ?thesis by (simp add: show_nat.simps [of 162] show_nat.simps [of 16] show_one c)
  qed
  have "block_bool \<lparr>mb_ptr = q, mb_size = 64\<rparr>" "0 < ms_used (arena_stats ?a)" "ms_used (arena_stats (arena_reset ?a)) = 0"
    using q(2) off by (simp_all add: block_bool_def arena_stats_def arena_reset_def word_less_nat_alt new_memory_arena_def)
  with b show ?thesis unfolding test_scratch_buffer_reset_def Let_def
    by (simp add: q(1) scratch_allocate_def scratch_reset_def scratch_stats_def case_prod_unfold check_false l fun_eq_iff
        passed_def)
qed (simp_all add: new_memory_arena_def)

lemma budget_tests_pass:
  "test_agent_budget_allows_within_limit = passed" "test_agent_budget_rejects_over_limit = passed"
  "test_agent_budget_release = passed" "test_memory_manager_agent_budget g s q = passed"
  by (simp_all add: test_agent_budget_allows_within_limit_def test_agent_budget_rejects_over_limit_def
      test_agent_budget_release_def test_memory_manager_agent_budget_def new_agent_memory_budget_def
      budget_reserve_def budget_can_reserve_def budget_release_def budget_used_bytes_def reserve_agent_memory_def
      release_agent_memory_def agent_budget_def set_agent_budget_def Let_def)

lemma two_blocks: "[0..<2] = [0, 1 :: nat]" "[0..<Suc 0] = [0 :: nat]"
  by (simp_all add: upt_rec)

lemma pool_tests_pass:
  assumes "low_address p"
  shows "test_fixed_block_pool_allocates_and_reuses p = passed"
    "test_fixed_block_pool_fails_when_exhausted p = passed"
    "test_memory_manager_message_pool g s p = passed"
    "\<not> (p \<le> fake \<and> fake < p + 32) \<Longrightarrow> test_fixed_block_pool_rejects_invalid_free p fake = passed"
proof -
  have p: "p \<noteq> 0" "p < p + 32" "p < p + 64" "p + 32 \<noteq> 0"
    using assms by (auto simp: low_address_def word_less_nat_alt word_unat_eq_iff unat_word_ariths(1))
  show "test_fixed_block_pool_fails_when_exhausted p = passed"
    using p by (simp add: test_fixed_block_pool_fails_when_exhausted_def new_fixed_block_pool_def pool_allocate_def
        two_blocks Let_def block_bool_def no_block_def)
  show "test_fixed_block_pool_allocates_and_reuses p = passed"
    using p by (simp add: test_fixed_block_pool_allocates_and_reuses_def new_fixed_block_pool_def pool_allocate_def
        pool_free_block_def owns_pointer_def pool_used_blocks_def pool_free_blocks_def
        two_blocks Let_def block_bool_def no_block_def)
  show "test_memory_manager_message_pool g s p = passed"
    using p by (simp add: test_memory_manager_message_pool_def new_memory_manager_def new_fixed_block_pool_def
        default_memory_manager_config_def allocate_message_def free_message_def pool_allocate_def
        pool_free_block_def owns_pointer_def two_blocks Let_def block_bool_def no_block_def)
  show "test_fixed_block_pool_rejects_invalid_free p fake = passed" if "\<not> (p \<le> fake \<and> fake < p + 32)"
    using that by (simp add: test_fixed_block_pool_rejects_invalid_free_def new_fixed_block_pool_def
        pool_free_block_def owns_pointer_def Let_def) auto
qed

lemma manager_test_pass:
  assumes "low_address g" "low_address s"
  shows "test_memory_manager_global_and_scratch g s q = passed"
proof (rule arena_fits [OF low_arena [OF assms(1)], of 256 128 8])
  fix b off
  assume b: "arena_allocate 128 8 (new_memory_arena g 256) = (\<lparr>mb_ptr = b, mb_size = 128\<rparr>,
      (new_memory_arena g 256)\<lparr>ma_offset := off, ma_peak_used := max (ma_peak_used (new_memory_arena g 256)) off\<rparr>)"
    "b \<noteq> 0" "unat (ma_offset (new_memory_arena g 256)) + unat (128 :: u64) \<le> unat off"
  show ?thesis
  proof (rule arena_fits [OF low_arena [OF assms(2)], of 128 64 8])
    fix b2 off2
    assume "arena_allocate 64 8 (new_memory_arena s 128) = (\<lparr>mb_ptr = b2, mb_size = 64\<rparr>,
        (new_memory_arena s 128)\<lparr>ma_offset := off2, ma_peak_used := max (ma_peak_used (new_memory_arena s 128)) off2\<rparr>)"
      "b2 \<noteq> 0" "unat (ma_offset (new_memory_arena s 128)) + unat (64 :: u64) \<le> unat off2"
    with b show ?thesis
      by (simp add: test_memory_manager_global_and_scratch_def new_memory_manager_def default_memory_manager_config_def
          allocate_global_def allocate_scratch_def scratch_allocate_def global_stats_def manager_scratch_stats_def
          reset_scratch_def scratch_reset_def scratch_stats_def arena_stats_def arena_reset_def Let_def block_bool_def
          word_le_nat_alt new_memory_arena_def)
  qed (simp_all add: new_memory_arena_def)
qed (simp_all add: new_memory_arena_def)

section \<open>Properties\<close>

text \<open>Wherever the stack and the heap put the buffers, as long as the local variable whose address is
  freed lies outside the pool, \<open>memory_tests\<close> passes exactly if the buffer of the scratch test
  happens to lie at a multiple of 8, which nothing in the test ensures: it allocates all of 128
  bytes with alignment 8 from a \<open>uint8_t\<close> array of 128. Otherwise one test fails, at that check.\<close>

theorem memory_tests_exit:
  assumes "\<And>i. low_address (place i)" "\<not> (place 7 \<le> place 8 \<and> place 8 < place 7 + 32)"
  shows "memory_tests_main place =
    (if 8 dvd unat (place 9) then (0, print_line ''[memory_tests] all tests passed'' empty_console)
     else (1, complain ''[memory_tests] failed tests: 1''
            (complain ''[FAILED] test_scratch_buffer_reset line 162 check: b'' empty_console)))"
  using assms(2)
  by (simp add: memory_tests_main_def test_main_def scratch_test assms(1) arena_tests_pass pool_tests_pass
      budget_tests_pass manager_test_pass passed_def show_one)

theorem memory_tests_exit_witness:
  "fst (memory_tests_main (\<lambda>i. 0x10000 + 0x1000 * of_nat (i mod 64))) = 0"
proof -
  have "low_address (0x10000 + 0x1000 * of_nat (i mod 64))" for i
  proof -
    have "i mod 64 < 64" by simp
    then have "unat (0x1000 * of_nat (i mod 64) :: u64) = 0x1000 * (i mod 64)"
      by (simp add: unat_word_ariths(2) unat_u64_of_nat)
    with \<open>i mod 64 < 64\<close> show ?thesis by (simp add: low_address_def unat_word_ariths(1))
  qed
  from memory_tests_exit [OF this] show ?thesis by (simp add: word_le_nat_alt)
qed

end
