(* ===== verification/LLM_Tests.thy ===== *)
theory LLM_Tests
  imports LLM_Scheduled LLM_Memory LLM_Codec Tools Unit_Tests
begin

text \<open>
  The tests of the scheduler, of the runtimes, of the payload codec and of the tools, as programs
  over the model: \<open>scheduler_tests\<close>, \<open>scheduled_llm_runtime_tests\<close>, \<open>llm_memory_tests\<close>,
  \<open>test_llm_runtime\<close>, \<open>llm_message_codec_tests\<close>, \<open>tool_runtime_tests\<close>. The clock, \<open>std::stod\<close> and the
  addresses of a manager's vectors are parameters.
\<close>

section \<open>\<open>scheduler_tests\<close>\<close>

definition make_budget :: "u32 \<Rightarrow> u32 \<Rightarrow> u32 \<Rightarrow> token_budget" where
  "make_budget max_prompt max_completion remaining =
     \<lparr>tb_max_prompt_tokens = max_prompt, tb_max_completion_tokens = max_completion, tb_remaining_tokens = remaining\<rparr>"

definition test_allows_task_within_budget :: unit_test where
  "test_allows_task_within_budget =
     (let scheduler = make_budget 128 64 192;
          task = default_task\<lparr>tk_task_id := ''task_1'', tk_estimated_prompt_tokens := 40,
            tk_requested_completion_tokens := 20\<rparr>;
          check = check ''test_allows_task_within_budget''
      in case schedule task scheduler of (dec, scheduler) \<Rightarrow>
        check 40 ''decision.type == ScheduleDecisionType::Allow'' (sd_type dec = Allow) (
        check 41 ''decision.allowed_completion_tokens == 20'' (sd_allowed_completion_tokens dec = 20) (
        check 42 ''scheduler.budget().remaining_tokens == 132'' (tb_remaining_tokens scheduler = 132) passed)))"

definition test_reduces_when_completion_exceeds_max :: unit_test where
  "test_reduces_when_completion_exceeds_max =
     (let scheduler = make_budget 128 32 160;
          task = default_task\<lparr>tk_task_id := ''task_2'', tk_estimated_prompt_tokens := 40,
            tk_requested_completion_tokens := 80, tk_allow_truncation := True\<rparr>;
          check = check ''test_reduces_when_completion_exceeds_max''
      in case schedule task scheduler of (dec, scheduler) \<Rightarrow>
        check 58 ''decision.type == ScheduleDecisionType::ReduceTokens'' (sd_type dec = ReduceTokens) (
        check 59 ''decision.allowed_completion_tokens == 32'' (sd_allowed_completion_tokens dec = 32) (
        check 60 ''scheduler.budget().remaining_tokens == 88'' (tb_remaining_tokens scheduler = 88) passed)))"

definition test_rejects_prompt_too_large_without_fallback :: unit_test where
  "test_rejects_prompt_too_large_without_fallback =
     (let scheduler = make_budget 64 32 96;
          task = default_task\<lparr>tk_task_id := ''task_3'', tk_estimated_prompt_tokens := 100,
            tk_requested_completion_tokens := 16, tk_allow_fallback := False\<rparr>;
          check = check ''test_rejects_prompt_too_large_without_fallback''
      in case schedule task scheduler of (dec, scheduler) \<Rightarrow>
        check 76 ''decision.type == ScheduleDecisionType::Reject'' (sd_type dec = Reject) (
        check 77 ''decision.allowed_completion_tokens == 0'' (sd_allowed_completion_tokens dec = 0) passed))"

definition test_fallback_prompt_too_large_with_fallback :: unit_test where
  "test_fallback_prompt_too_large_with_fallback =
     (let scheduler = make_budget 64 32 96;
          task = default_task\<lparr>tk_task_id := ''task_4'', tk_estimated_prompt_tokens := 100,
            tk_requested_completion_tokens := 16, tk_allow_fallback := True\<rparr>;
          check = check ''test_fallback_prompt_too_large_with_fallback''
      in case schedule task scheduler of (dec, scheduler) \<Rightarrow>
        check 93 ''decision.type == ScheduleDecisionType::UseFallback'' (sd_type dec = UseFallback) (
        check 94 ''decision.allowed_completion_tokens == 0'' (sd_allowed_completion_tokens dec = 0) passed))"

definition test_reduces_when_remaining_budget_low :: unit_test where
  "test_reduces_when_remaining_budget_low =
     (let scheduler = make_budget 128 64 50;
          task = default_task\<lparr>tk_task_id := ''task_5'', tk_estimated_prompt_tokens := 40,
            tk_requested_completion_tokens := 30, tk_allow_truncation := True\<rparr>;
          check = check ''test_reduces_when_remaining_budget_low''
      in case schedule task scheduler of (dec, scheduler) \<Rightarrow>
        check 110 ''decision.type == ScheduleDecisionType::ReduceTokens'' (sd_type dec = ReduceTokens) (
        check 111 ''decision.allowed_completion_tokens == 10'' (sd_allowed_completion_tokens dec = 10) (
        check 112 ''scheduler.budget().remaining_tokens == 0'' (tb_remaining_tokens scheduler = 0) passed)))"

definition test_rejects_when_truncation_and_fallback_disabled :: unit_test where
  "test_rejects_when_truncation_and_fallback_disabled =
     (let scheduler = make_budget 128 64 50;
          task = default_task\<lparr>tk_task_id := ''task_6'', tk_estimated_prompt_tokens := 40,
            tk_requested_completion_tokens := 30, tk_allow_truncation := False, tk_allow_fallback := False\<rparr>;
          check = check ''test_rejects_when_truncation_and_fallback_disabled''
      in case schedule task scheduler of (dec, scheduler) \<Rightarrow>
        check 129 ''decision.type == ScheduleDecisionType::Reject'' (sd_type dec = Reject) (
        check 130 ''decision.allowed_completion_tokens == 0'' (sd_allowed_completion_tokens dec = 0) passed))"

definition test_release_restores_budget :: unit_test where
  "test_release_restores_budget =
     (let scheduler = make_budget 128 64 192;
          task = default_task\<lparr>tk_task_id := ''task_7'', tk_estimated_prompt_tokens := 40,
            tk_requested_completion_tokens := 20\<rparr>;
          check = check ''test_release_restores_budget''
      in case schedule task scheduler of (dec, scheduler) \<Rightarrow>
        check 145 ''decision.type == ScheduleDecisionType::Allow'' (sd_type dec = Allow) (
        check 146 ''scheduler.budget().remaining_tokens == 132'' (tb_remaining_tokens scheduler = 132) (
        let scheduler = release 60 scheduler in
        check 150 ''scheduler.budget().remaining_tokens == 192'' (tb_remaining_tokens scheduler = 192) passed)))"

definition scheduler_tests_main :: "int \<times> console" where
  "scheduler_tests_main = test_main ''scheduler_tests''
     [test_allows_task_within_budget, test_reduces_when_completion_exceeds_max,
      test_rejects_prompt_too_large_without_fallback, test_fallback_prompt_too_large_with_fallback,
      test_reduces_when_remaining_budget_low, test_rejects_when_truncation_and_fallback_disabled,
      test_release_restores_budget]"

section \<open>\<open>scheduled_llm_runtime_tests\<close>\<close>

record inspecting_llm =
  il_called :: bool
  il_received_max_tokens :: u32

definition new_inspecting_llm :: inspecting_llm where
  "new_inspecting_llm = \<lparr>il_called = False, il_received_max_tokens = 0\<rparr>"

definition inspecting_generate :: "inspecting_llm llm_generate" where
  "inspecting_generate p config s =
     (Inr (default_llm_result\<lparr>lr_text := ''max_tokens='' @ show_nat (unat (gc_max_tokens config)),
        lr_prompt_tokens := 10, lr_completion_tokens := gc_max_tokens config, lr_elapsed_ms := 1,
        lr_error_message := []\<rparr>),
      s\<lparr>il_called := True, il_received_max_tokens := gc_max_tokens config\<rparr>)"

definition test_prompt :: prompt where
  "test_prompt = add_user ''Motion detected near the door.'' (add_system ''You are a safe embedded planner.'' empty_prompt)"

definition test_config :: "u32 \<Rightarrow> generation_config" where
  "test_config max_tokens = default_generation_config\<lparr>gc_max_tokens := max_tokens, gc_temperature := 0x3DCCCCCD,
     gc_top_p := 0x3F666666, gc_timeout_ms := 1000, gc_stream := False\<rparr>"

text \<open>\<open>std::string::find\<close> does not return \<open>npos\<close>.\<close>

definition contains_text :: "string \<Rightarrow> string \<Rightarrow> bool" where
  "contains_text pat s \<longleftrightarrow> list_ex (\<lambda>k. take (length pat) (drop k s) = pat) [0..<Suc (length s)]"

text \<open>An exception fails a test as well.\<close>

definition test_allow_calls_inner_llm :: bool where
  "test_allow_calls_inner_llm =
     (case scheduled_generate inspecting_generate test_prompt (test_config 32) (make_budget 128 64 192, new_inspecting_llm) of
        (Inl e, _) \<Rightarrow> False
      | (Inr result, (_, inner)) \<Rightarrow>
          il_called inner \<and> il_received_max_tokens inner = 32 \<and> lr_error_message result = [])"

definition test_reduce_tokens_changes_config :: bool where
  "test_reduce_tokens_changes_config =
     (case scheduled_generate inspecting_generate test_prompt (test_config 64) (make_budget 128 16 144, new_inspecting_llm) of
        (Inl e, _) \<Rightarrow> False
      | (Inr result, (_, inner)) \<Rightarrow>
          il_called inner \<and> il_received_max_tokens inner = 16 \<and> lr_error_message result = [] \<and>
          lr_text result = ''max_tokens=16'')"

definition test_fallback_when_prompt_too_large :: bool where
  "test_fallback_when_prompt_too_large =
     (case scheduled_generate inspecting_generate
        (add_user ''This is a long prompt that should exceed the tiny prompt budget.'' empty_prompt) (test_config 8)
        (make_budget 4 16 20, new_inspecting_llm) of
        (Inl e, _) \<Rightarrow> False
      | (Inr result, (_, inner)) \<Rightarrow>
          \<not> il_called inner \<and> lr_error_message result = [] \<and> contains_text ''tool=send_alert'' (lr_text result))"

definition scheduled_tests_main :: "console option" where
  "scheduled_tests_main = assert_main ''[scheduled_llm_runtime_tests] all tests passed''
     [test_allow_calls_inner_llm, test_reduce_tokens_changes_config, test_fallback_when_prompt_too_large]"

section \<open>\<open>llm_memory_tests\<close>\<close>

text \<open>\<open>TestLLM\<close>, whose only state is whether it has been called.\<close>

definition test_llm_generate :: "bool llm_generate" where
  "test_llm_generate p config called =
     (Inr (default_llm_result\<lparr>lr_text := ''ok'', lr_error_message := [], lr_prompt_tokens := 4,
        lr_completion_tokens := 8, lr_elapsed_ms := 1\<rparr>), True)"

definition test_memory_aware_llm_allows_when_budget_available :: "u64 \<Rightarrow> u64 \<Rightarrow> u64 \<Rightarrow> bool" where
  "test_memory_aware_llm_allows_when_budget_available global_data scratch_data pool_data =
     (let memory = new_memory_manager global_data scratch_data pool_data
            (default_memory_manager_config\<lparr>mc_global_arena_size := 4096, mc_scratch_arena_size := 2048\<rparr>);
          memory = set_agent_budget ''planner'' 4096 memory
      in case memory_generate (beside_manager test_llm_generate) ''planner'' test_prompt (test_config 32) (memory, False) of
        (Inl e, _) \<Rightarrow> False
      | (Inr result, (memory, called)) \<Rightarrow>
          if \<not> called then False
          else if lr_error_message result \<noteq> [] then False
          else case agent_budget ''planner'' memory of
            None \<Rightarrow> False
          | Some budget \<Rightarrow> if budget_used_bytes budget \<noteq> 0 then False else True)"

definition test_memory_aware_llm_rejects_when_budget_exceeded :: "u64 \<Rightarrow> u64 \<Rightarrow> u64 \<Rightarrow> bool" where
  "test_memory_aware_llm_rejects_when_budget_exceeded global_data scratch_data pool_data =
     (let memory = new_memory_manager global_data scratch_data pool_data default_memory_manager_config;
          memory = set_agent_budget ''planner'' 16 memory
      in case memory_generate (beside_manager test_llm_generate) ''planner'' test_prompt (test_config 32) (memory, False) of
        (Inl e, _) \<Rightarrow> False
      | (Inr result, (memory, called)) \<Rightarrow>
          if called then False
          else if lr_error_message result = [] then False
          else True)"

definition llm_memory_tests_main :: "(nat \<Rightarrow> u64) \<Rightarrow> int \<times> console" where
  "llm_memory_tests_main place = test_main ''llm_memory_tests''
     [\<lambda>c. (test_memory_aware_llm_allows_when_budget_available (place 0) (place 1) (place 2), c),
      \<lambda>c. (test_memory_aware_llm_rejects_when_budget_exceeded (place 3) (place 4) (place 5), c)]"

section \<open>\<open>test_llm_runtime\<close>\<close>

definition two_messages :: prompt where
  "two_messages = add_user ''Hello.'' (add_system ''You are safe.'' empty_prompt)"

definition test_prompt_stores_messages :: bool where
  "test_prompt_stores_messages =
     (let messages = prompt_messages two_messages
      in length messages = 2 \<and>
         pm_role (messages ! 0) = System \<and> pm_content (messages ! 0) = ''You are safe.'' \<and>
         pm_role (messages ! 1) = User \<and> pm_content (messages ! 1) = ''Hello.'')"

definition test_prompt_serializes_to_string :: bool where
  "test_prompt_serializes_to_string \<longleftrightarrow>
     prompt_to_string two_messages = ''system: You are safe.'' @ [newline] @ ''user: Hello.'' @ [newline]"

definition test_mock_llm_returns_fixed_response :: "('s \<Rightarrow> int \<times> 's) \<Rightarrow> 's \<Rightarrow> bool" where
  "test_mock_llm_returns_fixed_response clock s =
     (case mock_generate clock ''turn_on_light'' (add_user ''Motion detected.'' empty_prompt)
        (default_generation_config\<lparr>gc_max_tokens := 32\<rparr>) s of
        (Inl e, _) \<Rightarrow> False
      | (Inr result, _) \<Rightarrow> llm_ok result \<and> lr_text result = ''turn_on_light'')"

definition test_mock_llm_rejects_empty_prompt :: "('s \<Rightarrow> int \<times> 's) \<Rightarrow> 's \<Rightarrow> bool" where
  "test_mock_llm_rejects_empty_prompt clock s =
     (case mock_generate clock ''mock response'' empty_prompt default_generation_config s of
        (Inl e, _) \<Rightarrow> False
      | (Inr result, _) \<Rightarrow> \<not> llm_ok result \<and> lr_status result = InvalidPrompt \<and> lr_error_message result \<noteq> [])"

definition test_mock_llm_respects_max_tokens_as_word_limit :: "('s \<Rightarrow> int \<times> 's) \<Rightarrow> 's \<Rightarrow> bool" where
  "test_mock_llm_respects_max_tokens_as_word_limit clock s =
     (case mock_generate clock ''one two three four'' (add_user ''Say something.'' empty_prompt)
        (default_generation_config\<lparr>gc_max_tokens := 2\<rparr>) s of
        (Inl e, _) \<Rightarrow> False
      | (Inr result, _) \<Rightarrow> llm_ok result \<and> lr_text result = ''one two'' \<and> lr_completion_tokens result = 2)"

definition test_mock_llm_name :: bool where "test_mock_llm_name \<longleftrightarrow> mock_name = ''MockLLM''"

definition llm_runtime_tests_main :: "('s \<Rightarrow> int \<times> 's) \<Rightarrow> 's \<Rightarrow> console option" where
  "llm_runtime_tests_main clock s = assert_main ''All LLM runtime tests passed.''
     [test_prompt_stores_messages, test_prompt_serializes_to_string, test_mock_llm_returns_fixed_response clock s,
      test_mock_llm_rejects_empty_prompt clock s, test_mock_llm_respects_max_tokens_as_word_limit clock s,
      test_mock_llm_name]"

section \<open>\<open>llm_message_codec_tests\<close>\<close>

definition codec_request :: llm_request where
  "codec_request = \<lparr>rq_request_id = ''req-1'',
     rq_prompt = add_user ''Motion detected at the door.'' (add_system ''You are a safe embedded planner.'' empty_prompt),
     rq_config = default_generation_config\<lparr>gc_max_tokens := 32, gc_temperature := 0x3DCCCCCD, gc_top_p := 0x3F666666,
       gc_seed := 42, gc_timeout_ms := 500, gc_stream := False\<rparr>\<rparr>"

definition test_encode_decode_llm_request :: bool where
  "test_encode_decode_llm_request =
     (let message = encode_request codec_request ''client.node'' ''server.llm''
      in e_name (m_event message) = ''LLM_REQUEST'' \<and> m_source message = ''client.node'' \<and>
         m_target message = ''server.llm'' \<and>
         (case decode_request message of
            Inl e \<Rightarrow> False
          | Inr decoded \<Rightarrow>
              let messages = prompt_messages (rq_prompt decoded); config = rq_config decoded
              in rq_request_id decoded = ''req-1'' \<and> length messages = 2 \<and>
                 pm_content (messages ! 0) = ''You are a safe embedded planner.'' \<and>
                 pm_content (messages ! 1) = ''Motion detected at the door.'' \<and>
                 gc_max_tokens config = 32 \<and> gc_temperature config = 0x3DCCCCCD \<and> gc_top_p config = 0x3F666666 \<and>
                 gc_seed config = 42 \<and> gc_timeout_ms config = 500 \<and> gc_stream config = False))"

definition codec_response :: llm_response where
  "codec_response = \<lparr>rp_request_id = ''req-1'', rp_result = default_llm_result\<lparr>lr_status := Ok,
     lr_text := ''turn_on_light'', lr_prompt_tokens := 7, lr_completion_tokens := 1, lr_elapsed_ms := 12,
     lr_error_message := []\<rparr>\<rparr>"

definition test_encode_decode_llm_response :: bool where
  "test_encode_decode_llm_response =
     (let message = encode_response codec_response ''server.llm'' ''client.node''
      in e_name (m_event message) = ''LLM_RESPONSE'' \<and> m_source message = ''server.llm'' \<and>
         m_target message = ''client.node'' \<and>
         (case decode_response message of
            Inl e \<Rightarrow> False
          | Inr decoded \<Rightarrow>
              let result = rp_result decoded
              in rp_request_id decoded = ''req-1'' \<and> lr_status result = Ok \<and> lr_text result = ''turn_on_light'' \<and>
                 lr_prompt_tokens result = 7 \<and> lr_completion_tokens result = 1 \<and> lr_elapsed_ms result = 12 \<and>
                 lr_error_message result = []))"

definition codec_tests_main :: "console option" where
  "codec_tests_main = assert_main ''All LLM message codec tests passed.''
     [test_encode_decode_llm_request, test_encode_decode_llm_response]"

section \<open>\<open>tool_runtime_tests\<close>\<close>

text \<open>\<open>d82\<close> is the literal \<open>0.82\<close>, \<open>zero\<close> the default of the member \<open>confidence\<close>.\<close>

definition test_parse_tool_call :: "(string \<Rightarrow> cpp_exception + 'd) \<Rightarrow> 'd \<Rightarrow> 'd \<Rightarrow> bool" where
  "test_parse_tool_call stod zero d82 =
     (case tool_call_parse stod zero (''tool=turn_on_light'' @ [newline] @
         ''reason=motion detected near door'' @ [newline] @ ''confidence=0.82'' @ [newline]) of
        Inl e \<Rightarrow> False
      | Inr None \<Rightarrow> False
      | Inr (Some call) \<Rightarrow> tc_name call = ''turn_on_light'' \<and> tc_reason call = ''motion detected near door'' \<and>
          tc_confidence call = d82)"

definition answering :: "string \<Rightarrow> ('d, unit) tool_handler" where
  "answering text = Some (\<lambda>_ s. (Inr \<lparr>tr_success = True, tr_message = text\<rparr>, s))"

definition test_execute_allowed_tool :: "'d \<Rightarrow> bool" where
  "test_execute_allowed_tool zero =
     (case tool_execute (register_tool ''turn_on_light'' (answering ''light turned on'') new_tool_registry)
        \<lparr>tc_name = ''turn_on_light'', tc_reason = [], tc_confidence = zero\<rparr>
        (allow_tool ''turn_on_light'' new_safety_policy) () of
        (Inl e, _) \<Rightarrow> False
      | (Inr result, _) \<Rightarrow> tr_success result \<and> tr_message result = ''light turned on'')"

definition test_blocked_tool :: "'d \<Rightarrow> bool" where
  "test_blocked_tool zero =
     (case tool_execute (register_tool ''unlock_door'' (answering ''door unlocked'') new_tool_registry)
        \<lparr>tc_name = ''unlock_door'', tc_reason = [], tc_confidence = zero\<rparr>
        (block_tool ''unlock_door'' new_safety_policy) () of
        (Inl e, _) \<Rightarrow> False
      | (Inr result, _) \<Rightarrow> \<not> tr_success result)"

definition tool_tests_main :: "(string \<Rightarrow> cpp_exception + 'd) \<Rightarrow> 'd \<Rightarrow> 'd \<Rightarrow> console option" where
  "tool_tests_main stod zero d82 = assert_main ''All tool runtime tests passed.''
     [test_parse_tool_call stod zero d82, test_execute_allowed_tool zero, test_blocked_tool zero]"

section \<open>Results\<close>

lemma scheduler_tests_pass: "scheduler_tests_main =
    (0, print_line ''[scheduler_tests] all tests passed'' empty_console)"
proof -
  have "test_allows_task_within_budget = passed" "test_reduces_when_completion_exceeds_max = passed"
    "test_rejects_prompt_too_large_without_fallback = passed" "test_fallback_prompt_too_large_with_fallback = passed"
    "test_reduces_when_remaining_budget_low = passed" "test_rejects_when_truncation_and_fallback_disabled = passed"
    "test_release_restores_budget = passed"
    by (simp_all add: test_allows_task_within_budget_def test_reduces_when_completion_exceeds_max_def
        test_rejects_prompt_too_large_without_fallback_def test_fallback_prompt_too_large_with_fallback_def
        test_reduces_when_remaining_budget_low_def test_rejects_when_truncation_and_fallback_disabled_def
        test_release_restores_budget_def make_budget_def default_task_def schedule_def release_def decision_def Let_def)
  then show ?thesis unfolding scheduler_tests_main_def by (subst test_main_passed) auto
qed

lemma test_prompt_estimates:
  "estimate_prompt_tokens test_prompt = 15" "estimate_memory_bytes test_prompt (test_config 32) = 1342"
  by (simp_all add: estimate_prompt_tokens_def estimate_memory_bytes_def test_prompt_def test_config_def add_user_def
      add_system_def add_message_def empty_prompt_def default_generation_config_def Let_def)

lemma show_sixteen: "show_nat 16 = ''16''"
proof -
  have "char_of (54 :: nat) = CHR ''6''" by code_simp
  then show ?thesis by (simp add: show_nat.simps [of 16] show_one)
qed

lemma scheduled_tests_pass:
  "test_allow_calls_inner_llm" "test_reduce_tokens_changes_config" "test_fallback_when_prompt_too_large"
proof -
  have s: "budget_sane (make_budget 128 64 192)" "budget_sane (make_budget 128 16 144)" "budget_sane (make_budget 4 16 20)"
    by (simp_all add: budget_sane_def make_budget_def)
  note spec = spec_of_def schedule_spec_def scheduled_task_def default_task_def make_budget_def test_config_def
  have g: "spec_of (scheduled_task test_prompt (test_config 32)) (make_budget 128 64 192) = Some 32"
    "spec_of (scheduled_task test_prompt (test_config 64)) (make_budget 128 16 144) = Some 16"
    by (simp_all add: spec test_prompt_estimates)
  show "test_allow_calls_inner_llm"
    using scheduled_generate_some [OF s(1) g(1), of inspecting_generate new_inspecting_llm]
    by (simp add: test_allow_calls_inner_llm_def inspecting_generate_def Let_def)
  show "test_reduce_tokens_changes_config"
    using scheduled_generate_some [OF s(2) g(2), of inspecting_generate new_inspecting_llm]
    by (simp add: test_reduce_tokens_changes_config_def inspecting_generate_def Let_def show_sixteen)
  let ?p = "add_user ''This is a long prompt that should exceed the tiny prompt budget.'' empty_prompt"
  have "estimate_prompt_tokens ?p = 16"
    by (simp add: estimate_prompt_tokens_def add_user_def add_message_def empty_prompt_def Let_def)
  then have "spec_of (scheduled_task ?p (test_config 8)) (make_budget 4 16 20) = None" by (simp add: spec)
  moreover have "contains_text ''tool=send_alert'' scheduled_fallback_text"
    unfolding contains_text_def list_ex_iff by (rule bexI [of _ 0]) (simp_all add: scheduled_fallback_text_def)
  ultimately show "test_fallback_when_prompt_too_large"
    by (simp add: test_fallback_when_prompt_too_large_def scheduled_generate_none [OF s(3)] default_llm_result_def
        new_inspecting_llm_def)
qed

lemma llm_memory_tests_pass:
  "test_memory_aware_llm_allows_when_budget_available g s q" "test_memory_aware_llm_rejects_when_budget_exceeded g s q"
  by (simp_all add: test_memory_aware_llm_allows_when_budget_available_def
      test_memory_aware_llm_rejects_when_budget_exceeded_def memory_generate_def beside_manager_def test_llm_generate_def
      test_prompt_estimates open_reservation_def close_reservation_def reservation_ok_def reserve_agent_memory_def
      release_agent_memory_def set_agent_budget_def new_agent_memory_budget_def budget_reserve_def budget_can_reserve_def
      budget_release_def budget_used_bytes_def agent_budget_def reset_scratch_def default_llm_result_def Let_def)

lemma codec_tests_pass: "test_encode_decode_llm_request" "test_encode_decode_llm_response"
proof -
  have "request_small codec_request"
    by (simp add: request_small_def request_fits_def prompt_fits_def fits32_def codec_request_def add_user_def add_system_def
        add_message_def empty_prompt_def vec_ok_def encode_request_payload_eq request_bytes_def message_bytes_def)
  note r = decode_encode_request [OF this]
  show "test_encode_decode_llm_request" unfolding test_encode_decode_llm_request_def Let_def r
    by (simp add: encode_request_def)
       (simp add: codec_request_def prompt_messages_def add_user_def add_system_def add_message_def empty_prompt_def)
  have "response_fits codec_response" by (simp add: response_fits_def fits32_def codec_response_def default_llm_result_def)
  note r = decode_encode_response [OF this]
  show "test_encode_decode_llm_response" unfolding test_encode_decode_llm_response_def Let_def r
    by (simp add: encode_response_def) (simp add: codec_response_def)
qed

lemma tool_tests_pass:
  "stod ''0.82'' = Inr d82 \<Longrightarrow> test_parse_tool_call stod zero d82" "test_execute_allowed_tool zero" "test_blocked_tool zero"
proof -
  assume d: "stod ''0.82'' = Inr d82"
  let ?ls = "[''tool=turn_on_light'', ''reason=motion detected near door'', ''confidence=0.82'']"
  have u: "''tool=turn_on_light'' @ [newline] @ ''reason=motion detected near door'' @ [newline] @
      ''confidence=0.82'' @ [newline] = unlines ?ls" by (simp add: unlines_def)
  have "parse_loop stod (unlines ?ls) \<lparr>tc_name = [], tc_reason = [], tc_confidence = zero\<rparr> = Inr
      \<lparr>tc_name = ''turn_on_light'', tc_reason = ''motion detected near door'', tc_confidence = d82\<rparr>"
    using d by (subst parse_loop_unlines [where conv = "\<lambda>_. d82"])
      (simp_all add: newline_def values_of_def)
  then show "test_parse_tool_call stod zero d82" unfolding test_parse_tool_call_def u by (simp add: tool_call_parse_def)
qed (simp_all add: test_execute_allowed_tool_def test_blocked_tool_def tool_execute_def has_tool_def is_allowed_def
    register_tool_def new_tool_registry_def answering_def allow_tool_def block_tool_def new_safety_policy_def)

section \<open>Properties\<close>

text \<open>The test programs of the scheduler, the scheduled and the memory-aware runtime, the payload codec
  and the tools pass, wherever the managers' vectors lie, provided that \<open>stod\<close> converts \<open>0.82\<close> to
  the literal \<open>0.82\<close>.\<close>

theorem llm_unit_tests_pass:
  assumes "stod ''0.82'' = Inr d82"
  shows "scheduler_tests_main = (0, print_line ''[scheduler_tests] all tests passed'' empty_console) \<and>
    scheduled_tests_main = Some (print_line ''[scheduled_llm_runtime_tests] all tests passed'' empty_console) \<and>
    llm_memory_tests_main place = (0, print_line ''[llm_memory_tests] all tests passed'' empty_console) \<and>
    codec_tests_main = Some (print_line ''All LLM message codec tests passed.'' empty_console) \<and>
    tool_tests_main stod zero d82 = Some (print_line ''All tool runtime tests passed.'' empty_console)"
  by (simp add: scheduler_tests_pass scheduled_tests_main_def llm_memory_tests_main_def codec_tests_main_def
      tool_tests_main_def assert_main_def test_main_def scheduled_tests_pass llm_memory_tests_pass codec_tests_pass
      tool_tests_pass assms)

theorem llm_unit_tests_pass_witness:
  "llm_memory_tests_main (\<lambda>i. 4096 * of_nat i) = (0, print_line ''[llm_memory_tests] all tests passed'' empty_console) \<and>
   tool_tests_main (\<lambda>s. Inr (length s)) 0 4 = Some (print_line ''All tool runtime tests passed.'' empty_console)"
  using llm_unit_tests_pass [of "\<lambda>s. Inr (length s)" 4 "\<lambda>i. 4096 * of_nat i" 0] by simp

text \<open>\<open>test_llm_runtime\<close> aborts, whatever the clock shows: \<open>MockLLM\<close> returns its whole response although
  the test asks for two words, because \<open>generate\<close> does not limit it. All tests before it pass.\<close>

theorem llm_runtime_tests_abort:
  "llm_runtime_tests_main clock s = None \<and>
   \<not> test_mock_llm_respects_max_tokens_as_word_limit clock s \<and>
   test_prompt_stores_messages \<and> test_prompt_serializes_to_string \<and> test_mock_llm_returns_fixed_response clock s \<and>
   test_mock_llm_rejects_empty_prompt clock s \<and> test_mock_llm_name"
proof -
  have "\<not> test_mock_llm_respects_max_tokens_as_word_limit clock s"
    by (simp add: test_mock_llm_respects_max_tokens_as_word_limit_def mock_generate_def case_prod_unfold Let_def
        add_user_def add_message_def)
  moreover have "test_prompt_stores_messages"
    by (simp add: test_prompt_stores_messages_def prompt_messages_def two_messages_def add_user_def add_system_def
        add_message_def empty_prompt_def)
  moreover have "test_prompt_serializes_to_string"
    by (simp add: test_prompt_serializes_to_string_def prompt_to_string_def role_to_string_def two_messages_def
        add_user_def add_system_def add_message_def empty_prompt_def)
  moreover have "test_mock_llm_returns_fixed_response clock s"
    by (simp add: test_mock_llm_returns_fixed_response_def mock_generate_def case_prod_unfold Let_def add_user_def
        add_message_def llm_ok_def default_llm_result_def)
  moreover have "test_mock_llm_rejects_empty_prompt clock s"
    by (simp add: test_mock_llm_rejects_empty_prompt_def mock_generate_def case_prod_unfold Let_def empty_prompt_def
        llm_ok_def default_llm_result_def)
  ultimately show ?thesis by (simp add: llm_runtime_tests_main_def assert_main_def test_mock_llm_name_def mock_name_def)
qed

end
