(* ===== verification/Core_Tests.thy ===== *)
theory Core_Tests
  imports Runtime_Drain
begin

text \<open>
  The tests of \<open>core\<close> that need no socket, as programs over the model: \<open>protocol_tests\<close>,
  \<open>byte_transport_tests\<close>, \<open>frame_tests\<close>, \<open>framed_message_transport_tests\<close>,
  \<open>message_byte_adapter_tests\<close>, \<open>runtime_framed_transport_tests\<close> and \<open>core_runtime_tests\<close>. Each is
  one \<open>main\<close> of assertions: a boolean, true if the program comes to its end.
\<close>

section \<open>The codecs\<close>

text \<open>What five of the tests assert of the message they get back.\<close>

definition same_text :: "message \<Rightarrow> message_id \<Rightarrow> string \<Rightarrow> string \<Rightarrow> string \<Rightarrow> string \<Rightarrow> bool" where
  "same_text m i source target name str \<longleftrightarrow> m_id m = i \<and> m_source m = source \<and> m_target m = target \<and>
     e_name (m_event m) = name \<and> payload_as_string (m_event m) = str"

definition protocol_tests_main :: bool where
  "protocol_tests_main =
     (let original = text_event 42 ''sensor'' ''planner'' ''motion_detected'' ''person at door'';
          encoded = protocol_encode original;
          decoded = protocol_decode encoded;
          invalid = [0x00, 0x01, 0x02];
          bad = protocol_decode invalid
      in encoded \<noteq> [] \<and> r_ok (dr_result decoded) \<and> m_type (dr_message decoded) = MT_Event \<and>
         same_text (dr_message decoded) 42 ''sensor'' ''planner'' ''motion_detected'' ''person at door'' \<and>
         \<not> r_ok (dr_result bad) \<and> r_code (dr_result bad) = Error_InvalidArgument)"

definition frame_tests_main :: bool where
  "frame_tests_main =
     (let original = text_event 99 ''esp32'' ''planner'' ''motion'' ''person detected'';
          packet = protocol_encode original;
          frame = frame_encode packet;
          decoded_frame = frame_decode frame;
          decoded_message = protocol_decode (fd_payload decoded_frame);
          corrupted = frame_decode (frame[10 := frame ! 10 XOR 0xFF])
      in frame \<noteq> [] \<and> r_ok (fd_result decoded_frame) \<and> fd_payload decoded_frame = packet \<and>
         r_ok (dr_result decoded_message) \<and>
         same_text (dr_message decoded_message) 99 ''esp32'' ''planner'' ''motion'' ''person detected'' \<and>
         \<not> r_ok (fd_result corrupted) \<and> r_code (fd_result corrupted) = Error_InvalidArgument)"

section \<open>The transports\<close>

definition byte_transport_tests_main :: bool where
  "byte_transport_tests_main =
     (let transport = \<lparr>imbt_queue = []\<rparr>;
          original = text_event 7 ''esp32'' ''planner'' ''wake_word'' ''hello galculus'';
          encoded = protocol_encode original
      in encoded \<noteq> [] \<and> imbt_empty transport \<and>
         (case imbt_send_bytes encoded transport of (sent, transport) \<Rightarrow>
            sent \<and> \<not> imbt_empty transport \<and>
            (case imbt_receive_bytes transport of
               (None, transport) \<Rightarrow> False
             | (Some received_bytes, transport) \<Rightarrow>
                 let decoded = protocol_decode received_bytes
                 in imbt_empty transport \<and> r_ok (dr_result decoded) \<and>
                    same_text (dr_message decoded) 7 ''esp32'' ''planner'' ''wake_word'' ''hello galculus'')))"

definition framed_message_transport_tests_main :: bool where
  "framed_message_transport_tests_main =
     (let byte_transport = \<lparr>imbt_queue = []\<rparr>;
          original = text_event 55 ''sensor'' ''planner'' ''temperature'' ''72F''
      in case framed_send imbt_send_bytes original byte_transport of (sent, byte_transport) \<Rightarrow>
           sent \<and> \<not> framed_empty imbt_empty byte_transport \<and>
           (case framed_receive imbt_receive_bytes byte_transport of
              (None, byte_transport) \<Rightarrow> False
            | (Some received, byte_transport) \<Rightarrow>
                same_text received 55 ''sensor'' ''planner'' ''temperature'' ''72F'' \<and>
                framed_empty imbt_empty byte_transport))"

definition message_byte_adapter_tests_main :: bool where
  "message_byte_adapter_tests_main =
     (let byte_transport = \<lparr>imbt_queue = []\<rparr>;
          original = text_event 123 ''camera'' ''planner'' ''object_detected'' ''package''
      in case send_message imbt_send_bytes original byte_transport of (send_result, byte_transport) \<Rightarrow>
           r_ok send_result \<and> \<not> adapter_empty imbt_empty byte_transport \<and>
           (case receive_message imbt_receive_bytes byte_transport of (receive_result, byte_transport) \<Rightarrow>
              r_ok (mr_result receive_result) \<and>
              (case mr_message receive_result of
                 None \<Rightarrow> False
               | Some received \<Rightarrow>
                   m_type received = MT_Event \<and>
                   same_text received 123 ''camera'' ''planner'' ''object_detected'' ''package'') \<and>
              adapter_empty imbt_empty byte_transport \<and>
              (case receive_message imbt_receive_bytes byte_transport of (empty_receive, _) \<Rightarrow>
                 r_ok (mr_result empty_receive) \<and> mr_message empty_receive = None)))"

section \<open>The runtime\<close>

text \<open>The agents are named by their registered names; \<open>rt_world\<close> holds their members.\<close>

record framed_runtime_test_agent =
  fa_received :: bool
  fa_payload :: string

definition framed_runtime_test_class ::
    "(unit, in_memory_byte_transport, framed_runtime_test_agent) agent_ops" where
  "framed_runtime_test_class = \<lparr>ag_name = (\<lambda>_. ''agent''), ag_on_start = (\<lambda>_ r. r),
     ag_on_message = (\<lambda>_ message r. r\<lparr>rt_world := (rt_world r)\<lparr>fa_received := True,
        fa_payload := payload_as_string (m_event message)\<rparr>\<rparr>),
     ag_on_stop = (\<lambda>_ r. r)\<rparr>"

definition runtime_framed_transport_tests_main ::
    "((string \<times> unit) list \<Rightarrow> (string \<times> unit) list) \<Rightarrow> bool" where
  "runtime_framed_transport_tests_main rehash =
     (let ac = framed_runtime_test_class;
          runtime = new_runtime \<lparr>imbt_queue = []\<rparr> \<lparr>fa_received = False, fa_payload = ''''\<rparr>
      in case register_agent ac rehash (Some ()) runtime of (result, runtime) \<Rightarrow>
           r_ok result \<and>
           (let runtime = start ac runtime
            in case publish_event (framed_send imbt_send_bytes) ''tester'' ''agent''
                 (event_text ''ping'' ''through framed transport'') runtime of (result, runtime) \<Rightarrow>
              r_ok result \<and>
              (case run_once ac (framed_receive imbt_receive_bytes) runtime of (result, runtime) \<Rightarrow>
                 r_ok result \<and> fa_received (rt_world runtime) \<and>
                 fa_payload (rt_world runtime) = ''through framed transport'')))"

record test_agent =
  ta_started :: bool
  ta_stopped :: bool
  ta_received_count :: "32 word"
  ta_last_payload :: string
  ta_last_message_id :: message_id

definition new_test_agent :: test_agent where
  "new_test_agent = \<lparr>ta_started = False, ta_stopped = False, ta_received_count = 0, ta_last_payload = '''',
     ta_last_message_id = 0\<rparr>"

definition test_agent_class :: "(string, in_memory_transport, string \<Rightarrow> test_agent) agent_ops" where
  "test_agent_class = \<lparr>ag_name = (\<lambda>agent_name. agent_name),
     ag_on_start = (\<lambda>self r. r\<lparr>rt_world := (rt_world r)(self := (rt_world r self)\<lparr>ta_started := True\<rparr>)\<rparr>),
     ag_on_message = (\<lambda>self message r. r\<lparr>rt_world := (rt_world r)(self := (rt_world r self)
        \<lparr>ta_received_count := ta_received_count (rt_world r self) + 1,
         ta_last_payload := payload_as_string (m_event message),
         ta_last_message_id := m_id message\<rparr>)\<rparr>),
     ag_on_stop = (\<lambda>self r. r\<lparr>rt_world := (rt_world r)(self := (rt_world r self)\<lparr>ta_stopped := True\<rparr>)\<rparr>)\<rparr>"

text \<open>
  \<open>unregister_agent\<close> destroys the agent, so \<open>raw_agent2\<close> dangles when the test reads its \<open>stopped\<close>:
  the value read is the parameter \<open>freed\<close>.
\<close>

definition core_runtime_tests_main ::
    "((string \<times> string) list \<Rightarrow> (string \<times> string) list) \<Rightarrow> bool \<Rightarrow> bool" where
  "core_runtime_tests_main rehash freed =
     (let ac = test_agent_class;
          runtime = new_runtime \<lparr>imt_queue = []\<rparr> (\<lambda>_. new_test_agent)
      in case register_agent ac rehash (Some ''test'') runtime of (result, runtime) \<Rightarrow>
           r_ok result \<and> has_agent ''test'' runtime \<and> agent_count runtime = 1 \<and>
      (let runtime = start ac runtime
       in is_running runtime \<and> ta_started (rt_world runtime ''test'') \<and>
      (case publish_event imt_send ''tester'' ''test'' (event_text ''ping'' ''hello'') runtime of (result, runtime) \<Rightarrow>
           r_ok result \<and>
      (case run_once ac imt_receive runtime of (result, runtime) \<Rightarrow>
           r_ok result \<and> ta_received_count (rt_world runtime ''test'') = 1 \<and>
           ta_last_payload (rt_world runtime ''test'') = ''hello'' \<and>
           ta_last_message_id (rt_world runtime ''test'') = 1 \<and>
      (case publish_event imt_send ''tester'' ''missing'' (event_text ''ping'' ''fail'') runtime of (result, runtime) \<Rightarrow>
           r_ok result \<and>
      (case run_once ac imt_receive runtime of (result, runtime) \<Rightarrow>
           \<not> r_ok result \<and> r_code result = Error_AgentNotFound \<and>
      (case register_agent ac rehash (Some ''second'') runtime of (result, runtime) \<Rightarrow>
           r_ok result \<and>
      (case broadcast_event imt_send ''tester'' (event_text ''broadcast'' ''all'') runtime of (result, runtime) \<Rightarrow>
           r_ok result \<and>
      (case drain ac imt_receive imt_empty runtime of
         None \<Rightarrow> False
       | Some runtime \<Rightarrow>
           ta_received_count (rt_world runtime ''test'') = 2 \<and>
           ta_received_count (rt_world runtime ''second'') = 1 \<and>
      (case unregister_agent ac ''second'' runtime of (result, runtime) \<Rightarrow>
           r_ok result \<and> \<not> has_agent ''second'' runtime \<and> freed \<and>
      (let runtime = stop ac runtime
       in \<not> is_running runtime \<and> ta_stopped (rt_world runtime ''test''))))))))))))"

section \<open>They pass\<close>

lemma text_event_fits:
  "31 + length source + length target + length name + length str < 2147483636 \<Longrightarrow>
     wire_fits (text_event i source target name str)"
  by (simp add: wire_fits_def fits32_def length_protocol_encode text_event_def event_text_def)

lemma same_text_event: "same_text (text_event i source target name str) i source target name str"
  by (simp add: same_text_def text_event_def event_text_def payload_as_string_def)

lemma m_type_text_event: "m_type (text_event i source target name str) = MT_Event"
  by (simp add: text_event_def)

lemma protocol_encode_not_empty [simp]: "protocol_encode m \<noteq> []"
  using length_protocol_encode [of m] by auto

lemma frame_encode_not_empty [simp]: "frame_encode p \<noteq> []"
  by (simp add: frame_encode_layout be32_bytes)

lemma protocol_text_event:
  "31 + length source + length target + length name + length str < 2147483636 \<Longrightarrow>
     protocol_decode (protocol_encode (text_event i source target name str)) =
       \<lparr>dr_result = result_success, dr_message = text_event i source target name str\<rparr>"
  by (rule protocol_round_trip [OF wire_fits_message [OF text_event_fits]])

lemma protocol_tests_pass: protocol_tests_main
proof -
  have "protocol_decode [0x00, 0x01, 0x02] = protocol_error ''protocol decode failed: missing magic'' default_message"
    by (simp add: protocol_decode_def read_u32_def size_add_def Let_def)
  then show ?thesis
    by (simp add: protocol_tests_main_def Let_def protocol_text_event same_text_event m_type_text_event)
qed

lemma byte_transport_tests_pass: byte_transport_tests_main
  by (simp add: byte_transport_tests_main_def Let_def imbt_defs protocol_text_event same_text_event)

lemma frame_tests_pass: frame_tests_main
proof -
  let ?m = "text_event 99 ''esp32'' ''planner'' ''motion'' ''person detected''"
  let ?f = "frame_encode (protocol_encode ?m)"
  have fits: "fits32 (protocol_encode ?m)" using text_event_fits [of "''esp32''"] by (simp add: wire_fits_def)
  have "x XOR 0xFF \<noteq> x" for x :: u8
    by (auto dest: arg_cong [where f = "\<lambda>y. x XOR y"])
  then have "\<not> r_ok (fd_result (frame_decode (?f[10 := ?f ! 10 XOR 0xFF])))"
    by (intro frame_change_rejected fits) simp_all
  moreover from frame_decode_error_code [OF this]
  have "r_code (fd_result (frame_decode (?f[10 := ?f ! 10 XOR 0xFF]))) = Error_InvalidArgument" .
  ultimately show ?thesis using frame_round_trip [OF fits]
    by (simp add: frame_tests_main_def Let_def protocol_text_event same_text_event)
qed

lemma framed_message_transport_tests_pass: framed_message_transport_tests_main
  by (simp add: framed_message_transport_tests_main_def Let_def framed_send_eq framed_receive_eq imbt_defs
      wire_round_trip text_event_fits same_text_event framed_empty_def adapter_empty_def)

lemma message_byte_adapter_tests_pass: message_byte_adapter_tests_main
proof -
  let ?m = "text_event 123 ''camera'' ''planner'' ''object_detected'' ''package''"
  have "fits32 (protocol_encode ?m)" using text_event_fits [of "''camera''"] by (simp add: wire_fits_def)
  from frame_round_trip [OF this] show ?thesis
    by (simp add: message_byte_adapter_tests_main_def Let_def send_message_def receive_message_def imbt_defs
        protocol_text_event same_text_event m_type_text_event adapter_empty_def)
qed

lemmas runtime_steps = register_agent_def has_agent_def agent_count_def is_running_def new_runtime_def start_def
  stop_def publish_event_def next_message_id_def rt_send_def run_once_def dispatch_def Let_def

lemma runtime_framed_transport_tests_pass:
  assumes "\<And>xs. mset (rehash xs) = mset xs"
  shows "runtime_framed_transport_tests_main rehash"
proof -
  let ?m = "event_message 1 ''tester'' ''agent'' (event_text ''ping'' ''through framed transport'')"
  have "rehash [(''agent'', ())] = [(''agent'', ())]" using assms [of "[(''agent'', ())]"] by simp
  moreover have "wire_decode (wire_encode ?m) = Some ?m"
    using wire_round_trip [OF text_event_fits, of "''tester''" "''agent''" "''ping''" "''through framed transport''" 1]
    by (simp add: text_event_def)
  ultimately show ?thesis
    by (simp add: runtime_framed_transport_tests_main_def framed_runtime_test_class_def runtime_steps
        framed_send_eq framed_receive_eq imbt_defs)
qed

lemma two_entries: "mset xs = {#a, b#} \<Longrightarrow> xs = [a, b] \<or> xs = [b, a]"
proof -
  assume m: "mset xs = {#a, b#}"
  then have "length xs = 2" by (metis size_mset size_add_mset size_empty numeral_2_eq_2)
  then obtain x y where xs: "xs = [x, y]" by (auto simp: length_Suc_conv numeral_2_eq_2)
  with m show ?thesis by (auto simp: add_eq_conv_ex)
qed

lemma core_runtime_tests_pass:
  assumes "\<And>xs. mset (rehash xs) = mset xs"
  shows "core_runtime_tests_main rehash freed \<longleftrightarrow> freed"
proof -
  have 1: "rehash [(''test'', ''test'')] = [(''test'', ''test'')]" using assms [of "[(''test'', ''test'')]"] by simp
  have "rehash [(''second'', ''second''), (''test'', ''test'')] = [(''second'', ''second''), (''test'', ''test'')] \<or>
    rehash [(''second'', ''second''), (''test'', ''test'')] = [(''test'', ''test''), (''second'', ''second'')]"
    by (rule two_entries) (simp add: assms)
  then show ?thesis
    by (rule disjE) (simp_all add: core_runtime_tests_main_def test_agent_class_def new_test_agent_def runtime_steps
        imt_defs 1 broadcast_event_def drain.simps unregister_agent_def)
qed

section \<open>Properties\<close>

text \<open>The tests of \<open>core\<close> without sockets come to their end, however the hash map of the runtime
  arranges its entries. \<open>core_runtime_tests\<close> alone rests on undefined behaviour: it does so exactly if
  the memory of the agent it has just had destroyed still reads as a stopped agent.\<close>

theorem core_tests_exit:
  assumes "\<And>xs. mset (rehash xs) = mset xs" and "\<And>xs. mset (rehash2 xs) = mset xs"
  shows "protocol_tests_main \<and> byte_transport_tests_main \<and> frame_tests_main \<and>
    framed_message_transport_tests_main \<and> message_byte_adapter_tests_main \<and>
    runtime_framed_transport_tests_main rehash \<and> (core_runtime_tests_main rehash2 freed \<longleftrightarrow> freed)"
  using runtime_framed_transport_tests_pass [OF assms(1)] core_runtime_tests_pass [OF assms(2)]
  by (simp add: protocol_tests_pass byte_transport_tests_pass frame_tests_pass framed_message_transport_tests_pass
      message_byte_adapter_tests_pass)

theorem core_tests_exit_witness:
  "core_runtime_tests_main rev True \<and> \<not> core_runtime_tests_main rev False \<and> runtime_framed_transport_tests_main (\<lambda>xs. xs)"
  using core_tests_exit [of "\<lambda>xs. xs" rev True] core_tests_exit [of "\<lambda>xs. xs" rev False] by simp

end
