(* ===== verification/Tcp_Tests.thy ===== *)
theory Tcp_Tests
  imports Tcp_Nodes
begin

text \<open>
  \<open>tests/tcp_byte_transport_tests.cpp\<close>: a thread that listens, receives one message and answers it, and
  a client in the main thread. A thread whose assertion fails aborts the process.
\<close>

text \<open>The server thread once a client is connected: the payload it leaves in \<open>server_payload\<close>, \<open>None\<close>
  if an assertion fails.\<close>

definition test_reply :: message where
  "test_reply = text_event 2 ''server'' ''client'' ''reply'' ''ack''"

definition test_server_exchange ::
    "'w winsock \<Rightarrow> 'w tcp_byte_transport \<Rightarrow> string option \<times> 'w tcp_byte_transport" where
  "test_server_exchange ws t =
     (case framed_receive (tcp_receive_bytes ws) t of
        (None, t) \<Rightarrow> (None, t)
      | (Some received, t) \<Rightarrow>
          let server_payload = payload_as_string (m_event received)
          in case framed_send (tcp_send_bytes ws) test_reply t of (sent, t) \<Rightarrow>
               (if sent then Some server_payload else None, t))"

definition test_server_thread :: "'w winsock \<Rightarrow> 'w process \<Rightarrow> string option \<times> 'w process" where
  "test_server_thread ws p =
     (case listen_once ws 39091 p of
        (None, p) \<Rightarrow> (None, p)
      | (Some t, _) \<Rightarrow> case test_server_exchange ws t of (r, t) \<Rightarrow> (r, close_process ws t))"

text \<open>The main thread; \<open>joined\<close> is what the server thread has left when it is joined.\<close>

definition test_message :: message where
  "test_message = text_event 1 ''client'' ''server'' ''hello'' ''tcp works''"

definition test_client_main :: "'w winsock \<Rightarrow> string option \<Rightarrow> 'w process \<Rightarrow> bool" where
  "test_client_main ws joined p =
     (case connect_to ws ''127.0.0.1'' 39091 p of
        (None, _) \<Rightarrow> False
      | (Some t, _) \<Rightarrow>
          case framed_send (tcp_send_bytes ws) test_message t of (sent, t) \<Rightarrow>
            sent \<and>
            (case framed_receive (tcp_receive_bytes ws) t of
               (None, _) \<Rightarrow> False
             | (Some reply, _) \<Rightarrow>
                 m_source reply = ''server'' \<and> m_target reply = ''client'' \<and> e_name (m_event reply) = ''reply'' \<and>
                 payload_as_string (m_event reply) = ''ack'' \<and> joined = Some ''tcp works''))"

lemma test_messages_fit: "tcp_fits test_message" "tcp_fits test_reply"
  by (simp_all add: tcp_fits_def length_protocol_encode test_message_def test_reply_def text_event_def event_text_def)

lemma test_messages_sel:
  "payload_as_string (m_event test_message) = ''tcp works''" "m_source test_reply = ''server''"
  "m_target test_reply = ''client''" "e_name (m_event test_reply) = ''reply''"
  "payload_as_string (m_event test_reply) = ''ack''"
  by (simp_all add: test_message_def test_reply_def text_event_def) (simp_all add: event_text_def)

lemma test_server_exchange_ok:
  assumes "duplex_socket ws (tcp_handle t) sent pending invar" "invar (os t)"
    and "pending (os t) = wire_encode test_message @ rest"
  shows "\<exists>t'. test_server_exchange ws t = (Some ''tcp works'', t') \<and> sent (os t') = sent (os t) @ wire_encode test_reply"
proof -
  obtain t1 where t1: "framed_receive (tcp_receive_bytes ws) t = (Some test_message, t1)" "tcp_handle t1 = tcp_handle t"
    "invar (os t1)" "sent (os t1) = sent (os t)"
    using duplex_receive [OF assms(1,2) test_messages_fit(1) assms(3)] by auto
  obtain t2 where "framed_send (tcp_send_bytes ws) test_reply t1 = (True, t2)"
    "sent (os t2) = sent (os t) @ wire_encode test_reply"
    using duplex_send [of ws t1 sent pending invar, OF _ t1(3) test_messages_fit(2)] assms(1) t1(2,4) by auto
  with t1(1) show ?thesis by (simp add: test_server_exchange_def test_messages_sel)
qed

text \<open>Over sockets that carry bytes in order, however the calls split them, no assertion of
  \<open>tcp_byte_transport_tests\<close> fails in either thread.\<close>

theorem tcp_test_passes:
  assumes conn: "connect_to ws ''127.0.0.1'' 39091 p = (Some t, q)"
    and client: "duplex_socket ws (tcp_handle t) sent pending invar" "invar (os t)" "sent (os t) = []"
    and server: "duplex_socket ws2 (tcp_handle t2) sent2 pending2 invar2" "invar2 (os t2)" "sent2 (os t2) = []"
    and serve: "test_server_exchange ws2 t2 = (joined, t3)"
    and linked: "\<And>t1. framed_send (tcp_send_bytes ws) test_message t = (True, t1) \<Longrightarrow>
      pending2 (os t2) = sent (os t1) \<and> pending (os t1) = sent2 (os t3)"
  shows "joined \<noteq> None \<and> test_client_main ws joined p"
proof -
  obtain t1 where t1: "framed_send (tcp_send_bytes ws) test_message t = (True, t1)" "tcp_handle t1 = tcp_handle t"
    "invar (os t1)" "sent (os t1) = wire_encode test_message"
    using duplex_send [OF client(1,2) test_messages_fit(1)] client(3) by auto
  from linked [OF t1(1)] t1(4) have "pending2 (os t2) = wire_encode test_message @ []" by simp
  from test_server_exchange_ok [OF server(1,2) this] serve server(3)
  have s: "joined = Some ''tcp works''" "sent2 (os t3) = wire_encode test_reply" by auto
  then have "pending (os t1) = wire_encode test_reply @ []" using linked [OF t1(1)] by simp
  then obtain t4 where "framed_receive (tcp_receive_bytes ws) t1 = (Some test_reply, t4)"
    using duplex_receive [of ws t1 sent pending invar, OF _ t1(3) test_messages_fit(2)] client(1) t1(2) by auto
  with conn s(1) t1(1) show ?thesis by (simp add: test_client_main_def test_messages_sel)
qed

theorem tcp_test_passes_witness:
  "\<exists>joined t3. test_server_exchange (boxes 4) \<lparr>tcp_handle = 1, tcp_process = sample_process (wire_encode test_message)\<rparr> = (joined, t3) \<and>
    test_client_main (boxes 3) joined (sample_process (fst (os t3)))"
proof -
  let ?t2 = "\<lparr>tcp_handle = 1, tcp_process = sample_process (wire_encode test_message)\<rparr>"
  obtain joined t3 where sv: "test_server_exchange (boxes 4) ?t2 = (joined, t3)" by fastforce
  let ?t = "\<lparr>tcp_handle = 1, tcp_process = sample_process (fst (os t3))\<rparr>"
  have conn: "connect_to (boxes 3) ''127.0.0.1'' 39091 (sample_process (fst (os t3))) = (Some ?t, sample_process (fst (os t3)))"
    by (simp add: connect_to_def Let_def boxes_def winsock_runtime_def sample_process_def new_tcp_byte_transport_def
        invalid_socket_def socket_error_def)
  have d: "duplex_socket (boxes 3) (tcp_handle ?t) fst snd (\<lambda>_. True)" "duplex_socket (boxes 4) (tcp_handle ?t2) fst snd (\<lambda>_. True)"
    by (simp_all add: boxes_duplex)
  have l: "snd (os ?t2) = fst (os t1) \<and> snd (os t1) = fst (os t3)"
    if "framed_send (tcp_send_bytes (boxes 3)) test_message ?t = (True, t1)" for t1
    using that sample_link [OF that] duplex_send [OF d(1) TrueI test_messages_fit(1)]
    by (auto simp: sample_process_def)
  from tcp_test_passes [where sent = fst and pending = snd and invar = "\<lambda>_. True" and ?sent2.0 = fst
      and ?pending2.0 = snd and ?invar2.0 = "\<lambda>_. True", OF conn d(1) TrueI _ d(2) TrueI _ sv l] sv
  show ?thesis by (auto simp: sample_process_def)
qed

end
