(* ===== verification/Spec2Isabelle.thy ===== *)
theory Spec2Isabelle
  imports Runtime Runtime_Drain Runtime_Delivery Transport_Threads LLM_Codec_Exact Socket_Safety Tool_Agent
    Hello_Agent LLM_Programs LLM_Stack Memory_Tests LLM_Tests Core_Tests Tcp_Tests
begin

text \<open>
  A model of Galculus, a C++ framework in which agents, transports and language-model nodes
  exchange messages, with the properties of its parts and of the programs made of them.
  Definitions keep the names of the source; where a name is taken in HOL or used by two
  components it carries a prefix (\<open>rt_send\<close>, \<open>frame_write_u32\<close>, \<open>imt_send\<close>, \<open>arena_allocate\<close>).

  The theories, in the order of the code:

  \<^item> \<open>Galc_Prelude\<close>: integer types (\<open>std::uint8_t\<close> to \<open>std::uint64_t\<close> and \<open>size_t\<close> as words), byte
    vectors, strings, exceptions, the \<open>size_t\<close> addition of offsets with its wrap-around, and the
    lemmas and collections the codecs share.
  \<^item> \<open>Core_Types\<close>: \<open>Result\<close>, \<open>Event\<close>, \<open>Message\<close> of \<open>core/include\<close>.
  \<^item> \<open>Byte_IO\<close>: the big-endian writers and readers of \<open>core/src/protocol.cpp\<close>; the locale
    \<open>wire_field\<close> is the contract of a writer and its reader, interpreted for each pair.
  \<^item> \<open>Frame_Codec\<close> and \<open>Protocol_Codec\<close>: \<open>Frame::encode/decode\<close> and \<open>Protocol::encode/decode\<close>; what
    exactly is decoded, round trips, truncation, corruption.
  \<^item> \<open>Transport\<close>: \<open>InMemoryTransport\<close>, \<open>InMemoryByteTransport\<close>, \<open>MessageByteAdapter\<close>,
    \<open>FramedMessageTransport\<close>. The locale \<open>fifo_channel\<close> is the contract of a transport and
    \<open>byte_channel\<close> that of a transport of frames, of which the framed transport is a channel again.
  \<^item> \<open>Tcp\<close>: \<open>TcpByteTransport\<close> over the Winsock calls, which are a record of functions on the state
    of the operating system. Partial sends and receives are in the model.
  \<^item> \<open>Runtime\<close>: \<open>AgentRuntime\<close>, whose agents' callbacks transform the runtime itself; dispatch,
    broadcast, draining; the step relation \<open>runtime_step\<close> and its invariant, for agents that use the
    runtime from their callbacks (\<open>reentrant_agents\<close>). What is delivered, and in which order, is
    shown for agents that act on the outside world only (\<open>world_agents\<close>), and in \<open>Runtime_Delivery\<close>
    for agents that answer with messages (\<open>publishing_agents\<close>).
  \<^item> \<open>Mem_Arena\<close>, \<open>Block_Pool\<close>, \<open>Mem_Manager\<close>: the library \<open>memory\<close>: arena and scratch buffer, block
    pool, budgets, manager, scoped reservations. Pointers are 64-bit addresses; the address at
    which a vector's storage lies is a parameter.
  \<^item> \<open>Scheduler\<close>: \<open>TokenScheduler\<close>, with its decision over the natural numbers as specification.
  \<^item> \<open>LLM_Core\<close>, \<open>LLM_Scheduled\<close>, \<open>LLM_Memory\<close>: prompts, results and \<open>MockLLM\<close>;
    \<open>ScheduledLLMRuntime\<close> and \<open>MemoryAwareLLMRuntime\<close>, which wrap a runtime. A runtime's
    \<open>generate\<close> is a function from a prompt, a configuration and a state to an exception or a result
    and a state, so wrapping is function composition.
  \<^item> \<open>LLM_Stack\<close>: the class \<open>LLMRuntime\<close> and its implementations as objects, and stacks of them to any
    depth whose wrappers may share schedulers and the manager. The locale \<open>object_reference\<close> is a
    C++ reference into a store; \<open>stack_outcome\<close> specifies what a call of a stack may do.
  \<^item> \<open>Tools\<close>: \<open>SafetyPolicy\<close>, \<open>ToolRegistry\<close>, \<open>ToolCallParser\<close>.
  \<^item> \<open>LLM_Codec\<close>, \<open>LLM_Remote\<close>: \<open>LLMMessageCodec\<close> of \<open>llm_bridge\<close>, \<open>RemoteLLM\<close> and the program
    \<open>llm_server\<close>.
  \<^item> \<open>Tool_Agent\<close>: the program \<open>tool_agent_client\<close>, which uses all of the above.
  \<^item> \<open>Console\<close>: what a program has written to its two output streams; every program is modelled with
    all that it prints.
  \<^item> \<open>Hello_Agent\<close>, \<open>Tcp_Nodes\<close>, \<open>LLM_Programs\<close>: the other programs under \<open>examples\<close>: \<open>hello_agent\<close>;
    client and server of \<open>tcp_nodes\<close>; \<open>llm_client\<close>, \<open>remote_llm_client\<close> and
    \<open>scheduled_llm_demo\<close>. The two sides of a connection are separate
    processes; a property about both links what one has sent with what the other has pending.
  \<^item> \<open>Unit_Tests\<close>, \<open>Memory_Tests\<close>, \<open>LLM_Tests\<close>, \<open>Core_Tests\<close>, \<open>Tcp_Tests\<close>: the fifteen programs under
    \<open>tests\<close>, test by test, over the model, and what each of them ends with. All pass but two whose
    end depends on how the program is compiled (the alignment of a local array in \<open>memory_tests\<close>, a
    read of freed memory in \<open>core_runtime_tests\<close>) and \<open>test_llm_runtime\<close>, which aborts.

  Theories that add properties to the above without new code:

  \<^item> \<open>Runtime_Drain\<close>: when \<open>drain\<close> returns (a rank on messages that every answer lowers) and when it
    does not (agents that answer themselves); draining over a framed transport, past byte
    vectors that are not frames, as a refinement of draining over the in-memory transport.
  \<^item> \<open>Runtime_Delivery\<close>: the specification \<open>mail_run\<close> of what is delivered when agents answer with
    messages; \<open>drain\<close> implements it over every channel of messages, so that the order of delivery
    is that of publication and the transport makes no difference.
  \<^item> \<open>Transport_Threads\<close>: threads that share an in-memory transport. \<open>send\<close>, \<open>receive\<close> and \<open>empty\<close> are
    small-step programs over the mutex and the queue, in which \<open>push\<close> and \<open>pop\<close> are two steps each;
    an execution is any interleaving of the steps of any threads. The invariant \<open>exclusive\<close> gives
    mutual exclusion, every execution is one of the atomic operations of \<open>Transport\<close> in the order
    in which they return, and rounds of steps bring every thread to its end.
  \<^item> \<open>LLM_Codec_Exact\<close>: which payloads \<open>decode_request\<close> and \<open>decode_response\<close> accept, byte by byte,
    and which exceptions they throw.
  \<^item> \<open>Socket_Safety\<close>: the Winsock calls of a process wrapped such that open sockets are counted and
    calls on others are noted; \<open>RemoteLLM::generate\<close> and \<open>llm_server\<close> close what they open.
\<close>

text \<open>
  How the model corresponds to the code. A class is a \<open>record\<close> of its members and a method a
  function that returns the new record. Errors that the code returns are values (\<open>result\<close>,
  options, booleans); exceptions are the left summand of \<open>cpp_exception + 'a\<close>. Unsigned arithmetic
  is word arithmetic, with the wrap-around of the code. Loops are recursive functions that are
  proved to terminate, except \<open>drain\<close>, which need not end and is a \<open>partial_function\<close> with value
  \<open>None\<close> where it does not; \<open>drain_delivers_in_order\<close> and \<open>drain_terminates\<close> show where it does,
  \<open>drain_never_returns\<close> where it does not, and \<open>drain_implements_mail_run\<close>, for agents that answer
  with messages, exactly where. No fuel is used. The order in which an
  \<open>unordered_map\<close> is traversed is the order of the association list that stands for it, which
  the properties do not depend on.

  What the code relies on and the repository does not contain is a parameter: the Winsock calls
  (\<open>stream_sender\<close> and \<open>stream_receiver\<close> state that a call moves at least one and at most the
  requested number of bytes, in order), the clock, \<open>std::stod\<close> and how a stream prints a \<open>double\<close>,
  the addresses of allocated storage. The sockets \<open>loopback\<close> and \<open>boxes\<close> show that these
  hypotheses can hold.

  Bounds. A \<open>vector\<close> or \<open>string\<close> is shorter than \<open>2 ^ 63\<close> (\<open>vec_ok\<close>) and lengths that are written to
  the wire are below \<open>2 ^ 32\<close> (\<open>fits32\<close>); the code truncates longer ones, so that the properties
  name the bound. Over TCP a frame must be shorter than \<open>2 ^ 31\<close>, because sizes pass through
  \<open>int\<close>. Theorems named \<open>_wraps\<close>, \<open>_forged_\<close>, \<open>_lost\<close> or \<open>_blind\<close> show what happens beyond the
  bounds.

  What is not modelled: allocation failure; the memory model of C++ (steps of threads are
  interleaved, one access to the mutex or the queue each; destructors and copies of messages,
  which touch no shared state, take no step of their own); callbacks that change the agent map while the runtime iterates over it,
  which is undefined in C++.
\<close>

end
